theory Spec2Isabelle
  imports Complex_Main
begin

section \<open>The environment: file system and operating-system errors\<close>

text \<open>
  The program talks to the file system through \<open>os.Stat\<close>, \<open>os.Mkdir\<close>, \<open>os.Create\<close>,
  \<open>WriteString\<close> and \<open>io.Copy\<close>. The file system is a map from path names to nodes; a
  directory is stored under its name without the trailing separator. Failures that
  do not depend on the contents of the map (permissions, a full disk, an I/O error) are
  decided by the fault predicates of the environment record.
\<close>

datatype node = Dir | File string

type_synonym fsys = "string \<Rightarrow> node option"

datatype os_error = ErrNotExist | ErrExist | ErrOther

text \<open>The decoded metadata record of the program.\<close>

record Comic =
  Num :: int
  Img :: string
  Transcript :: string
  Alt :: string

text \<open>
  The network and the JSON decoder are parameters: \<open>httpGet\<close> gives the response body
  of a URL or \<open>None\<close> for a transport error, \<open>jsonDecode\<close> gives the decoded record
  or \<open>None\<close> for a decoding error. \<open>maxAlloc\<close> is the limit of the allocator of the Go
  runtime in bytes, a constant of the platform (\<open>2 ^ 48\<close> on 64-bit Linux).
\<close>

record env =
  statFault :: "string \<Rightarrow> bool"
  mkdirFault :: "string \<Rightarrow> bool"
  createFault :: "string \<Rightarrow> bool"
  writeFault :: "string \<Rightarrow> bool"
  copyFault :: "string \<Rightarrow> bool"
  httpGet :: "string \<Rightarrow> string option"
  jsonDecode :: "string \<Rightarrow> Comic option"
  maxAlloc :: int

text \<open>A trailing separator of a directory name is dropped before the lookup.\<close>

definition dirName :: "string \<Rightarrow> string" where
  "dirName p = (if p \<noteq> [] \<and> last p = CHR ''/'' then butlast p else p)"

text \<open>\<open>os.Stat\<close>: only the error is used by the program; \<open>None\<close> is the nil error.\<close>

definition Stat :: "env \<Rightarrow> fsys \<Rightarrow> string \<Rightarrow> os_error option" where
  "Stat e fs p =
     (if statFault e p then Some ErrOther
      else (case fs (dirName p) of None \<Rightarrow> Some ErrNotExist | Some _ \<Rightarrow> None))"

text \<open>\<open>os.IsNotExist\<close>.\<close>

definition IsNotExist :: "os_error option \<Rightarrow> bool" where
  "IsNotExist err = (err = Some ErrNotExist)"

text \<open>
  \<open>os.Mkdir\<close> refuses a name that is already taken; \<open>os.Create\<close> makes an empty file
  or truncates the file of that name and refuses a directory; \<open>WriteString\<close> and
  \<open>io.Copy\<close> write to the file just created. Each returns the new file system together
  with its error.
\<close>

definition Mkdir :: "env \<Rightarrow> fsys \<Rightarrow> string \<Rightarrow> fsys \<times> os_error option" where
  "Mkdir e fs p =
     (if mkdirFault e p then (fs, Some ErrOther)
      else if fs (dirName p) \<noteq> None then (fs, Some ErrExist)
      else (fs(dirName p \<mapsto> Dir), None))"

definition Create :: "env \<Rightarrow> fsys \<Rightarrow> string \<Rightarrow> fsys \<times> os_error option" where
  "Create e fs p =
     (if createFault e p then (fs, Some ErrOther)
      else if fs p = Some Dir then (fs, Some ErrOther)
      else (fs(p \<mapsto> File []), None))"

definition WriteString :: "env \<Rightarrow> fsys \<Rightarrow> string \<Rightarrow> string \<Rightarrow> fsys \<times> os_error option" where
  "WriteString e fs p s =
     (if writeFault e p then (fs, Some ErrOther) else (fs(p \<mapsto> File s), None))"

definition Copy :: "env \<Rightarrow> fsys \<Rightarrow> string \<Rightarrow> string \<Rightarrow> fsys \<times> os_error option" where
  "Copy e fs p body =
     (if copyFault e p then (fs, Some ErrOther) else (fs(p \<mapsto> File body), None))"

text \<open>
  \<open>http.Get\<close>: a URL without a protocol scheme, the empty string among them, is refused
  before any request is sent; every other request is answered by the environment.
\<close>

definition Get :: "env \<Rightarrow> string \<Rightarrow> string option" where
  "Get e url = (if url = [] then None else httpGet e url)"

text \<open>\<open>strings.Split\<close> for a one-character separator: never the empty list.\<close>

fun Split :: "string \<Rightarrow> char \<Rightarrow> string list" where
  "Split [] sep = [[]]"
| "Split (c # cs) sep =
     (if c = sep then [] # Split cs sep
      else (case Split cs sep of [] \<Rightarrow> [[c]] | w # ws \<Rightarrow> (c # w) # ws))"

section \<open>Constants and latestComicNum\<close>

definition xkcdURL :: string where
  "xkcdURL = ''https://xkcd.com/''"

definition jsonFile :: string where
  "jsonFile = ''info.0.json''"

datatype fetch_error = TransportError | DecodeError

definition latestComicNum :: "env \<Rightarrow> fetch_error + int" where
  "latestComicNum e =
     (let url = xkcdURL @ jsonFile in
      case Get e url of None \<Rightarrow> Inl TransportError
      | Some body \<Rightarrow>
          (case jsonDecode e body of None \<Rightarrow> Inl DecodeError
           | Some comicData \<Rightarrow> Inr (Num comicData)))"

section \<open>strconv.Itoa\<close>

definition digitChar :: "nat \<Rightarrow> char" where
  "digitChar d = ''0123456789'' ! d"

fun formatDigits :: "nat \<Rightarrow> string" where
  "formatDigits n =
     (if n < 10 then [digitChar n] else formatDigits (n div 10) @ [digitChar (n mod 10)])"

declare formatDigits.simps [simp del]

definition Itoa :: "int \<Rightarrow> string" where
  "Itoa i = (if i < 0 then CHR ''-'' # formatDigits (nat (- i)) else formatDigits (nat i))"

text \<open>Reading a decimal string back; used only to show that \<open>Itoa\<close> loses nothing.\<close>

definition digitVal :: "char \<Rightarrow> nat" where
  "digitVal c = of_char c - 48"

definition parseDigits :: "string \<Rightarrow> nat" where
  "parseDigits s = foldl (\<lambda>acc c. 10 * acc + digitVal c) 0 s"

definition Atoi :: "string \<Rightarrow> int" where
  "Atoi s = (case s of [] \<Rightarrow> 0
             | c # cs \<Rightarrow> if c = CHR ''-'' then - int (parseDigits cs) else int (parseDigits s))"

section \<open>missingComics\<close>

datatype panic = MakesliceCap | IndexOutOfRange | DivideByZero | SliceBounds | MakechanSize

text \<open>
  The loop \<open>for i := 1; i <= numComics; i++\<close> of \<open>missingComics\<close>, with the slice
  \<open>dlList\<close> as accumulator. Index 404 is skipped before any file-system access.
\<close>

function missingComics_loop ::
  "env \<Rightarrow> fsys \<Rightarrow> string \<Rightarrow> int \<Rightarrow> int \<Rightarrow> string list \<Rightarrow> string list" where
  "missingComics_loop e fs dbPath numComics i dlList =
     (if i \<le> numComics then
        (if i = 404 then missingComics_loop e fs dbPath numComics (i + 1) dlList
         else
           (let comicPath = dbPath @ Itoa i in
            if IsNotExist (Stat e fs comicPath)
            then missingComics_loop e fs dbPath numComics (i + 1) (dlList @ [Itoa i])
            else missingComics_loop e fs dbPath numComics (i + 1) dlList))
      else dlList)"
  by pat_completeness auto
termination
  by (relation "measure (\<lambda>(e, fs, dbPath, numComics, i, dlList). nat (numComics + 1 - i))") auto

declare missingComics_loop.simps [simp del]

text \<open>
  \<open>make([]string, 0, n)\<close> as the runtime checks it (\<open>makeslice\<close>) on a 64-bit platform,
  where a string header has 16 bytes: it panics with \<open>makeslice: cap out of range\<close> when
  the capacity is negative, when \<open>16 * n\<close> overflows the 64-bit word, or when \<open>16 * n\<close>
  exceeds the limit of the allocator.
\<close>

definition makesliceOK :: "env \<Rightarrow> int \<Rightarrow> bool" where
  "makesliceOK e n = (0 \<le> n \<and> 16 * n < 2 ^ 64 \<and> 16 * n \<le> maxAlloc e)"

text \<open>
  Go's \<open>int\<close> is modelled by the unbounded integers. A capacity that \<open>makeslice\<close> accepts
  is below \<open>2 ^ 60\<close>, and the counter \<open>i\<close> never exceeds \<open>numComics + 1\<close>, so it does not
  wrap in 64 bits (lemma \<open>makesliceOK_no_wrap\<close>). The amount of physical memory is not
  part of the model.
\<close>

definition missingComics :: "env \<Rightarrow> fsys \<Rightarrow> int \<Rightarrow> string \<Rightarrow> panic + string list" where
  "missingComics e fs numComics dbPath =
     (if \<not> makesliceOK e numComics then Inl MakesliceCap
      else Inr (missingComics_loop e fs dbPath numComics 1 []))"

text \<open>The version of \<open>xkcd.go\<close> uses the constant archive path.\<close>

definition dbPath_const :: string where
  "dbPath_const = ''./xkcdDB/''"

definition missingComics_xkcd :: "env \<Rightarrow> fsys \<Rightarrow> int \<Rightarrow> panic + string list" where
  "missingComics_xkcd e fs numComics = missingComics e fs numComics dbPath_const"

section \<open>splitSlice\<close>

text \<open>
  Go's integer division truncates towards zero and the remainder takes the sign of the
  dividend; both panic for a zero divisor, which \<open>splitSlice\<close> checks first.
\<close>

definition go_quo :: "int \<Rightarrow> int \<Rightarrow> int" where
  "go_quo a b = sgn a * sgn b * (\<bar>a\<bar> div \<bar>b\<bar>)"

definition go_rem :: "int \<Rightarrow> int \<Rightarrow> int" where
  "go_rem a b = sgn a * (\<bar>a\<bar> mod \<bar>b\<bar>)"

text \<open>
  The slice expression \<open>input[lo:hi]\<close>. The bounds are checked against the length; the
  indices that \<open>splitSlice\<close> computes never lie between the length and the capacity.
\<close>

definition slice :: "'a list \<Rightarrow> int \<Rightarrow> int \<Rightarrow> panic + 'a list" where
  "slice xs lo hi =
     (if 0 \<le> lo \<and> lo \<le> hi \<and> hi \<le> int (length xs)
      then Inr (take (nat (hi - lo)) (drop (nat lo) xs))
      else Inl SliceBounds)"

function splitSlice_loop ::
  "string list \<Rightarrow> int \<Rightarrow> int \<Rightarrow> int \<Rightarrow> string list list \<Rightarrow> panic + string list list" where
  "splitSlice_loop input blockSize nFullBlocks block output =
     (if block < nFullBlocks then
        (let index = block * blockSize in
         case slice input index (index + blockSize) of
           Inl p \<Rightarrow> Inl p
         | Inr b \<Rightarrow> splitSlice_loop input blockSize nFullBlocks (block + 1) (output @ [b]))
      else Inr output)"
  by pat_completeness auto
termination
  by (relation "measure (\<lambda>(input, blockSize, nFullBlocks, block, output).
                            nat (nFullBlocks - block))") auto

declare splitSlice_loop.simps [simp del]

definition splitSlice :: "string list \<Rightarrow> int \<Rightarrow> panic + string list list" where
  "splitSlice input blockSize =
     (if blockSize = 0 then Inl DivideByZero
      else
        (let nFullBlocks = go_quo (int (length input)) blockSize;
             rem = go_rem (int (length input)) blockSize
         in if nFullBlocks + 1 < 0 then Inl MakesliceCap
            else
              (case splitSlice_loop input blockSize nFullBlocks 0 [] of
                 Inl p \<Rightarrow> Inl p
               | Inr output \<Rightarrow>
                   (if rem \<noteq> 0 then
                      (let index = nFullBlocks * blockSize in
                       case slice input index (index + rem) of
                         Inl p \<Rightarrow> Inl p
                       | Inr b \<Rightarrow> Inr (output @ [b]))
                    else Inr output))))"

section \<open>getComic\<close>

text \<open>
  How the goroutine of one item ends: with one of its early returns, with
  \<open>log.Fatalln\<close> (which ends the whole process with exit status 1), or at the end of
  its body.
\<close>

datatype outcome =
    MetaTransportErr
  | MetaDecodeErr
  | Fatal
  | AssetTransportErr
  | NoImage
  | Completed

text \<open>
  \<open>os.Create\<close> followed by \<open>WriteString\<close>, each error being fatal: the pattern of both
  metadata files. The flag says whether \<open>log.Fatalln\<close> was reached.
\<close>

definition writeFile :: "env \<Rightarrow> fsys \<Rightarrow> string \<Rightarrow> string \<Rightarrow> fsys \<times> bool" where
  "writeFile e fs p s =
     (let (fs1, err) = Create e fs p in
      if err \<noteq> None then (fs1, True)
      else
        (let (fs2, writeErr) = WriteString e fs1 p s in
         if writeErr \<noteq> None then (fs2, True) else (fs2, False)))"

text \<open>The part of the goroutine under \<open>// Write image files.\<close>, the same in both versions.\<close>

definition imgName :: "Comic \<Rightarrow> string" where
  "imgName comicData = (let splitUrl = Split (Img comicData) (CHR ''/'') in last splitUrl)"

definition writeImage :: "env \<Rightarrow> fsys \<Rightarrow> string \<Rightarrow> Comic \<Rightarrow> outcome \<times> fsys" where
  "writeImage e fs savePath comicData =
     (case Get e (Img comicData) of
        None \<Rightarrow> (AssetTransportErr, fs)
      | Some imgBody \<Rightarrow>
          (if imgName comicData = [] then (NoImage, fs)
           else
             (let imgPath = savePath @ imgName comicData;
                  (fs1, err) = Create e fs imgPath
              in if err \<noteq> None then (Fatal, fs1)
                 else
                   (let (fs2, err) = Copy e fs1 imgPath imgBody in
                    if err \<noteq> None then (Fatal, fs2) else (Completed, fs2)))))"

text \<open>
  The goroutine of the version with the counting semaphore: a metadata file is written
  only for a non-empty field.
\<close>

definition writeAlt :: "env \<Rightarrow> fsys \<Rightarrow> string \<Rightarrow> string \<Rightarrow> Comic \<Rightarrow> fsys \<times> bool" where
  "writeAlt e fs savePath item comicData =
     (if Alt comicData \<noteq> [] then writeFile e fs (savePath @ item @ ''-alt'') (Alt comicData)
      else (fs, False))"

definition writeTranscript :: "env \<Rightarrow> fsys \<Rightarrow> string \<Rightarrow> string \<Rightarrow> Comic \<Rightarrow> fsys \<times> bool" where
  "writeTranscript e fs savePath item comicData =
     (if Transcript comicData \<noteq> []
      then writeFile e fs (savePath @ item @ ''-transcript'') (Transcript comicData)
      else (fs, False))"

definition getComic_worker :: "env \<Rightarrow> string \<Rightarrow> fsys \<Rightarrow> string \<Rightarrow> outcome \<times> fsys" where
  "getComic_worker e dbPath fs item =
     (let url = xkcdURL @ item @ ''/'' @ jsonFile in
      case Get e url of
        None \<Rightarrow> (MetaTransportErr, fs)
      | Some body \<Rightarrow>
          (case jsonDecode e body of
             None \<Rightarrow> (MetaDecodeErr, fs)
           | Some comicData \<Rightarrow>
               (let savePath = dbPath @ item @ ''/'';
                    (fs1, err) = Mkdir e fs savePath
                in if err \<noteq> None then (Fatal, fs1)
                   else
                     (let (fs2, fatal) = writeAlt e fs1 savePath item comicData in
                      if fatal then (Fatal, fs2)
                      else
                        (let (fs3, fatal) = writeTranscript e fs2 savePath item comicData in
                         if fatal then (Fatal, fs3)
                         else writeImage e fs3 savePath comicData)))))"

text \<open>
  The goroutine of \<open>xkcd.go\<close>: the archive path is the constant and both metadata files
  are written whatever the fields hold.
\<close>

definition getComic_worker_xkcd :: "env \<Rightarrow> fsys \<Rightarrow> string \<Rightarrow> outcome \<times> fsys" where
  "getComic_worker_xkcd e fs item =
     (let url = xkcdURL @ item @ ''/'' @ jsonFile in
      case Get e url of
        None \<Rightarrow> (MetaTransportErr, fs)
      | Some body \<Rightarrow>
          (case jsonDecode e body of
             None \<Rightarrow> (MetaDecodeErr, fs)
           | Some comicData \<Rightarrow>
               (let savePath = dbPath_const @ item @ ''/'';
                    (fs1, err) = Mkdir e fs savePath
                in if err \<noteq> None then (Fatal, fs1)
                   else
                     (let (fs2, fatal) =
                            writeFile e fs1 (savePath @ item @ ''-alt'') (Alt comicData)
                      in if fatal then (Fatal, fs2)
                         else
                           (let (fs3, fatal) =
                                  writeFile e fs2 (savePath @ item @ ''-transcript'')
                                    (Transcript comicData)
                            in if fatal then (Fatal, fs3)
                               else writeImage e fs3 savePath comicData)))))"

text \<open>
  The loop \<open>for _, item := range dlList\<close> with \<open>wg.Wait()\<close>, under the schedule in which
  the goroutines run one after the other in the order of the list. The goroutines
  share nothing but the file system, where each writes below its own directory. The
  result lists the outcome of every goroutine that ran; a fatal outcome ends the
  process, so it is the last one. The other schedules are those of the section on the
  goroutines under a schedule; this one is among them (lemma \<open>runWorkers_runOps\<close>).
\<close>

fun runWorkers ::
  "(fsys \<Rightarrow> string \<Rightarrow> outcome \<times> fsys) \<Rightarrow> fsys \<Rightarrow> string list \<Rightarrow> outcome list \<times> fsys" where
  "runWorkers w fs [] = ([], fs)"
| "runWorkers w fs (item # dlList) =
     (let (out, fs1) = w fs item in
      if out = Fatal then ([out], fs1)
      else (let (outs, fs2) = runWorkers w fs1 dlList in (out # outs, fs2)))"

text \<open>
  \<open>tokens\<close> is the capacity of the semaphore channel. With capacity 0 the send that
  acquires a token has no receiver, so no goroutine gets past it and \<open>wg.Wait()\<close>
  never returns: the result is \<open>None\<close>.
\<close>

definition getComic ::
  "env \<Rightarrow> string list \<Rightarrow> string \<Rightarrow> nat \<Rightarrow> fsys \<Rightarrow> outcome list option \<times> fsys" where
  "getComic e dlList dbPath tokens fs =
     (if tokens = 0 \<and> dlList \<noteq> [] then (None, fs)
      else (let (outs, fs1) = runWorkers (getComic_worker e dbPath) fs dlList
            in (Some outs, fs1)))"

definition getComic_xkcd :: "env \<Rightarrow> string list \<Rightarrow> fsys \<Rightarrow> outcome list \<times> fsys" where
  "getComic_xkcd e dlList fs = runWorkers (getComic_worker_xkcd e) fs dlList"

section \<open>main\<close>

text \<open>The statement under \<open>// Add trailing /\<close>: it reads the last byte of the path.\<close>

definition addTrailingSlash :: "string \<Rightarrow> panic + string" where
  "addTrailingSlash dbPath =
     (if dbPath = [] then Inl IndexOutOfRange
      else if last dbPath \<noteq> CHR ''/'' then Inr (dbPath @ ''/'')
      else Inr dbPath)"

datatype status =
    Panic panic
  | FatalExit
  | Deadlock
  | NoMissing
  | Downloaded "string list" "outcome list"

text \<open>
  \<open>main\<close> of the version with flags; \<open>rateLimit\<close> and \<open>dbPath\<close> are the parsed flag
  values. \<open>Downloaded\<close> carries the missing set of the run and the outcomes of its
  goroutines.
\<close>

definition main :: "env \<Rightarrow> int \<Rightarrow> string \<Rightarrow> fsys \<Rightarrow> status \<times> fsys" where
  "main e rateLimit dbPath0 fs =
     (case addTrailingSlash dbPath0 of
        Inl p \<Rightarrow> (Panic p, fs)
      | Inr dbPath \<Rightarrow>
          (case latestComicNum e of
             Inl err \<Rightarrow> (FatalExit, fs)
           | Inr numComics \<Rightarrow>
               (let (fs1, err) =
                      (if IsNotExist (Stat e fs dbPath) then Mkdir e fs dbPath else (fs, None))
                in if err \<noteq> None then (FatalExit, fs1)
                   else
                     (case missingComics e fs1 numComics dbPath of
                        Inl p \<Rightarrow> (Panic p, fs1)
                      | Inr missing \<Rightarrow>
                          (if length missing = 0 then (NoMissing, fs1)
                           else if rateLimit < 0 then (Panic MakechanSize, fs1)
                           else
                             (case getComic e missing dbPath (nat rateLimit) fs1 of
                                (None, fs2) \<Rightarrow> (Deadlock, fs2)
                              | (Some outs, fs2) \<Rightarrow>
                                  (if Fatal \<in> set outs then (FatalExit, fs2)
                                   else (Downloaded missing outs, fs2))))))))"

section \<open>The goroutines under a schedule\<close>

text \<open>
  The goroutines of one call of \<open>getComic\<close> run concurrently, and the file system is
  all they share. What a goroutine does to it is the sequence of its calls of
  \<open>os.Mkdir\<close>, \<open>os.Create\<close>, \<open>WriteString\<close> and \<open>io.Copy\<close>, in program order.
\<close>

datatype fsop =
    OpMkdir string
  | OpCreate string
  | OpWriteString string string
  | OpCopy string string

definition applyOp :: "env \<Rightarrow> fsys \<Rightarrow> fsop \<Rightarrow> fsys \<times> os_error option" where
  "applyOp e fs x =
     (case x of
        OpMkdir p \<Rightarrow> Mkdir e fs p
      | OpCreate p \<Rightarrow> Create e fs p
      | OpWriteString p s \<Rightarrow> WriteString e fs p s
      | OpCopy p body \<Rightarrow> Copy e fs p body)"

text \<open>
  A run of the process over the calls of its goroutines, in the order in which the
  scheduler lets them happen. In both versions every error of such a call is followed
  by \<open>log.Fatalln\<close>, whose \<open>os.Exit(1)\<close> ends the process and with it every goroutine:
  the run stops at the first call that fails. The failing call and the exit are one
  step here; what the other goroutines do while the message is written is not
  modelled. The flag says whether the process exited.
\<close>

fun runOps :: "env \<Rightarrow> fsys \<Rightarrow> fsop list \<Rightarrow> bool \<times> fsys" where
  "runOps e fs [] = (False, fs)"
| "runOps e fs (x # xs) =
     (let (fs1, err) = applyOp e fs x in
      if err \<noteq> None then (True, fs1) else runOps e fs1 xs)"

text \<open>
  The calls of the goroutine of one item, in program order. A goroutine goes on only
  after a call that succeeded, so which calls it makes is decided by the network and
  the decoder alone: none after a failed metadata request or decoding, none for the
  image after a failed image request or for an empty image name. Lemmas
  \<open>worker_runOps\<close> and \<open>worker_xkcd_runOps\<close> show that \<open>getComic_worker\<close> and
  \<open>getComic_worker_xkcd\<close> are the runs of these calls.
\<close>

definition writeFileOps :: "string \<Rightarrow> string \<Rightarrow> fsop list" where
  "writeFileOps p s = [OpCreate p, OpWriteString p s]"

definition writeImageOps :: "env \<Rightarrow> string \<Rightarrow> Comic \<Rightarrow> fsop list" where
  "writeImageOps e savePath comicData =
     (case Get e (Img comicData) of
        None \<Rightarrow> []
      | Some imgBody \<Rightarrow>
          (if imgName comicData = [] then []
           else (let imgPath = savePath @ imgName comicData
                 in [OpCreate imgPath, OpCopy imgPath imgBody])))"

definition workerOps :: "env \<Rightarrow> string \<Rightarrow> string \<Rightarrow> fsop list" where
  "workerOps e dbPath item =
     (let url = xkcdURL @ item @ ''/'' @ jsonFile in
      case Get e url of
        None \<Rightarrow> []
      | Some body \<Rightarrow>
          (case jsonDecode e body of
             None \<Rightarrow> []
           | Some comicData \<Rightarrow>
               (let savePath = dbPath @ item @ ''/'' in
                OpMkdir savePath
                # (if Alt comicData \<noteq> []
                   then writeFileOps (savePath @ item @ ''-alt'') (Alt comicData) else [])
                @ (if Transcript comicData \<noteq> []
                   then writeFileOps (savePath @ item @ ''-transcript'') (Transcript comicData)
                   else [])
                @ writeImageOps e savePath comicData)))"

definition workerOps_xkcd :: "env \<Rightarrow> string \<Rightarrow> fsop list" where
  "workerOps_xkcd e item =
     (let url = xkcdURL @ item @ ''/'' @ jsonFile in
      case Get e url of
        None \<Rightarrow> []
      | Some body \<Rightarrow>
          (case jsonDecode e body of
             None \<Rightarrow> []
           | Some comicData \<Rightarrow>
               (let savePath = dbPath_const @ item @ ''/'' in
                OpMkdir savePath
                # writeFileOps (savePath @ item @ ''-alt'') (Alt comicData)
                @ writeFileOps (savePath @ item @ ''-transcript'') (Transcript comicData)
                @ writeImageOps e savePath comicData)))"

text \<open>How the goroutine of an item returns when none of its calls fails.\<close>

definition workerReturn :: "env \<Rightarrow> string \<Rightarrow> outcome" where
  "workerReturn e item =
     (let url = xkcdURL @ item @ ''/'' @ jsonFile in
      case Get e url of
        None \<Rightarrow> MetaTransportErr
      | Some body \<Rightarrow>
          (case jsonDecode e body of
             None \<Rightarrow> MetaDecodeErr
           | Some comicData \<Rightarrow>
               (case Get e (Img comicData) of
                  None \<Rightarrow> AssetTransportErr
                | Some imgBody \<Rightarrow> if imgName comicData = [] then NoImage else Completed)))"

text \<open>
  The orders in which the calls of several goroutines can happen: each goroutine keeps
  its program order, and between the goroutines every merge is possible.
\<close>

fun interleavings :: "'a list list \<Rightarrow> 'a list set" where
  "interleavings [] = {[]}"
| "interleavings (xs # xss) = (\<Union>ys\<in>interleavings xss. shuffles xs ys)"

text \<open>
  \<open>getComic\<close> under a scheduler. The scheduler is a parameter: \<open>sched\<close> gets the calls of
  the goroutines and returns the order in which they happen, one of their
  interleavings. The semaphore of the version with flags only excludes some of these
  orders, unless its capacity is 0, when no goroutine gets past the send. The result
  says whether the process exited in \<open>log.Fatalln\<close>; otherwise \<open>wg.Wait()\<close> returns.
\<close>

definition getComic_sched ::
  "env \<Rightarrow> (fsop list list \<Rightarrow> fsop list) \<Rightarrow> string list \<Rightarrow> string \<Rightarrow> nat \<Rightarrow> fsys
     \<Rightarrow> bool option \<times> fsys" where
  "getComic_sched e sched dlList dbPath tokens fs =
     (if tokens = 0 \<and> dlList \<noteq> [] then (None, fs)
      else (let (fatal, fs1) = runOps e fs (sched (map (workerOps e dbPath) dlList))
            in (Some fatal, fs1)))"

definition getComic_xkcd_sched ::
  "env \<Rightarrow> (fsop list list \<Rightarrow> fsop list) \<Rightarrow> string list \<Rightarrow> fsys \<Rightarrow> bool \<times> fsys" where
  "getComic_xkcd_sched e sched dlList fs = runOps e fs (sched (map (workerOps_xkcd e) dlList))"

text \<open>
  \<open>main\<close> of the version with flags under a scheduler; \<open>main\<close> above is the instance
  for the scheduler that runs the goroutines one after the other in the order of the
  list (lemma \<open>main_list_order\<close>).
\<close>

definition main_sched ::
  "env \<Rightarrow> int \<Rightarrow> string \<Rightarrow> (fsop list list \<Rightarrow> fsop list) \<Rightarrow> fsys \<Rightarrow> status \<times> fsys" where
  "main_sched e rateLimit dbPath0 sched fs =
     (case addTrailingSlash dbPath0 of
        Inl p \<Rightarrow> (Panic p, fs)
      | Inr dbPath \<Rightarrow>
          (case latestComicNum e of
             Inl err \<Rightarrow> (FatalExit, fs)
           | Inr numComics \<Rightarrow>
               (let (fs1, err) =
                      (if IsNotExist (Stat e fs dbPath) then Mkdir e fs dbPath else (fs, None))
                in if err \<noteq> None then (FatalExit, fs1)
                   else
                     (case missingComics e fs1 numComics dbPath of
                        Inl p \<Rightarrow> (Panic p, fs1)
                      | Inr missing \<Rightarrow>
                          (if length missing = 0 then (NoMissing, fs1)
                           else if rateLimit < 0 then (Panic MakechanSize, fs1)
                           else
                             (case getComic_sched e sched missing dbPath (nat rateLimit) fs1 of
                                (None, fs2) \<Rightarrow> (Deadlock, fs2)
                              | (Some fatal, fs2) \<Rightarrow>
                                  (if fatal then (FatalExit, fs2)
                                   else (Downloaded missing (map (workerReturn e) missing),
                                         fs2))))))))"

text \<open>
  The loop \<open>for _, comics := range dlList { getComic(comics) }\<close> of \<open>main\<close> in \<open>xkcd.go\<close>:
  the goroutines of a block run concurrently, and the next block starts when
  \<open>wg.Wait()\<close> has returned for the block before.
\<close>

fun runBlocks ::
  "env \<Rightarrow> (fsop list list \<Rightarrow> fsop list) \<Rightarrow> fsys \<Rightarrow> string list list \<Rightarrow> bool \<times> fsys" where
  "runBlocks e sched fs [] = (False, fs)"
| "runBlocks e sched fs (comics # dlList) =
     (let (fatal, fs1) = getComic_xkcd_sched e sched comics fs in
      if fatal then (True, fs1) else runBlocks e sched fs1 dlList)"

text \<open>
  \<open>main\<close> of \<open>xkcd.go\<close> under a scheduler. It has no flags and prints the number of
  missing comics before the downloads; the status \<open>Downloaded\<close> stands for its return
  after the last block.
\<close>

definition main_xkcd :: "env \<Rightarrow> (fsop list list \<Rightarrow> fsop list) \<Rightarrow> fsys \<Rightarrow> status \<times> fsys" where
  "main_xkcd e sched fs =
     (case latestComicNum e of
        Inl err \<Rightarrow> (FatalExit, fs)
      | Inr numComics \<Rightarrow>
          (let rateLimit = 200;
               (fs1, err) =
                 (if IsNotExist (Stat e fs dbPath_const) then Mkdir e fs dbPath_const
                  else (fs, None))
           in if err \<noteq> None then (FatalExit, fs1)
              else
                (case missingComics_xkcd e fs1 numComics of
                   Inl p \<Rightarrow> (Panic p, fs1)
                 | Inr missing \<Rightarrow>
                     (if length missing = 0 then (NoMissing, fs1)
                      else
                        (case splitSlice missing rateLimit of
                           Inl p \<Rightarrow> (Panic p, fs1)
                         | Inr dlList \<Rightarrow>
                             (let (fatal, fs2) = runBlocks e sched fs1 dlList in
                              if fatal then (FatalExit, fs2)
                              else (Downloaded missing (map (workerReturn e) missing),
                                    fs2)))))))"

section \<open>Specification-side definitions and sample environments\<close>

text \<open>
  The missing set in the words of the specification: the indices of \<open>[1, N]\<close> other
  than the known gap 404 whose existence check under the archive root reports that
  nothing of that name exists.
\<close>

definition missingIndices :: "env \<Rightarrow> fsys \<Rightarrow> string \<Rightarrow> int \<Rightarrow> int list" where
  "missingIndices e fs dbPath N =
     filter (\<lambda>i. i \<noteq> 404 \<and> IsNotExist (Stat e fs (dbPath @ Itoa i))) [1..N]"

text \<open>
  An environment without faults and without a network, for concrete runs, with the
  allocator limit of 64-bit Linux.
\<close>

definition quietEnv :: env where
  "quietEnv = \<lparr>statFault = (\<lambda>p. False), mkdirFault = (\<lambda>p. False), createFault = (\<lambda>p. False),
                writeFault = (\<lambda>p. False), copyFault = (\<lambda>p. False),
                httpGet = (\<lambda>url. None), jsonDecode = (\<lambda>body. None), maxAlloc = 2 ^ 48\<rparr>"

text \<open>An environment in which the existence check of one entry is refused.\<close>

definition deniedEnv :: env where
  "deniedEnv = quietEnv\<lparr>statFault := (\<lambda>p. p = ''db/2'')\<rparr>"

text \<open>
  The chunks in the words of the specification: the full blocks of \<open>B\<close> consecutive
  elements, followed by the remainder when the length is not a multiple of \<open>B\<close>.
\<close>

definition blockAt :: "string list \<Rightarrow> int \<Rightarrow> int \<Rightarrow> string list" where
  "blockAt xs B k = take (nat B) (drop (nat (k * B)) xs)"

definition chunksSpec :: "string list \<Rightarrow> int \<Rightarrow> string list list" where
  "chunksSpec xs B =
     map (blockAt xs B) [0..int (length xs) div B - 1]
     @ (if int (length xs) mod B \<noteq> 0
        then [drop (nat (int (length xs) div B * B)) xs]
        else [])"

text \<open>
  A stub catalog for concrete runs: the latest comic and comic 1 decode to \<open>comic1\<close>,
  the body of comic 2 does not decode, comic 3 is unreachable, comic 4 has an empty
  image URL, the image URL of comic 5 ends in the separator, and the image of comic 6
  is named like its alt file.
\<close>

definition comic1 :: Comic where
  "comic1 = \<lparr>Num = 1, Img = ''https://imgs.xkcd.com/a.png'', Transcript = [], Alt = ''A''\<rparr>"

definition comic4 :: Comic where
  "comic4 = \<lparr>Num = 4, Img = [], Transcript = ''T'', Alt = []\<rparr>"

definition comic5 :: Comic where
  "comic5 = \<lparr>Num = 5, Img = ''https://imgs.xkcd.com/comics/'', Transcript = [], Alt = ''B''\<rparr>"

definition comic6 :: Comic where
  "comic6 = \<lparr>Num = 6, Img = ''https://imgs.xkcd.com/6-alt'', Transcript = [], Alt = []\<rparr>"

definition stubEnv :: env where
  "stubEnv = quietEnv\<lparr>
     httpGet := (\<lambda>url.
       if url = ''https://xkcd.com/info.0.json'' then Some ''c1''
       else if url = ''https://xkcd.com/1/info.0.json'' then Some ''c1''
       else if url = ''https://xkcd.com/2/info.0.json'' then Some ''html''
       else if url = ''https://xkcd.com/4/info.0.json'' then Some ''c4''
       else if url = ''https://xkcd.com/5/info.0.json'' then Some ''c5''
       else if url = ''https://xkcd.com/6/info.0.json'' then Some ''c6''
       else if url = ''https://imgs.xkcd.com/a.png'' then Some ''PNG''
       else if url = ''https://imgs.xkcd.com/comics/'' then Some ''page''
       else if url = ''https://imgs.xkcd.com/6-alt'' then Some ''IMG''
       else None),
     jsonDecode := (\<lambda>body.
       if body = ''c1'' then Some comic1
       else if body = ''c4'' then Some comic4
       else if body = ''c5'' then Some comic5
       else if body = ''c6'' then Some comic6
       else None)\<rparr>"

text \<open>How the metadata fetch of an item fails, if it does.\<close>

definition metaFailure :: "env \<Rightarrow> string \<Rightarrow> outcome option" where
  "metaFailure e item =
     (case Get e (xkcdURL @ item @ ''/'' @ jsonFile) of
        None \<Rightarrow> Some MetaTransportErr
      | Some body \<Rightarrow> (case jsonDecode e body of None \<Rightarrow> Some MetaDecodeErr | Some c \<Rightarrow> None))"

text \<open>
  A file-system failure on the way of the goroutine of an item whose metadata decoded
  to \<open>c\<close>: the directory cannot be made, or a fault hits the creation or the writing of
  a file that the goroutine writes (for the asset, the byte copy). The version of
  \<open>xkcd.go\<close> writes both metadata files unconditionally.
\<close>

definition fsFailure :: "env \<Rightarrow> string \<Rightarrow> fsys \<Rightarrow> string \<Rightarrow> Comic \<Rightarrow> bool" where
  "fsFailure e dbPath fs item c =
     (let savePath = dbPath @ item @ ''/'' in
        snd (Mkdir e fs savePath) \<noteq> None
      \<or> (Alt c \<noteq> [] \<and> (createFault e (savePath @ item @ ''-alt'')
                         \<or> writeFault e (savePath @ item @ ''-alt'')))
      \<or> (Transcript c \<noteq> [] \<and> (createFault e (savePath @ item @ ''-transcript'')
                                \<or> writeFault e (savePath @ item @ ''-transcript'')))
      \<or> (Get e (Img c) \<noteq> None \<and> imgName c \<noteq> []
           \<and> (createFault e (savePath @ imgName c) \<or> copyFault e (savePath @ imgName c))))"

definition fsFailure_xkcd :: "env \<Rightarrow> fsys \<Rightarrow> string \<Rightarrow> Comic \<Rightarrow> bool" where
  "fsFailure_xkcd e fs item c =
     (let savePath = dbPath_const @ item @ ''/'' in
        snd (Mkdir e fs savePath) \<noteq> None
      \<or> createFault e (savePath @ item @ ''-alt'') \<or> writeFault e (savePath @ item @ ''-alt'')
      \<or> createFault e (savePath @ item @ ''-transcript'')
      \<or> writeFault e (savePath @ item @ ''-transcript'')
      \<or> (Get e (Img c) \<noteq> None \<and> imgName c \<noteq> []
           \<and> (createFault e (savePath @ imgName c) \<or> copyFault e (savePath @ imgName c))))"

text \<open>
  The part of the goroutine under \<open>// Write metadata files.\<close> taken by itself: the file
  system it leaves and whether it reached \<open>log.Fatalln\<close>. The goroutine is this part
  followed by \<open>writeImage\<close> (lemmas \<open>worker_stages\<close> and \<open>worker_xkcd_stages\<close>).
\<close>

definition metadataWrites :: "env \<Rightarrow> string \<Rightarrow> fsys \<Rightarrow> string \<Rightarrow> Comic \<Rightarrow> fsys \<times> bool" where
  "metadataWrites e dbPath fs item c =
     (let savePath = dbPath @ item @ ''/'';
          (fs1, err) = Mkdir e fs savePath
      in if err \<noteq> None then (fs1, True)
         else (let (fs2, fatal) = writeAlt e fs1 savePath item c in
               if fatal then (fs2, True) else writeTranscript e fs2 savePath item c))"

definition metadataWrites_xkcd :: "env \<Rightarrow> fsys \<Rightarrow> string \<Rightarrow> Comic \<Rightarrow> fsys \<times> bool" where
  "metadataWrites_xkcd e fs item c =
     (let savePath = dbPath_const @ item @ ''/'';
          (fs1, err) = Mkdir e fs savePath
      in if err \<noteq> None then (fs1, True)
         else (let (fs2, fatal) = writeFile e fs1 (savePath @ item @ ''-alt'') (Alt c) in
               if fatal then (fs2, True)
               else writeFile e fs2 (savePath @ item @ ''-transcript'') (Transcript c)))"

text \<open>
  A file system is well formed when nothing lies below a name that does not exist.
\<close>

definition wellFormed :: "fsys \<Rightarrow> bool" where
  "wellFormed fs = (\<forall>d n. fs d = None \<longrightarrow> fs (d @ CHR ''/'' # n) = None)"

text \<open>
  The names of the files that the directory of a completed item holds: in the version
  with the semaphore a metadata file for each non-empty field, in \<open>xkcd.go\<close> both
  metadata files, and in both the asset when the image URL ends in a file name.
\<close>

definition expectedFiles :: "string \<Rightarrow> Comic \<Rightarrow> string list" where
  "expectedFiles item c =
     (if Alt c \<noteq> [] then [item @ ''-alt''] else [])
     @ (if Transcript c \<noteq> [] then [item @ ''-transcript''] else [])
     @ (if imgName c \<noteq> [] then [imgName c] else [])"

definition expectedFiles_xkcd :: "string \<Rightarrow> Comic \<Rightarrow> string list" where
  "expectedFiles_xkcd item c =
     [item @ ''-alt'', item @ ''-transcript'']
     @ (if imgName c \<noteq> [] then [imgName c] else [])"

text \<open>The second file system still has every name that the first one has.\<close>

definition keeps :: "fsys \<Rightarrow> fsys \<Rightarrow> bool" where
  "keeps fs fs' = (\<forall>p. fs p \<noteq> None \<longrightarrow> fs' p \<noteq> None)"

text \<open>
  A call that fails in the file system at hand and in every file system that keeps
  its names: a call hit by a fault of the environment, and \<open>os.Mkdir\<close> of a name that
  is taken.
\<close>

definition stuck :: "env \<Rightarrow> fsys \<Rightarrow> fsop \<Rightarrow> bool" where
  "stuck e fs x =
     (case x of
        OpMkdir p \<Rightarrow> mkdirFault e p \<or> fs (dirName p) \<noteq> None
      | OpCreate p \<Rightarrow> createFault e p
      | OpWriteString p s \<Rightarrow> writeFault e p
      | OpCopy p body \<Rightarrow> copyFault e p)"

text \<open>
  The scheduler that lets the calls happen in a given order when that order is an
  interleaving of the goroutines, and runs the goroutines one after the other
  otherwise.
\<close>

definition followSched :: "fsop list \<Rightarrow> fsop list list \<Rightarrow> fsop list" where
  "followSched sch xss = (if sch \<in> interleavings xss then sch else concat xss)"

text \<open>
  A catalog of two comics on a disk that refuses to write the alt file of comic 1
  below \<open>db/\<close> and to copy its image below \<open>./xkcdDB/\<close>, with an order of the calls for
  either version in which the two goroutines alternate.
\<close>

definition comic2 :: Comic where
  "comic2 = \<lparr>Num = 2, Img = ''https://imgs.xkcd.com/comics/'', Transcript = [], Alt = ''B''\<rparr>"

definition pairEnv :: env where
  "pairEnv = quietEnv\<lparr>
     writeFault := (\<lambda>p. p = ''db/1/1-alt''),
     copyFault := (\<lambda>p. p = ''./xkcdDB/1/a.png''),
     httpGet := (\<lambda>url.
       if url = ''https://xkcd.com/info.0.json'' then Some ''c2''
       else if url = ''https://xkcd.com/1/info.0.json'' then Some ''c1''
       else if url = ''https://xkcd.com/2/info.0.json'' then Some ''c2''
       else if url = ''https://imgs.xkcd.com/a.png'' then Some ''PNG''
       else if url = ''https://imgs.xkcd.com/comics/'' then Some ''page''
       else None),
     jsonDecode := (\<lambda>body.
       if body = ''c1'' then Some comic1
       else if body = ''c2'' then Some comic2
       else None)\<rparr>"

definition pairOrder :: "fsop list" where
  "pairOrder =
     [OpMkdir ''db/2/'', OpMkdir ''db/1/'', OpCreate ''db/2/2-alt'', OpCreate ''db/1/1-alt'',
      OpWriteString ''db/1/1-alt'' ''A'', OpWriteString ''db/2/2-alt'' ''B'',
      OpCreate ''db/1/a.png'', OpCopy ''db/1/a.png'' ''PNG'']"

definition pairOrder_xkcd :: "fsop list" where
  "pairOrder_xkcd =
     [OpMkdir ''./xkcdDB/1/'', OpCreate ''./xkcdDB/1/1-alt'',
      OpWriteString ''./xkcdDB/1/1-alt'' ''A'', OpMkdir ''./xkcdDB/2/'',
      OpCreate ''./xkcdDB/1/1-transcript'', OpWriteString ''./xkcdDB/1/1-transcript'' [],
      OpCreate ''./xkcdDB/2/2-alt'', OpCreate ''./xkcdDB/1/a.png'',
      OpCopy ''./xkcdDB/1/a.png'' ''PNG'', OpWriteString ''./xkcdDB/2/2-alt'' ''B'',
      OpCreate ''./xkcdDB/2/2-transcript'', OpWriteString ''./xkcdDB/2/2-transcript'' []]"

section \<open>Properties of the decimal rendering\<close>

lemma lt10_cases:
  "d < (10::nat) \<Longrightarrow>
     d = 0 \<or> d = 1 \<or> d = 2 \<or> d = 3 \<or> d = 4 \<or> d = 5 \<or> d = 6 \<or> d = 7 \<or> d = 8 \<or> d = 9"
  by arith

lemma digitVal_digitChar: "d < 10 \<Longrightarrow> digitVal (digitChar d) = d"
  by (drule lt10_cases) (auto simp: digitVal_def digitChar_def)

lemma digitChar_not_minus: "d < 10 \<Longrightarrow> digitChar d \<noteq> CHR ''-''"
  by (drule lt10_cases) (auto simp: digitChar_def)

lemma parseDigits_snoc: "parseDigits (s @ [c]) = 10 * parseDigits s + digitVal c"
  by (simp add: parseDigits_def)

lemma parseDigits_formatDigits: "parseDigits (formatDigits n) = n"
proof (induction n rule: formatDigits.induct)
  case (1 n)
  show ?case
  proof (cases "n < 10")
    case True
    then show ?thesis
      by (subst formatDigits.simps) (simp add: parseDigits_def digitVal_digitChar)
  next
    case False
    with 1 have "parseDigits (formatDigits (n div 10)) = n div 10" by simp
    with False show ?thesis
      by (subst formatDigits.simps) (simp add: parseDigits_snoc digitVal_digitChar)
  qed
qed

lemma formatDigits_nonempty: "formatDigits n \<noteq> []"
  by (subst formatDigits.simps) simp

lemma hd_formatDigits_not_minus: "hd (formatDigits n) \<noteq> CHR ''-''"
proof (induction n rule: formatDigits.induct)
  case (1 n)
  show ?case
  proof (cases "n < 10")
    case True
    then show ?thesis
      by (subst formatDigits.simps) (simp add: digitChar_not_minus)
  next
    case False
    with 1 have "hd (formatDigits (n div 10)) \<noteq> CHR ''-''" by simp
    with False show ?thesis
      by (subst formatDigits.simps) (simp add: formatDigits_nonempty)
  qed
qed

lemma Atoi_Itoa: "Atoi (Itoa i) = i"
proof (cases "i < 0")
  case True
  then show ?thesis
    by (simp add: Atoi_def Itoa_def parseDigits_formatDigits)
next
  case False
  obtain c cs where eq: "formatDigits (nat i) = c # cs"
    using formatDigits_nonempty [of "nat i"] by (cases "formatDigits (nat i)") auto
  with hd_formatDigits_not_minus [of "nat i"] have "c \<noteq> CHR ''-''" by simp
  moreover have "parseDigits (c # cs) = nat i"
    using parseDigits_formatDigits [of "nat i"] eq by simp
  ultimately show ?thesis
    using False eq by (simp add: Atoi_def Itoa_def)
qed

lemma inj_Itoa: "inj Itoa"
  by (rule inj_on_inverseI [where g = Atoi]) (rule Atoi_Itoa)

lemma Itoa_eq_iff: "Itoa i = Itoa j \<longleftrightarrow> i = j"
  using inj_Itoa by (auto dest: injD)

lemma no_slash_digitChar: "d < 10 \<Longrightarrow> digitChar d \<noteq> CHR ''/''"
  by (drule lt10_cases) (auto simp: digitChar_def)

lemma last_formatDigits: "last (formatDigits n) = digitChar (n mod 10)"
  by (subst formatDigits.simps) simp

lemma Itoa_nonempty: "Itoa i \<noteq> []"
  by (simp add: Itoa_def formatDigits_nonempty)

lemma last_Itoa_not_slash: "last (Itoa i) \<noteq> CHR ''/''"
  by (simp add: Itoa_def formatDigits_nonempty last_formatDigits no_slash_digitChar)

section \<open>The scan as a filter\<close>

lemma missingComics_loop_eq:
  "missingComics_loop e fs dbPath numComics i dlList =
     dlList @ map Itoa (filter (\<lambda>k. k \<noteq> 404 \<and> IsNotExist (Stat e fs (dbPath @ Itoa k)))
                          [i..numComics])"
proof (induction e fs dbPath numComics i dlList rule: missingComics_loop.induct)
  case (1 e fs dbPath numComics i dlList)
  show ?case
  proof (cases "i \<le> numComics")
    case False
    then show ?thesis
      by (subst missingComics_loop.simps) simp
  next
    case True
    then have up: "[i..numComics] = i # [i + 1..numComics]"
      by (simp add: upto_rec1)
    show ?thesis
    proof (cases "i = 404")
      case True
      with \<open>i \<le> numComics\<close> 1(1) up show ?thesis
        by (subst missingComics_loop.simps) simp
    next
      case False
      with \<open>i \<le> numComics\<close> 1(2,3) up show ?thesis
        by (subst missingComics_loop.simps) (simp add: Let_def)
    qed
  qed
qed

lemma makesliceOK_no_wrap: "makesliceOK e n \<Longrightarrow> 0 \<le> n \<and> n + 1 < 2 ^ 63"
  by (simp add: makesliceOK_def)

lemma makesliceOK_quiet: "makesliceOK quietEnv n = (0 \<le> n \<and> 16 * n \<le> 2 ^ 48)"
  by (auto simp: makesliceOK_def quietEnv_def)

lemma missingComics_eq:
  "makesliceOK e N \<Longrightarrow>
   missingComics e fs N dbPath = Inr (map Itoa (missingIndices e fs dbPath N))"
  by (simp add: missingComics_def missingComics_loop_eq missingIndices_def)

lemma missingComics_panic:
  "\<not> makesliceOK e N \<Longrightarrow> missingComics e fs N dbPath = Inl MakesliceCap"
  by (simp add: missingComics_def)

lemma Itoa_mem_map: "Itoa i \<in> set (map Itoa xs) \<longleftrightarrow> i \<in> set xs"
  by (auto simp: Itoa_eq_iff)

lemma sorted_missingIndices: "sorted_wrt (<) (missingIndices e fs dbPath N)"
  unfolding missingIndices_def
  by (rule sorted_wrt_filter) (rule sorted_wrt_upto)

lemma set_missingIndices:
  "i \<in> set (missingIndices e fs dbPath N) \<longleftrightarrow>
     1 \<le> i \<and> i \<le> N \<and> i \<noteq> 404 \<and> IsNotExist (Stat e fs (dbPath @ Itoa i))"
  by (auto simp: missingIndices_def)

lemma Itoa_1: "Itoa 1 = ''1''"
  by (simp add: Itoa_def formatDigits.simps digitChar_def)

lemma Itoa_2: "Itoa 2 = ''2''"
  by (simp add: Itoa_def formatDigits.simps digitChar_def)

lemma Itoa_3: "Itoa 3 = ''3''"
  by (simp add: Itoa_def formatDigits.simps digitChar_def)

lemma upto_1_3: "[1..3::int] = [1, 2, 3]"
  by (simp add: upto.simps)

lemma upto_1_2: "[1..2::int] = [1, 2]"
  by (simp add: upto.simps)

lemma dirName_Itoa: "dirName (dbPath @ Itoa i) = dbPath @ Itoa i"
  by (simp add: dirName_def Itoa_nonempty last_Itoa_not_slash)

section \<open>The archive scanner\<close>

text \<open>
  Claim C1, amended. For every upper bound \<open>N \<ge> 1\<close> whose slice the runtime allocates
  (\<open>16 * N\<close> bytes within the 64-bit word and the limit of the allocator) and every state
  of the archive, \<open>missingComics\<close> returns (without panic) exactly the indices of
  \<open>[1, N]\<close> other than 404 whose existence check under the archive root fails with the
  not-exist error (\<open>os.IsNotExist\<close> of the error of \<open>os.Stat\<close>), rendered as decimal
  strings, in increasing order of the index. Index 404 is never in the result, and the
  result is the empty list when no check reports not-exist. Where the check itself
  does not fail, it reports not-exist exactly when no entry, directory or file, has the
  name of the index. The loop counter stays below \<open>2 ^ 63\<close>. For an upper bound that
  the allocation refuses, \<open>missingComics\<close> panics and returns nothing. The version of
  \<open>xkcd.go\<close> is the instance for the constant archive path.
\<close>

theorem missingComics_correct:
  assumes "1 \<le> N" and "makesliceOK e N"
  shows "missingComics e fs N dbPath = Inr (map Itoa (missingIndices e fs dbPath N))
       \<and> missingComics_xkcd e fs N = Inr (map Itoa (missingIndices e fs dbPath_const N))
       \<and> (\<forall>i. Itoa i \<in> set (map Itoa (missingIndices e fs dbPath N)) \<longleftrightarrow>
                1 \<le> i \<and> i \<le> N \<and> i \<noteq> 404 \<and> IsNotExist (Stat e fs (dbPath @ Itoa i)))
       \<and> sorted_wrt (<) (missingIndices e fs dbPath N)
       \<and> Itoa 404 \<notin> set (map Itoa (missingIndices e fs dbPath N))
       \<and> ((\<forall>i\<in>{1..N}. i \<noteq> 404 \<longrightarrow> \<not> IsNotExist (Stat e fs (dbPath @ Itoa i)))
            \<longrightarrow> missingComics e fs N dbPath = Inr [])
       \<and> (\<forall>i. \<not> statFault e (dbPath @ Itoa i) \<longrightarrow>
              IsNotExist (Stat e fs (dbPath @ Itoa i)) = (fs (dbPath @ Itoa i) = None))
       \<and> N + 1 < 2 ^ 63
       \<and> (\<not> makesliceOK e M \<longrightarrow>
              missingComics e fs M dbPath = Inl MakesliceCap
            \<and> missingComics_xkcd e fs M = Inl MakesliceCap)"
proof -
  note N = assms(2)
  have plain: "\<forall>i. \<not> statFault e (dbPath @ Itoa i) \<longrightarrow>
              IsNotExist (Stat e fs (dbPath @ Itoa i)) = (fs (dbPath @ Itoa i) = None)"
    by (simp add: IsNotExist_def Stat_def dirName_Itoa split: option.splits)
  have eq: "missingComics e fs N dbPath = Inr (map Itoa (missingIndices e fs dbPath N))"
    using N by (rule missingComics_eq)
  have eqx: "missingComics_xkcd e fs N = Inr (map Itoa (missingIndices e fs dbPath_const N))"
    using N by (simp add: missingComics_xkcd_def missingComics_eq)
  have mem: "\<forall>i. Itoa i \<in> set (map Itoa (missingIndices e fs dbPath N)) \<longleftrightarrow>
                1 \<le> i \<and> i \<le> N \<and> i \<noteq> 404 \<and> IsNotExist (Stat e fs (dbPath @ Itoa i))"
    by (simp only: Itoa_mem_map set_missingIndices) simp
  have gap: "Itoa 404 \<notin> set (map Itoa (missingIndices e fs dbPath N))"
    by (simp only: Itoa_mem_map set_missingIndices) simp
  have none: "(\<forall>i\<in>{1..N}. i \<noteq> 404 \<longrightarrow> \<not> IsNotExist (Stat e fs (dbPath @ Itoa i)))
            \<longrightarrow> missingComics e fs N dbPath = Inr []"
  proof
    assume "\<forall>i\<in>{1..N}. i \<noteq> 404 \<longrightarrow> \<not> IsNotExist (Stat e fs (dbPath @ Itoa i))"
    then have "missingIndices e fs dbPath N = []"
      by (auto simp: missingIndices_def filter_empty_conv)
    with eq show "missingComics e fs N dbPath = Inr []" by simp
  qed
  have wrap: "N + 1 < 2 ^ 63"
    using makesliceOK_no_wrap [OF N] by simp
  have big: "\<not> makesliceOK e M \<longrightarrow>
              missingComics e fs M dbPath = Inl MakesliceCap
            \<and> missingComics_xkcd e fs M = Inl MakesliceCap"
    by (simp add: missingComics_xkcd_def missingComics_panic)
  from eq eqx mem sorted_missingIndices gap none plain wrap big show ?thesis
    by (intro conjI)
qed

theorem missingComics_correct_witness:
  "(1::int) \<le> 3 \<and> makesliceOK quietEnv 3
   \<and> missingComics quietEnv (Map.empty(''db/2'' \<mapsto> Dir)) 3 ''db/'' = Inr [''1'', ''3'']
   \<and> (1::int) \<le> 2 \<and> makesliceOK quietEnv 2
   \<and> missingComics quietEnv (Map.empty(''db/1'' \<mapsto> Dir, ''db/2'' \<mapsto> File ''x'')) 2 ''db/''
       = Inr []
   \<and> \<not> statFault quietEnv (''db/'' @ Itoa 2)
   \<and> \<not> IsNotExist (Stat quietEnv (Map.empty(''db/2'' \<mapsto> Dir)) (''db/'' @ Itoa 2))
   \<and> \<not> makesliceOK quietEnv (2 ^ 62)
   \<and> missingComics quietEnv Map.empty (2 ^ 62) ''db/'' = Inl MakesliceCap"
proof -
  have h3: "(1::int) \<le> 3" and h2: "(1::int) \<le> 2" by simp_all
  have k3: "makesliceOK quietEnv 3" and k2: "makesliceOK quietEnv 2"
    and kb: "\<not> makesliceOK quietEnv (2 ^ 62)"
    by (simp_all add: makesliceOK_quiet)
  have f: "\<not> statFault quietEnv (''db/'' @ Itoa 2)" by (simp add: quietEnv_def)
  note T3 = missingComics_correct [OF h3 k3, of "Map.empty(''db/2'' \<mapsto> Dir)" "''db/''" "2 ^ 62"]
  note T2 = missingComics_correct [OF h2 k2,
      of "Map.empty(''db/1'' \<mapsto> Dir, ''db/2'' \<mapsto> File ''x'')" "''db/''"]
  have "\<forall>i. \<not> statFault quietEnv (''db/'' @ Itoa i) \<longrightarrow>
          IsNotExist (Stat quietEnv (Map.empty(''db/2'' \<mapsto> Dir)) (''db/'' @ Itoa i)) =
          ((Map.empty(''db/2'' \<mapsto> Dir)) (''db/'' @ Itoa i) = None)"
    using T3 by blast
  with f have "IsNotExist (Stat quietEnv (Map.empty(''db/2'' \<mapsto> Dir)) (''db/'' @ Itoa 2)) =
          ((Map.empty(''db/2'' \<mapsto> Dir)) (''db/'' @ Itoa 2) = None)"
    by blast
  then have g: "\<not> IsNotExist (Stat quietEnv (Map.empty(''db/2'' \<mapsto> Dir)) (''db/'' @ Itoa 2))"
    by (simp add: Itoa_2)
  have a: "missingIndices quietEnv (Map.empty(''db/2'' \<mapsto> Dir)) ''db/'' 3 = [1, 3]"
    by (simp add: missingIndices_def upto_1_3 Itoa_1 Itoa_2 Itoa_3 Stat_def IsNotExist_def
        quietEnv_def dirName_def)
  have b: "\<forall>i\<in>{1..2::int}. i \<noteq> 404 \<longrightarrow> \<not> IsNotExist
        (Stat quietEnv (Map.empty(''db/1'' \<mapsto> Dir, ''db/2'' \<mapsto> File ''x'')) (''db/'' @ Itoa i))"
  proof
    fix i :: int assume "i \<in> {1..2}"
    then have "i = 1 \<or> i = 2" by auto
    then show "i \<noteq> 404 \<longrightarrow> \<not> IsNotExist
        (Stat quietEnv (Map.empty(''db/1'' \<mapsto> Dir, ''db/2'' \<mapsto> File ''x'')) (''db/'' @ Itoa i))"
      by (auto simp: Itoa_1 Itoa_2 Stat_def IsNotExist_def quietEnv_def dirName_def)
  qed
  have "missingComics quietEnv (Map.empty(''db/2'' \<mapsto> Dir)) 3 ''db/''
          = Inr (map Itoa (missingIndices quietEnv (Map.empty(''db/2'' \<mapsto> Dir)) ''db/'' 3))"
    using T3 by (rule conjunct1)
  then have c: "missingComics quietEnv (Map.empty(''db/2'' \<mapsto> Dir)) 3 ''db/''
                  = Inr [''1'', ''3'']"
    by (simp add: a Itoa_1 Itoa_3)
  have d: "missingComics quietEnv (Map.empty(''db/1'' \<mapsto> Dir, ''db/2'' \<mapsto> File ''x'')) 2 ''db/''
             = Inr []"
    using T2 b by blast
  have p: "missingComics quietEnv Map.empty (2 ^ 62) ''db/'' = Inl MakesliceCap"
    using missingComics_correct [OF h3 k3, of Map.empty "''db/''" "2 ^ 62"] kb by blast
  from h3 k3 c h2 k2 d f g kb p show ?thesis by (intro conjI)
qed

text \<open>
  The claim as stated fails in three ways. When the check of \<open>db/2\<close> is refused, index 2
  is not listed although nothing of that name exists; when the name \<open>db/1\<close> is taken by
  a regular file, index 1 is not listed although there is no such subdirectory; and
  for the upper bound \<open>2 ^ 62\<close> the allocation of the slice panics, so that nothing is
  returned.
\<close>

theorem missingComics_correct_counterexample:
  "(1::int) \<le> 2 \<and> (2::int) \<le> 3 \<and> (2::int) \<noteq> 404
   \<and> (Map.empty :: fsys) (''db/'' @ Itoa 2) = None
   \<and> missingComics deniedEnv Map.empty 3 ''db/'' = Inr [''1'', ''3'']
   \<and> Itoa 2 \<notin> set [''1'', ''3'']
   \<and> (Map.empty(''db/1'' \<mapsto> File ''x'')) (''db/'' @ Itoa 1) \<noteq> Some Dir
   \<and> missingComics quietEnv (Map.empty(''db/1'' \<mapsto> File ''x'')) 1 ''db/'' = Inr []
   \<and> (1::int) \<le> 2 ^ 62
   \<and> missingComics quietEnv Map.empty (2 ^ 62) ''db/'' = Inl MakesliceCap
   \<and> missingComics_xkcd quietEnv Map.empty (2 ^ 62) = Inl MakesliceCap"
proof -
  have k: "makesliceOK deniedEnv 3" "makesliceOK quietEnv 1" "\<not> makesliceOK quietEnv (2 ^ 62)"
    by (simp_all add: makesliceOK_def deniedEnv_def quietEnv_def)
  have a: "missingComics deniedEnv Map.empty 3 ''db/'' = Inr [''1'', ''3'']"
    unfolding missingComics_eq [OF k(1)]
    by (simp add: missingIndices_def upto_1_3 Itoa_1 Itoa_2 Itoa_3 Stat_def
        IsNotExist_def deniedEnv_def quietEnv_def dirName_def)
  have b: "missingComics quietEnv (Map.empty(''db/1'' \<mapsto> File ''x'')) 1 ''db/'' = Inr []"
    unfolding missingComics_eq [OF k(2)]
    by (simp add: missingIndices_def upto.simps Itoa_1 Stat_def
        IsNotExist_def quietEnv_def dirName_def)
  have c: "missingComics quietEnv Map.empty (2 ^ 62) ''db/'' = Inl MakesliceCap"
    and d: "missingComics_xkcd quietEnv Map.empty (2 ^ 62) = Inl MakesliceCap"
    using k(3) by (simp_all add: missingComics_xkcd_def missingComics_panic)
  have e1: "(1::int) \<le> 2" and e2: "(2::int) \<le> 3" and e3: "(2::int) \<noteq> 404"
    and e4: "(1::int) \<le> 2 ^ 62" by simp_all
  have g: "(Map.empty :: fsys) (''db/'' @ Itoa 2) = None" by simp
  have h: "Itoa 2 \<notin> set [''1'', ''3'']" by (simp add: Itoa_2)
  have j: "(Map.empty(''db/1'' \<mapsto> File ''x'')) (''db/'' @ Itoa 1) \<noteq> Some Dir"
    by (simp add: Itoa_1)
  from e1 e2 e3 g a h j b e4 c d show ?thesis
    by (intro conjI)
qed

text \<open>Replacing a failed check by a present entry leaves the scan unchanged.\<close>

lemma missingIndices_fault_as_present:
  assumes "statFault e (dbPath @ Itoa i)"
  shows "missingIndices e fs dbPath N =
         missingIndices (e\<lparr>statFault := (statFault e)(dbPath @ Itoa i := False)\<rparr>)
           (fs(dbPath @ Itoa i \<mapsto> Dir)) dbPath N"
  unfolding missingIndices_def
proof (rule filter_cong [OF refl])
  fix k
  show "(k \<noteq> 404 \<and> IsNotExist (Stat e fs (dbPath @ Itoa k))) =
        (k \<noteq> 404 \<and> IsNotExist (Stat (e\<lparr>statFault := (statFault e)(dbPath @ Itoa i := False)\<rparr>)
           (fs(dbPath @ Itoa i \<mapsto> Dir)) (dbPath @ Itoa k)))"
    using assms by (cases "k = i") (simp_all add: Stat_def IsNotExist_def dirName_Itoa Itoa_eq_iff)
qed

section \<open>Classification of the existence check\<close>

text \<open>
  Claim C10. For an upper bound whose slice the runtime allocates, \<open>missingComics\<close>
  lists an index only when its existence check fails with the not-exist error. An index whose check fails for another reason is left out of
  the missing set, so it is never handed to \<open>getComic\<close>; the scan returns the very
  list it returns when that entry is present and the check succeeds, and it has no
  error result through which the failure could be reported.
\<close>

theorem stat_error_is_presence:
  assumes "makesliceOK e N"
  shows "(\<exists>missing. missingComics e fs N dbPath = Inr missing
            \<and> (Itoa i \<in> set missing \<longrightarrow> Stat e fs (dbPath @ Itoa i) = Some ErrNotExist)
            \<and> (Stat e fs (dbPath @ Itoa i) = Some ErrOther \<longrightarrow> Itoa i \<notin> set missing))
       \<and> (statFault e (dbPath @ Itoa i) \<longrightarrow>
            Stat e fs (dbPath @ Itoa i) = Some ErrOther
            \<and> missingComics e fs N dbPath =
                missingComics (e\<lparr>statFault := (statFault e)(dbPath @ Itoa i := False)\<rparr>)
                  (fs(dbPath @ Itoa i \<mapsto> Dir)) N dbPath)"
proof -
  let ?e' = "e\<lparr>statFault := (statFault e)(dbPath @ Itoa i := False)\<rparr>"
  have ok': "makesliceOK ?e' N"
    using assms by (simp add: makesliceOK_def)
  have eq: "\<And>fs. missingComics e fs N dbPath = Inr (map Itoa (missingIndices e fs dbPath N))"
    using assms by (rule missingComics_eq)
  have eq': "\<And>fs. missingComics ?e' fs N dbPath = Inr (map Itoa (missingIndices ?e' fs dbPath N))"
    using ok' by (rule missingComics_eq)
  have 1: "Itoa i \<in> set (map Itoa (missingIndices e fs dbPath N))
             \<longrightarrow> Stat e fs (dbPath @ Itoa i) = Some ErrNotExist"
    by (simp only: Itoa_mem_map set_missingIndices) (simp add: IsNotExist_def)
  have 2: "Stat e fs (dbPath @ Itoa i) = Some ErrOther
             \<longrightarrow> Itoa i \<notin> set (map Itoa (missingIndices e fs dbPath N))"
    by (simp only: Itoa_mem_map set_missingIndices) (simp add: IsNotExist_def)
  have 3: "statFault e (dbPath @ Itoa i) \<longrightarrow>
            Stat e fs (dbPath @ Itoa i) = Some ErrOther
            \<and> missingComics e fs N dbPath =
                missingComics (e\<lparr>statFault := (statFault e)(dbPath @ Itoa i := False)\<rparr>)
                  (fs(dbPath @ Itoa i \<mapsto> Dir)) N dbPath"
  proof
    assume f: "statFault e (dbPath @ Itoa i)"
    then have "Stat e fs (dbPath @ Itoa i) = Some ErrOther"
      by (simp add: Stat_def)
    moreover from missingIndices_fault_as_present [OF f]
    have "missingComics e fs N dbPath =
                missingComics (e\<lparr>statFault := (statFault e)(dbPath @ Itoa i := False)\<rparr>)
                  (fs(dbPath @ Itoa i \<mapsto> Dir)) N dbPath"
      by (simp only: eq eq')
    ultimately show "Stat e fs (dbPath @ Itoa i) = Some ErrOther
            \<and> missingComics e fs N dbPath =
                missingComics (e\<lparr>statFault := (statFault e)(dbPath @ Itoa i := False)\<rparr>)
                  (fs(dbPath @ Itoa i \<mapsto> Dir)) N dbPath" by simp
  qed
  from eq 1 2 3 show ?thesis by simp
qed

theorem stat_error_is_presence_witness:
  "makesliceOK deniedEnv 3
   \<and> statFault deniedEnv (''db/'' @ Itoa 2)
   \<and> Stat deniedEnv Map.empty (''db/'' @ Itoa 2) = Some ErrOther
   \<and> missingComics deniedEnv Map.empty 3 ''db/'' = Inr [''1'', ''3'']
   \<and> Itoa 1 \<in> set [''1'', ''3'']
   \<and> Itoa 2 \<notin> set [''1'', ''3'']
   \<and> Stat deniedEnv Map.empty (''db/'' @ Itoa 1) = Some ErrNotExist"
proof -
  have h: "makesliceOK deniedEnv 3"
    by (simp add: makesliceOK_def deniedEnv_def quietEnv_def)
  have f: "statFault deniedEnv (''db/'' @ Itoa 2)"
    by (simp add: deniedEnv_def quietEnv_def Itoa_2)
  have m: "missingComics deniedEnv Map.empty 3 ''db/'' = Inr [''1'', ''3'']"
    unfolding missingComics_eq [OF h]
    by (simp add: missingIndices_def upto_1_3 Itoa_1 Itoa_2 Itoa_3 Stat_def
        IsNotExist_def deniedEnv_def quietEnv_def dirName_def)
  from stat_error_is_presence [OF h, where fs = Map.empty and dbPath = "''db/''" and i = 2] f
  have s: "Stat deniedEnv Map.empty (''db/'' @ Itoa 2) = Some ErrOther" by blast
  from stat_error_is_presence [OF h, where fs = Map.empty and dbPath = "''db/''" and i = 1] m
  have t: "Stat deniedEnv Map.empty (''db/'' @ Itoa 1) = Some ErrNotExist"
    by (simp add: Itoa_1)
  from h f s m t show ?thesis by (simp add: Itoa_1 Itoa_2)
qed

section \<open>splitSlice computes the chunks\<close>

lemma slice_block:
  assumes "1 \<le> B" "0 \<le> k" "(k + 1) * B \<le> int (length xs)"
  shows "slice xs (k * B) (k * B + B) = Inr (blockAt xs B k)"
proof -
  from assms have "0 \<le> k * B" by simp
  moreover from assms have "k * B + B \<le> int (length xs)" by (simp add: algebra_simps)
  ultimately show ?thesis using assms by (simp add: slice_def blockAt_def)
qed

lemma splitSlice_loop_eq:
  "1 \<le> B \<Longrightarrow> 0 \<le> block \<Longrightarrow> n * B \<le> int (length xs) \<Longrightarrow>
   splitSlice_loop xs B n block out = Inr (out @ map (blockAt xs B) [block..n - 1])"
proof (induction xs B n block out rule: splitSlice_loop.induct)
  case (1 input blockSize nFullBlocks block out)
  show ?case
  proof (cases "block < nFullBlocks")
    case False
    then show ?thesis by (subst splitSlice_loop.simps) simp
  next
    case True
    then have "(block + 1) * blockSize \<le> nFullBlocks * blockSize"
      using "1.prems"(1) by (intro mult_right_mono) simp_all
    with "1.prems" have le: "(block + 1) * blockSize \<le> int (length input)" by linarith
    have sl: "slice input (block * blockSize) (block * blockSize + blockSize)
                = Inr (blockAt input blockSize block)"
      using "1.prems"(1,2) le by (rule slice_block)
    have up: "[block..nFullBlocks - 1] = block # [block + 1..nFullBlocks - 1]"
      using True by (simp add: upto_rec1)
    have IH: "splitSlice_loop input blockSize nFullBlocks (block + 1)
                 (out @ [blockAt input blockSize block])
              = Inr ((out @ [blockAt input blockSize block])
                       @ map (blockAt input blockSize) [block + 1..nFullBlocks - 1])"
      using "1.IH" [OF True refl sl] "1.prems" by simp
    show ?thesis
      by (subst splitSlice_loop.simps) (simp add: True sl IH up Let_def)
  qed
qed

lemma go_quo_pos: "0 \<le> a \<Longrightarrow> 0 < b \<Longrightarrow> go_quo a b = a div b"
  by (cases "a = 0") (simp_all add: go_quo_def)

lemma go_rem_pos: "0 \<le> a \<Longrightarrow> 0 < b \<Longrightarrow> go_rem a b = a mod b"
  by (cases "a = 0") (simp_all add: go_rem_def)

lemma splitSlice_eq:
  assumes "1 \<le> B"
  shows "splitSlice xs B = Inr (chunksSpec xs B)"
proof -
  let ?L = "int (length xs)"
  have q: "go_quo ?L B = ?L div B" and r: "go_rem ?L B = ?L mod B"
    using assms by (simp_all add: go_quo_pos go_rem_pos)
  have n0: "0 \<le> ?L div B" using assms by (simp add: pos_imp_zdiv_nonneg_iff)
  have nB: "?L div B * B \<le> ?L"
    using assms by (metis div_mult_mod_eq le_add_same_cancel1 Euclidean_Rings.pos_mod_sign less_le_trans zero_less_one)  
  have loop: "splitSlice_loop xs B (?L div B) 0 [] = Inr (map (blockAt xs B) [0..?L div B - 1])"
    using splitSlice_loop_eq [OF assms, of 0 "?L div B" xs "[]"] nB by simp
  have nB0: "0 \<le> ?L div B * B" using assms n0 by simp
  have "?L mod B = ?L - ?L div B * B"
    by (simp add: minus_div_mult_eq_mod)
  then have len: "nat (?L mod B) = length xs - nat (?L div B * B)"
    using nB nB0 by (simp add: nat_diff_distrib)
  have sl: "slice xs (?L div B * B) ?L = Inr (drop (nat (?L div B * B)) xs)"
    using nB0 nB len by (simp add: slice_def minus_div_mult_eq_mod)
  show ?thesis
    using assms n0 by (simp add: splitSlice_def q r loop sl chunksSpec_def Let_def)
qed



lemma concat_blocks:
  assumes "1 \<le> B" "0 \<le> n"
  shows "concat (map (blockAt xs B) [0..n - 1]) = take (nat (n * B)) xs"
  using assms(2)
proof (induction n rule: int_ge_induct)
  case base
  show ?case by simp
next
  case (step i)
  have up: "[0..i + 1 - 1] = [0..i - 1] @ [i]"
    using step.hyps by (simp add: upto_rec2)
  have "nat ((i + 1) * B) = nat (i * B) + nat B"
    using step.hyps assms(1) by (simp add: algebra_simps nat_add_distrib)
  then show ?case
    by (simp only: up map_append concat_append step.IH) (simp add: blockAt_def take_add)
qed

lemma div_mult_le_int: "1 \<le> B \<Longrightarrow> (L::int) div B * B \<le> L"
  by (metis div_mult_mod_eq le_add_same_cancel1 Euclidean_Rings.pos_mod_sign less_le_trans zero_less_one)

lemma concat_chunksSpec:
  assumes "1 \<le> B"
  shows "concat (chunksSpec xs B) = xs"
proof -
  let ?L = "int (length xs)"
  have n0: "0 \<le> ?L div B" using assms by (simp add: pos_imp_zdiv_nonneg_iff)
  have c: "concat (map (blockAt xs B) [0..?L div B - 1]) = take (nat (?L div B * B)) xs"
    using assms n0 by (rule concat_blocks)
  show ?thesis
  proof (cases "?L mod B = 0")
    case True
    then have "?L div B * B = ?L" by (simp add: mod_eq_0_iff_dvd)
    with True c show ?thesis by (simp add: chunksSpec_def)
  next
    case False
    with c show ?thesis by (simp add: chunksSpec_def)
  qed
qed

lemma length_chunksSpec:
  assumes "1 \<le> B"
  shows "int (length (chunksSpec xs B)) = \<lceil>real (length xs) / real_of_int B\<rceil>"
proof -
  let ?L = "int (length xs)"
  have n0: "0 \<le> ?L div B" using assms by (simp add: pos_imp_zdiv_nonneg_iff)
  have "\<lceil>real (length xs) / real_of_int B\<rceil> = - (- ?L div B)"
    using ceiling_divide_eq_div [of ?L B] by simp
  also have "\<dots> = ?L div B + (if ?L mod B \<noteq> 0 then 1 else 0)"
    using assms by (simp add: zdiv_zminus1_eq_if)
  finally show ?thesis
    using n0 by (simp add: chunksSpec_def)
qed

lemma length_blockAt:
  assumes "1 \<le> B" "0 \<le> k" "(k + 1) * B \<le> int (length xs)"
  shows "int (length (blockAt xs B k)) = B"
proof -
  from assms have "0 \<le> k * B" by simp
  moreover from assms have "k * B + B \<le> int (length xs)" by (simp add: algebra_simps)
  ultimately show ?thesis using assms(1) by (simp add: blockAt_def)
qed

lemma nth_chunksSpec:
  assumes "1 \<le> B" "k < length (chunksSpec xs B)"
  shows "int (length (chunksSpec xs B ! k)) =
           (if Suc k = length (chunksSpec xs B) \<and> int (length xs) mod B \<noteq> 0
            then int (length xs) mod B else B)"
proof -
  let ?L = "int (length xs)"
  let ?n = "?L div B"
  have n0: "0 \<le> ?n" using assms by (simp add: pos_imp_zdiv_nonneg_iff)
  have nB: "?n * B \<le> ?L" using assms(1) by (rule div_mult_le_int)
  have nB0: "0 \<le> ?n * B" using assms(1) n0 by simp
  have lenb: "length (map (blockAt xs B) [0..?n - 1]) = nat ?n"
    using n0 by simp
  show ?thesis
  proof (cases "k < nat ?n")
    case True
    then have kn: "int k + 1 \<le> ?n" by simp
    then have "(int k + 1) * B \<le> ?n * B"
      using assms(1) by (intro mult_right_mono) simp_all
    with nB have le: "(int k + 1) * B \<le> ?L" by linarith
    have "chunksSpec xs B ! k = map (blockAt xs B) [0..?n - 1] ! k"
      using True lenb by (simp add: chunksSpec_def nth_append)
    also have "\<dots> = blockAt xs B (int k)"
      using True kn n0 by (simp add: nth_upto)
    finally have "int (length (chunksSpec xs B ! k)) = B"
      using length_blockAt [OF assms(1) _ le] by simp
    moreover have "\<not> (Suc k = length (chunksSpec xs B) \<and> ?L mod B \<noteq> 0)"
      using True n0 by (auto simp: chunksSpec_def)
    ultimately show ?thesis by auto
  next
    case False
    with assms(2) n0 have r: "?L mod B \<noteq> 0" and k: "k = nat ?n"
      by (auto simp: chunksSpec_def split: if_splits)
    have "chunksSpec xs B ! k = drop (nat (?n * B)) xs"
      using r k lenb by (simp add: chunksSpec_def nth_append)
    moreover have "?L mod B = ?L - ?n * B" by (simp add: minus_div_mult_eq_mod)
    moreover have "Suc k = length (chunksSpec xs B)"
      using r k n0 by (simp add: chunksSpec_def)
    ultimately show ?thesis
      using r nB nB0 by (simp add: nat_diff_distrib of_nat_diff)
  qed
qed

section \<open>Batching\<close>

text \<open>
  Claim C7. For every input sequence of length \<open>L\<close> and every chunk size \<open>B \<ge> 1\<close>,
  \<open>splitSlice\<close> returns (without panic) \<open>\<lceil>L / B\<rceil>\<close> chunks whose concatenation in order is
  the input; every chunk has size \<open>B\<close>, except the last one when \<open>L mod B \<noteq> 0\<close>, whose
  size \<open>L mod B\<close> then lies in \<open>[1, B)\<close>.
\<close>

theorem splitSlice_batching:
  assumes "1 \<le> B"
  shows "\<exists>chunks. splitSlice xs B = Inr chunks
           \<and> int (length chunks) = \<lceil>real (length xs) / real_of_int B\<rceil>
           \<and> concat chunks = xs
           \<and> (\<forall>k<length chunks. int (length (chunks ! k)) =
                  (if Suc k = length chunks \<and> int (length xs) mod B \<noteq> 0
                   then int (length xs) mod B else B))
           \<and> (int (length xs) mod B \<noteq> 0 \<longrightarrow>
                  1 \<le> int (length xs) mod B \<and> int (length xs) mod B < B)"
proof -
  have "int (length xs) mod B \<noteq> 0 \<longrightarrow>
          1 \<le> int (length xs) mod B \<and> int (length xs) mod B < B"
    using assms Euclidean_Rings.pos_mod_bound [of B "int (length xs)"]
      Euclidean_Rings.pos_mod_sign [of B "int (length xs)"] by linarith
  moreover have "\<forall>k<length (chunksSpec xs B). int (length (chunksSpec xs B ! k)) =
                  (if Suc k = length (chunksSpec xs B) \<and> int (length xs) mod B \<noteq> 0
                   then int (length xs) mod B else B)"
    using nth_chunksSpec [OF assms] by blast
  ultimately show ?thesis
    using splitSlice_eq [OF assms] length_chunksSpec [OF assms] concat_chunksSpec [OF assms]
    by (intro exI [of _ "chunksSpec xs B"] conjI) assumption+
qed


theorem splitSlice_batching_witness:
  "(1::int) \<le> 2
   \<and> splitSlice [''1'', ''2'', ''3'', ''4'', ''5''] 2 = Inr [[''1'', ''2''], [''3'', ''4''], [''5'']]
   \<and> \<lceil>real (length [''1'', ''2'', ''3'', ''4'', ''5'']) / real_of_int 2\<rceil> = 3
   \<and> (1::int) \<le> 200
   \<and> (\<exists>chunks. splitSlice (map Itoa [1..205]) 200 = Inr chunks
          \<and> map length chunks = [200, 5] \<and> concat chunks = map Itoa [1..205])"
proof -
  have h2: "(1::int) \<le> 2" and h200: "(1::int) \<le> 200" by simp_all
  have ev: "splitSlice [''1'', ''2'', ''3'', ''4'', ''5''] 2
              = Inr [[''1'', ''2''], [''3'', ''4''], [''5'']]"
    by (simp add: splitSlice_def go_quo_def go_rem_def splitSlice_loop.simps slice_def Let_def)
  from splitSlice_batching [OF h2, of "[''1'', ''2'', ''3'', ''4'', ''5'']"] ev
  have ce: "\<lceil>real (length [''1'', ''2'', ''3'', ''4'', ''5'']) / real_of_int 2\<rceil> = 3"
    by auto
  from splitSlice_batching [OF h200, of "map Itoa [1..205]"]
  obtain chunks where c: "splitSlice (map Itoa [1..205]) 200 = Inr chunks"
    and l: "int (length chunks) = \<lceil>real (length (map Itoa [1..205])) / real_of_int 200\<rceil>"
    and cc: "concat chunks = map Itoa [1..205]"
    and sz: "\<forall>k<length chunks. int (length (chunks ! k)) =
                  (if Suc k = length chunks \<and> int (length (map Itoa [1..205])) mod 200 \<noteq> 0
                   then int (length (map Itoa [1..205])) mod 200 else 200)"
    by blast
  have len: "length (map Itoa [1..205]) = 205" by simp
  have "\<lceil>real (205::nat) / real_of_int 200\<rceil> = 2"
    by (simp add: ceiling_eq_iff)
  with l len have l2: "length chunks = 2" by simp
  then obtain a b where ab: "chunks = [a, b]"
    by (cases chunks; cases "tl chunks"; cases "tl (tl chunks)") auto
  from sz l2 len have "int (length (chunks ! 0)) = 200" and "int (length (chunks ! 1)) = 5"
    by auto
  with ab have ml: "map length chunks = [200, 5]" by simp
  have "\<exists>chunks. splitSlice (map Itoa [1..205]) 200 = Inr chunks
          \<and> map length chunks = [200, 5] \<and> concat chunks = map Itoa [1..205]"
    using c ml cc by (intro exI [of _ chunks] conjI)
  with h2 h200 ev ce show ?thesis by (intro conjI)
qed

section \<open>Normalisation of the archive path\<close>

lemma addTrailingSlash_idem:
  "addTrailingSlash dbPath = Inr p \<Longrightarrow> addTrailingSlash p = Inr p"
  by (auto simp: addTrailingSlash_def split: if_splits)

lemma main_normalized:
  "addTrailingSlash dbPath = Inr p \<Longrightarrow> main e rateLimit dbPath fs = main e rateLimit p fs"
  by (simp add: main_def addTrailingSlash_idem)

text \<open>
  Claim C9. The statement that adds the trailing separator reads the last byte of the
  configured path. For a non-empty path it yields the path itself when it ends in
  \<open>/\<close> and the path with one \<open>/\<close> appended otherwise, and \<open>main\<close> continues with that
  path. For the empty path the index is out of range: \<open>main\<close> panics, whatever the
  network would answer and with the file system untouched.
\<close>

theorem addTrailingSlash_total:
  "(dbPath \<noteq> [] \<longrightarrow>
      (\<exists>p. addTrailingSlash dbPath = Inr p
         \<and> p = (if last dbPath = CHR ''/'' then dbPath else dbPath @ ''/'')
         \<and> last p = CHR ''/''
         \<and> main e rateLimit dbPath fs = main e rateLimit p fs))
   \<and> addTrailingSlash [] = Inl IndexOutOfRange
   \<and> main e rateLimit [] fs = (Panic IndexOutOfRange, fs)"
proof (intro conjI impI)
  assume ne: "dbPath \<noteq> []"
  let ?p = "if last dbPath = CHR ''/'' then dbPath else dbPath @ ''/''"
  have a: "addTrailingSlash dbPath = Inr ?p"
    using ne by (simp add: addTrailingSlash_def)
  have "last ?p = CHR ''/''" by simp
  with a main_normalized [OF a, of e rateLimit fs]
  show "\<exists>p. addTrailingSlash dbPath = Inr p
         \<and> p = (if last dbPath = CHR ''/'' then dbPath else dbPath @ ''/'')
         \<and> last p = CHR ''/''
         \<and> main e rateLimit dbPath fs = main e rateLimit p fs"
    by (intro exI [of _ ?p] conjI) simp_all
next
  show "addTrailingSlash [] = Inl IndexOutOfRange"
    by (simp add: addTrailingSlash_def)
next
  show "main e rateLimit [] fs = (Panic IndexOutOfRange, fs)"
    by (simp add: main_def addTrailingSlash_def)
qed

theorem addTrailingSlash_total_witness:
  "''db'' \<noteq> [] \<and> addTrailingSlash ''db'' = Inr ''db/''
   \<and> ''db/'' \<noteq> [] \<and> addTrailingSlash ''db/'' = Inr ''db/''
   \<and> main quietEnv 20 ''db'' Map.empty = main quietEnv 20 ''db/'' Map.empty
   \<and> main quietEnv 20 [] Map.empty = (Panic IndexOutOfRange, Map.empty)"
proof -
  have n1: "''db'' \<noteq> []" and n2: "''db/'' \<noteq> []" by simp_all
  from addTrailingSlash_total [of "''db''" quietEnv 20 Map.empty] n1
  have a: "addTrailingSlash ''db'' = Inr ''db/''"
    and m: "main quietEnv 20 ''db'' Map.empty = main quietEnv 20 ''db/'' Map.empty"
    by simp_all
  from addTrailingSlash_total [of "''db/''" quietEnv 20 Map.empty] n2
  have b: "addTrailingSlash ''db/'' = Inr ''db/''" by simp
  from addTrailingSlash_total [of "''db''" quietEnv 20 Map.empty]
  have c: "main quietEnv 20 [] Map.empty = (Panic IndexOutOfRange, Map.empty)" by blast
  from n1 a n2 b m c show ?thesis by (intro conjI)
qed

section \<open>Running the goroutines\<close>

lemmas model_defs = getComic_worker_def getComic_worker_xkcd_def Get_def Mkdir_def dirName_def
  writeAlt_def writeTranscript_def writeFile_def Create_def WriteString_def Copy_def
  writeImage_def imgName_def Let_def xkcdURL_def jsonFile_def dbPath_const_def

lemma worker_stub_1:
  "getComic_worker stubEnv ''db/'' Map.empty ''1'' =
     (Completed, Map.empty(''db/1'' \<mapsto> Dir, ''db/1/1-alt'' \<mapsto> File ''A'',
                           ''db/1/a.png'' \<mapsto> File ''PNG''))"
  by (simp add: model_defs stubEnv_def quietEnv_def comic1_def)



lemma runWorkers_append:
  "runWorkers w fs (xs @ ys) =
     (case runWorkers w fs xs of
        (o1, fs1) \<Rightarrow>
          if Fatal \<in> set o1 then (o1, fs1)
          else (case runWorkers w fs1 ys of (o2, fs2) \<Rightarrow> (o1 @ o2, fs2)))"
proof (induction xs arbitrary: fs)
  case Nil
  show ?case by (simp split: prod.splits)
next
  case (Cons x xs)
  show ?case
    by (simp add: Cons.IH split: prod.splits) auto
qed

lemma runWorkers_skip:
  assumes "\<And>fs. w fs item = (out, fs)" "out \<noteq> Fatal"
  shows "runWorkers w fs (xs @ item # ys) =
     (case runWorkers w fs xs of
        (o1, fs1) \<Rightarrow>
          if Fatal \<in> set o1 then (o1, fs1)
          else (case runWorkers w fs1 ys of (o2, fs2) \<Rightarrow> (o1 @ out # o2, fs2)))"
  using assms by (simp add: runWorkers_append split: prod.splits)

lemma runWorkers_skip_fs:
  assumes "\<And>fs. w fs item = (out, fs)" "out \<noteq> Fatal"
  shows "snd (runWorkers w fs (xs @ item # ys)) = snd (runWorkers w fs (xs @ ys))"
  using assms by (simp add: runWorkers_skip runWorkers_append split: prod.splits)

lemma worker_metaFailure:
  "metaFailure e item = Some out \<Longrightarrow> getComic_worker e dbPath fs item = (out, fs)"
  by (auto simp: metaFailure_def getComic_worker_def split: option.splits)

lemma worker_xkcd_metaFailure:
  "metaFailure e item = Some out \<Longrightarrow> getComic_worker_xkcd e fs item = (out, fs)"
  by (auto simp: metaFailure_def getComic_worker_xkcd_def split: option.splits)

lemma metaFailure_not_Fatal: "metaFailure e item = Some out \<Longrightarrow> out \<noteq> Fatal"
  by (auto simp: metaFailure_def split: option.splits)

lemma getComic_runWorkers:
  "0 < tokens \<Longrightarrow>
   getComic e dlList dbPath tokens fs =
     (Some (fst (runWorkers (getComic_worker e dbPath) fs dlList)),
      snd (runWorkers (getComic_worker e dbPath) fs dlList))"
  by (simp add: getComic_def split: prod.splits)

section \<open>Failure of the metadata fetch\<close>

text \<open>
  Claim C4. When the metadata request of an item fails in transport, or its body does
  not decode, the goroutine of that item ends with the corresponding logged outcome
  and leaves the file system as it found it: no directory, no file. The run goes on:
  wherever the item stands in the list, the other goroutines have the outcomes and the
  file system has the final state of the run without that item. Both versions.
\<close>

theorem metadata_failure_isolated:
  assumes "Get e (xkcdURL @ item @ ''/'' @ jsonFile) = None
           \<or> (\<exists>body. Get e (xkcdURL @ item @ ''/'' @ jsonFile) = Some body
                      \<and> jsonDecode e body = None)"
  shows "\<exists>out. (out = MetaTransportErr \<or> out = MetaDecodeErr)
     \<and> getComic_worker e dbPath fs item = (out, fs)
     \<and> getComic_worker_xkcd e fs item = (out, fs)
     \<and> runWorkers (getComic_worker e dbPath) fs (xs @ item # ys) =
         (case runWorkers (getComic_worker e dbPath) fs xs of
            (o1, fs1) \<Rightarrow>
              if Fatal \<in> set o1 then (o1, fs1)
              else (case runWorkers (getComic_worker e dbPath) fs1 ys of
                      (o2, fs2) \<Rightarrow> (o1 @ out # o2, fs2)))
     \<and> snd (runWorkers (getComic_worker e dbPath) fs (xs @ item # ys)) =
         snd (runWorkers (getComic_worker e dbPath) fs (xs @ ys))
     \<and> getComic_xkcd e (xs @ item # ys) fs =
         (case getComic_xkcd e xs fs of
            (o1, fs1) \<Rightarrow>
              if Fatal \<in> set o1 then (o1, fs1)
              else (case getComic_xkcd e ys fs1 of (o2, fs2) \<Rightarrow> (o1 @ out # o2, fs2)))
     \<and> snd (getComic_xkcd e (xs @ item # ys) fs) = snd (getComic_xkcd e (xs @ ys) fs)
     \<and> (0 < tokens \<longrightarrow>
          snd (getComic e (xs @ item # ys) dbPath tokens fs) =
          snd (getComic e (xs @ ys) dbPath tokens fs))"
proof -
  from assms obtain out where m: "metaFailure e item = Some out"
    and o: "out = MetaTransportErr \<or> out = MetaDecodeErr"
    by (auto simp: metaFailure_def)
  have nf: "out \<noteq> Fatal" using m by (rule metaFailure_not_Fatal)
  have w: "\<And>fs. getComic_worker e dbPath fs item = (out, fs)"
    using m by (rule worker_metaFailure)
  have wx: "\<And>fs. getComic_worker_xkcd e fs item = (out, fs)"
    using m by (rule worker_xkcd_metaFailure)
  have g: "0 < tokens \<longrightarrow>
          snd (getComic e (xs @ item # ys) dbPath tokens fs) =
          snd (getComic e (xs @ ys) dbPath tokens fs)"
    using runWorkers_skip_fs [of "getComic_worker e dbPath", OF w nf]
    by (simp add: getComic_runWorkers)
  show ?thesis
    unfolding getComic_xkcd_def
    using o w wx runWorkers_skip [of "getComic_worker e dbPath", OF w nf]
      runWorkers_skip_fs [of "getComic_worker e dbPath", OF w nf]
      runWorkers_skip [of "getComic_worker_xkcd e", OF wx nf]
      runWorkers_skip_fs [of "getComic_worker_xkcd e", OF wx nf] g
    by (intro exI [of _ out] conjI) (assumption | simp)+
qed

theorem metadata_failure_isolated_witness:
  "(\<exists>body. Get stubEnv (xkcdURL @ ''2'' @ ''/'' @ jsonFile) = Some body
            \<and> jsonDecode stubEnv body = None)
   \<and> getComic_worker stubEnv ''db/'' Map.empty ''2'' = (MetaDecodeErr, Map.empty)
   \<and> runWorkers (getComic_worker stubEnv ''db/'') Map.empty ([] @ ''2'' # [''1'']) =
        ([MetaDecodeErr, Completed],
         Map.empty(''db/1'' \<mapsto> Dir, ''db/1/1-alt'' \<mapsto> File ''A'',
                   ''db/1/a.png'' \<mapsto> File ''PNG''))
   \<and> Get stubEnv (xkcdURL @ ''3'' @ ''/'' @ jsonFile) = None
   \<and> getComic_worker_xkcd stubEnv Map.empty ''3'' = (MetaTransportErr, Map.empty)
   \<and> (0::nat) < 20
   \<and> snd (getComic stubEnv ([] @ ''3'' # [''1'']) ''db/'' 20 Map.empty) =
       snd (getComic stubEnv ([] @ [''1'']) ''db/'' 20 Map.empty)"
proof -
  have g2: "\<exists>body. Get stubEnv (xkcdURL @ ''2'' @ ''/'' @ jsonFile) = Some body
                   \<and> jsonDecode stubEnv body = None"
    by (simp add: model_defs stubEnv_def quietEnv_def)
  then have h2: "Get stubEnv (xkcdURL @ ''2'' @ ''/'' @ jsonFile) = None
           \<or> (\<exists>body. Get stubEnv (xkcdURL @ ''2'' @ ''/'' @ jsonFile) = Some body
                      \<and> jsonDecode stubEnv body = None)" by simp
  have g3: "Get stubEnv (xkcdURL @ ''3'' @ ''/'' @ jsonFile) = None"
    by (simp add: model_defs stubEnv_def quietEnv_def)
  then have h3: "Get stubEnv (xkcdURL @ ''3'' @ ''/'' @ jsonFile) = None
           \<or> (\<exists>body. Get stubEnv (xkcdURL @ ''3'' @ ''/'' @ jsonFile) = Some body
                      \<and> jsonDecode stubEnv body = None)" by simp
  have w2: "getComic_worker stubEnv ''db/'' Map.empty ''2'' = (MetaDecodeErr, Map.empty)"
    using metadata_failure_isolated [OF h2, of "''db/''" Map.empty] g2
    by (auto simp: model_defs)
  from metadata_failure_isolated [OF h2, of "''db/''" Map.empty "[]" "[''1'']"] w2
  have r: "runWorkers (getComic_worker stubEnv ''db/'') Map.empty ([] @ ''2'' # [''1'']) =
        ([MetaDecodeErr, Completed],
         Map.empty(''db/1'' \<mapsto> Dir, ''db/1/1-alt'' \<mapsto> File ''A'',
                   ''db/1/a.png'' \<mapsto> File ''PNG''))"
    by (auto simp: worker_stub_1)
  have w3: "getComic_worker_xkcd stubEnv Map.empty ''3'' = (MetaTransportErr, Map.empty)"
    using metadata_failure_isolated [OF h3, of "''db/''" Map.empty] g3
    by (auto simp: model_defs)
  have t: "(0::nat) < 20" by simp
  from metadata_failure_isolated [OF h3, of "''db/''" Map.empty "[]" "[''1'']" 20] t
  have s: "snd (getComic stubEnv ([] @ ''3'' # [''1'']) ''db/'' 20 Map.empty) =
           snd (getComic stubEnv ([] @ [''1'']) ''db/'' 20 Map.empty)"
    by blast
  from g2 w2 r g3 w3 t s show ?thesis by (intro conjI)
qed

section \<open>File-system failures in one goroutine\<close>

lemma writeFile_fault:
  "createFault e p \<or> writeFault e p \<Longrightarrow> snd (writeFile e fs p s)"
  by (auto simp: writeFile_def Create_def WriteString_def Let_def split: prod.splits)

lemma writeImage_fault:
  "Get e (Img c) \<noteq> None \<Longrightarrow> imgName c \<noteq> [] \<Longrightarrow>
   createFault e (savePath @ imgName c) \<or> copyFault e (savePath @ imgName c) \<Longrightarrow>
   fst (writeImage e fs savePath c) = Fatal"
  by (auto simp: writeImage_def Create_def Copy_def Let_def split: prod.splits option.splits)

lemma worker_fsFailure:
  assumes "Get e (xkcdURL @ item @ ''/'' @ jsonFile) = Some body" "jsonDecode e body = Some c"
    and "fsFailure e dbPath fs item c"
  shows "fst (getComic_worker e dbPath fs item) = Fatal"
proof -
  let ?sp = "dbPath @ item @ ''/''"
  obtain fs1 err where mk: "Mkdir e fs ?sp = (fs1, err)" by (cases "Mkdir e fs ?sp")
  obtain fs2 f2 where wa: "writeAlt e fs1 ?sp item c = (fs2, f2)"
    by (cases "writeAlt e fs1 ?sp item c")
  obtain fs3 f3 where wt: "writeTranscript e fs2 ?sp item c = (fs3, f3)"
    by (cases "writeTranscript e fs2 ?sp item c")
  have w: "getComic_worker e dbPath fs item =
         (if err \<noteq> None then (Fatal, fs1) else if f2 then (Fatal, fs2)
          else if f3 then (Fatal, fs3) else writeImage e fs3 ?sp c)"
    using assms(1,2) mk wa wt by (simp add: getComic_worker_def)
  from assms(3) consider
      (m) "err \<noteq> None"
    | (a) "Alt c \<noteq> []" "createFault e (?sp @ item @ ''-alt'') \<or> writeFault e (?sp @ item @ ''-alt'')"
    | (t) "Transcript c \<noteq> []"
          "createFault e (?sp @ item @ ''-transcript'') \<or> writeFault e (?sp @ item @ ''-transcript'')"
    | (i) "Get e (Img c) \<noteq> None" "imgName c \<noteq> []"
          "createFault e (?sp @ imgName c) \<or> copyFault e (?sp @ imgName c)"
    using mk by (auto simp: fsFailure_def Let_def)
  then show ?thesis
  proof cases
    case m
    then show ?thesis by (simp add: w)
  next
    case a
    then have f2 using wa writeFile_fault [of e "?sp @ item @ ''-alt''" fs1 "Alt c"]
      by (simp add: writeAlt_def)
    then show ?thesis by (simp add: w)
  next
    case t
    then have f3 using wt writeFile_fault [of e "?sp @ item @ ''-transcript''" fs2 "Transcript c"]
      by (simp add: writeTranscript_def)
    then show ?thesis by (simp add: w)
  next
    case i
    then have "fst (writeImage e fs3 ?sp c) = Fatal" by (rule writeImage_fault)
    then show ?thesis by (simp add: w)
  qed
qed

lemma worker_xkcd_fsFailure:
  assumes "Get e (xkcdURL @ item @ ''/'' @ jsonFile) = Some body" "jsonDecode e body = Some c"
    and "fsFailure_xkcd e fs item c"
  shows "fst (getComic_worker_xkcd e fs item) = Fatal"
proof -
  let ?sp = "dbPath_const @ item @ ''/''"
  obtain fs1 err where mk: "Mkdir e fs ?sp = (fs1, err)" by (cases "Mkdir e fs ?sp")
  obtain fs2 f2 where wa: "writeFile e fs1 (?sp @ item @ ''-alt'') (Alt c) = (fs2, f2)"
    by (cases "writeFile e fs1 (?sp @ item @ ''-alt'') (Alt c)")
  obtain fs3 f3 where wt: "writeFile e fs2 (?sp @ item @ ''-transcript'') (Transcript c) = (fs3, f3)"
    by (cases "writeFile e fs2 (?sp @ item @ ''-transcript'') (Transcript c)")
  have w: "getComic_worker_xkcd e fs item =
         (if err \<noteq> None then (Fatal, fs1) else if f2 then (Fatal, fs2)
          else if f3 then (Fatal, fs3) else writeImage e fs3 ?sp c)"
    using assms(1,2) mk wa wt by (simp add: getComic_worker_xkcd_def)
  from assms(3) consider
      (m) "err \<noteq> None"
    | (a) "createFault e (?sp @ item @ ''-alt'') \<or> writeFault e (?sp @ item @ ''-alt'')"
    | (t) "createFault e (?sp @ item @ ''-transcript'') \<or> writeFault e (?sp @ item @ ''-transcript'')"
    | (i) "Get e (Img c) \<noteq> None" "imgName c \<noteq> []"
          "createFault e (?sp @ imgName c) \<or> copyFault e (?sp @ imgName c)"
    using mk by (auto simp: fsFailure_xkcd_def Let_def)
  then show ?thesis
  proof cases
    case m
    then show ?thesis by (simp add: w)
  next
    case a
    then have f2 using wa writeFile_fault [of e "?sp @ item @ ''-alt''" fs1 "Alt c"] by simp
    then show ?thesis by (simp add: w)
  next
    case t
    then have f3
      using wt writeFile_fault [of e "?sp @ item @ ''-transcript''" fs2 "Transcript c"] by simp
    then show ?thesis by (simp add: w)
  next
    case i
    then have "fst (writeImage e fs3 ?sp c) = Fatal" by (rule writeImage_fault)
    then show ?thesis by (simp add: w)
  qed
qed

lemma upto_1_1: "[1..1::int] = [1]"
  by (simp add: upto.simps)

lemma latest_stub: "latestComicNum stubEnv = Inr 1"
  by (simp add: latestComicNum_def model_defs stubEnv_def quietEnv_def comic1_def)

lemma makesliceOK_stub: "makesliceOK stubEnv 1"
  by (simp add: makesliceOK_def stubEnv_def quietEnv_def)

lemma missing_stub: "missingComics stubEnv (Map.empty(''db'' \<mapsto> Dir)) 1 ''db/'' = Inr [''1'']"
  unfolding missingComics_eq [OF makesliceOK_stub]
  by (simp add: missingIndices_def upto_1_1 Itoa_1 Stat_def
      IsNotExist_def dirName_def stubEnv_def quietEnv_def)

lemma worker_stub_1_root:
  "getComic_worker stubEnv ''db/'' (Map.empty(''db'' \<mapsto> Dir)) ''1'' =
     (Completed, Map.empty(''db'' \<mapsto> Dir, ''db/1'' \<mapsto> Dir, ''db/1/1-alt'' \<mapsto> File ''A'',
                           ''db/1/a.png'' \<mapsto> File ''PNG''))"
  by (simp add: model_defs stubEnv_def quietEnv_def comic1_def)

lemma main_stub:
  "main stubEnv 20 ''db'' Map.empty =
     (Downloaded [''1''] [Completed],
      Map.empty(''db'' \<mapsto> Dir, ''db/1'' \<mapsto> Dir, ''db/1/1-alt'' \<mapsto> File ''A'',
                ''db/1/a.png'' \<mapsto> File ''PNG''))"
proof -
  have a: "addTrailingSlash ''db'' = Inr ''db/''" by (simp add: addTrailingSlash_def)
  have s: "IsNotExist (Stat stubEnv Map.empty ''db/'')"
    by (simp add: IsNotExist_def Stat_def stubEnv_def quietEnv_def)
  have m: "Mkdir stubEnv Map.empty ''db/'' = (Map.empty(''db'' \<mapsto> Dir), None)"
    by (simp add: Mkdir_def dirName_def stubEnv_def quietEnv_def)
  have g: "getComic stubEnv [''1''] ''db/'' 20 (Map.empty(''db'' \<mapsto> Dir)) =
             (Some [Completed],
              Map.empty(''db'' \<mapsto> Dir, ''db/1'' \<mapsto> Dir, ''db/1/1-alt'' \<mapsto> File ''A'',
                        ''db/1/a.png'' \<mapsto> File ''PNG''))"
    by (simp add: getComic_def worker_stub_1_root)
  show ?thesis
    by (simp add: main_def a latest_stub s m missing_stub g)
qed

section \<open>The goroutine in two stages\<close>

lemma worker_stages:
  assumes "Get e (xkcdURL @ item @ ''/'' @ jsonFile) = Some body" "jsonDecode e body = Some c"
  shows "getComic_worker e dbPath fs item =
           (if snd (metadataWrites e dbPath fs item c)
            then (Fatal, fst (metadataWrites e dbPath fs item c))
            else writeImage e (fst (metadataWrites e dbPath fs item c)) (dbPath @ item @ ''/'') c)"
  using assms
  by (simp add: getComic_worker_def metadataWrites_def Let_def split: prod.splits)

lemma worker_xkcd_stages:
  assumes "Get e (xkcdURL @ item @ ''/'' @ jsonFile) = Some body" "jsonDecode e body = Some c"
  shows "getComic_worker_xkcd e fs item =
           (if snd (metadataWrites_xkcd e fs item c)
            then (Fatal, fst (metadataWrites_xkcd e fs item c))
            else writeImage e (fst (metadataWrites_xkcd e fs item c))
                   (dbPath_const @ item @ ''/'') c)"
  using assms
  by (simp add: getComic_worker_xkcd_def metadataWrites_xkcd_def Let_def split: prod.splits)

lemma writeImage_no_name:
  "imgName c = [] \<Longrightarrow>
   writeImage e fs savePath c = (if Get e (Img c) = None then AssetTransportErr else NoImage, fs)"
  by (simp add: writeImage_def split: option.splits)

lemma imgName_empty_Img: "Img c = [] \<Longrightarrow> imgName c = []"
  by (simp add: imgName_def)

section \<open>An image URL without a file name\<close>

text \<open>
  Claim C6, amended. The goroutine requests the image before it looks at the name.
  For an item whose decoded \<open>Img\<close> has an empty final path segment, no asset file is
  created: the file system is left as the metadata writes made it. The goroutine
  reports that the comic has no image and returns without error exactly when the
  request of \<open>Img\<close> succeeds; when the request fails, as it always does for the
  empty \<open>Img\<close> string, it logs the transport error and returns. Both versions.
\<close>

theorem empty_asset_name:
  assumes "Get e (xkcdURL @ item @ ''/'' @ jsonFile) = Some body"
    and "jsonDecode e body = Some c"
    and "imgName c = []"
  shows "getComic_worker e dbPath fs item =
           (if snd (metadataWrites e dbPath fs item c) then Fatal
            else if Get e (Img c) = None then AssetTransportErr else NoImage,
            fst (metadataWrites e dbPath fs item c))
     \<and> getComic_worker_xkcd e fs item =
           (if snd (metadataWrites_xkcd e fs item c) then Fatal
            else if Get e (Img c) = None then AssetTransportErr else NoImage,
            fst (metadataWrites_xkcd e fs item c))
     \<and> (Img c = [] \<longrightarrow> Get e (Img c) = None)"
  using assms
  by (simp add: worker_stages worker_xkcd_stages writeImage_no_name Get_def)

theorem empty_asset_name_witness:
  "Get stubEnv (xkcdURL @ ''5'' @ ''/'' @ jsonFile) = Some ''c5''
   \<and> jsonDecode stubEnv ''c5'' = Some comic5
   \<and> imgName comic5 = []
   \<and> getComic_worker stubEnv ''db/'' Map.empty ''5'' =
        (NoImage, Map.empty(''db/5'' \<mapsto> Dir, ''db/5/5-alt'' \<mapsto> File ''B''))
   \<and> Get stubEnv (xkcdURL @ ''4'' @ ''/'' @ jsonFile) = Some ''c4''
   \<and> jsonDecode stubEnv ''c4'' = Some comic4
   \<and> imgName comic4 = []
   \<and> Img comic4 = []
   \<and> Get stubEnv (Img comic4) = None"
proof -
  have g5: "Get stubEnv (xkcdURL @ ''5'' @ ''/'' @ jsonFile) = Some ''c5''"
    and g4: "Get stubEnv (xkcdURL @ ''4'' @ ''/'' @ jsonFile) = Some ''c4''"
    by (simp_all add: model_defs stubEnv_def quietEnv_def)
  have d5: "jsonDecode stubEnv ''c5'' = Some comic5"
    and d4: "jsonDecode stubEnv ''c4'' = Some comic4"
    by (simp_all add: stubEnv_def quietEnv_def)
  have n5: "imgName comic5 = []" and n4: "imgName comic4 = []" and i4: "Img comic4 = []"
    by (simp_all add: imgName_def comic5_def comic4_def)
  have m5: "metadataWrites stubEnv ''db/'' Map.empty ''5'' comic5 =
              (Map.empty(''db/5'' \<mapsto> Dir, ''db/5/5-alt'' \<mapsto> File ''B''), False)"
    by (simp add: metadataWrites_def model_defs stubEnv_def quietEnv_def comic5_def)
  have gi: "Get stubEnv (Img comic5) \<noteq> None"
    by (simp add: Get_def stubEnv_def quietEnv_def comic5_def)
  have w5: "getComic_worker stubEnv ''db/'' Map.empty ''5'' =
        (NoImage, Map.empty(''db/5'' \<mapsto> Dir, ''db/5/5-alt'' \<mapsto> File ''B''))"
    using empty_asset_name [OF g5 d5 n5, of "''db/''" Map.empty] m5 gi by simp
  have e4: "Get stubEnv (Img comic4) = None"
    using empty_asset_name [OF g4 d4 n4] i4 by blast
  from g5 d5 n5 w5 g4 d4 n4 i4 e4 show ?thesis by (intro conjI)
qed

text \<open>
  The claim as stated fails for comic 4 of the stub catalog, whose \<open>Img\<close> is the empty
  string: the goroutine ends on the transport error of the image request, not on the
  branch for a comic without image.
\<close>

theorem empty_asset_name_counterexample:
  "Get stubEnv (xkcdURL @ ''4'' @ ''/'' @ jsonFile) = Some ''c4''
   \<and> jsonDecode stubEnv ''c4'' = Some comic4
   \<and> Img comic4 = []
   \<and> imgName comic4 = []
   \<and> getComic_worker stubEnv ''db/'' Map.empty ''4'' =
        (AssetTransportErr,
         Map.empty(''db/4'' \<mapsto> Dir, ''db/4/4-transcript'' \<mapsto> File ''T''))
   \<and> getComic_worker_xkcd stubEnv Map.empty ''4'' =
        (AssetTransportErr,
         Map.empty(''./xkcdDB/4'' \<mapsto> Dir, ''./xkcdDB/4/4-alt'' \<mapsto> File [],
                   ''./xkcdDB/4/4-transcript'' \<mapsto> File ''T''))
   \<and> AssetTransportErr \<noteq> NoImage"
  by (simp add: model_defs stubEnv_def quietEnv_def comic4_def)

section \<open>What a completed goroutine leaves on disk\<close>

lemma dirName_slash: "dirName (p @ ''/'') = p"
  by (simp add: dirName_def)

lemma Mkdir_ok:
  "Mkdir e fs (p @ ''/'') = (fs1, None) \<Longrightarrow> fs p = None \<and> fs1 = fs(p \<mapsto> Dir)"
  by (auto simp: Mkdir_def dirName_def split: if_splits)

lemma writeFile_ok: "writeFile e fs p s = (fs1, False) \<Longrightarrow> fs1 = fs(p \<mapsto> File s)"
  by (auto simp: writeFile_def Create_def WriteString_def Let_def split: if_splits prod.splits)

lemma writeImage_ok:
  assumes "writeImage e fs sp c = (out, fs1)" "out = Completed \<or> out = NoImage"
  shows "(imgName c = [] \<and> out = NoImage \<and> fs1 = fs)
       \<or> (imgName c \<noteq> [] \<and> out = Completed
           \<and> (\<exists>imgBody. Get e (Img c) = Some imgBody \<and> fs1 = fs(sp @ imgName c \<mapsto> File imgBody)))"
  using assms
  by (auto simp: writeImage_def Create_def Copy_def Let_def
      split: option.splits if_splits prod.splits)

lemma fresh_below:
  assumes "wellFormed fs" "fs p = None"
  shows "fs ((p @ ''/'') @ n) = None"
  using assms by (simp add: wellFormed_def)

lemma below_neq: "(p @ ''/'') @ n \<noteq> p"
  by (metis append.assoc append_self_conv list.simps(3) Nil_is_append_conv)


lemma writeAlt_ok:
  "writeAlt e fs sp item c = (fs1, False) \<Longrightarrow>
   fs1 = (if Alt c \<noteq> [] then fs(sp @ item @ ''-alt'' \<mapsto> File (Alt c)) else fs)"
  by (auto simp: writeAlt_def dest: writeFile_ok split: if_splits)

lemma writeTranscript_ok:
  "writeTranscript e fs sp item c = (fs1, False) \<Longrightarrow>
   fs1 = (if Transcript c \<noteq> [] then fs(sp @ item @ ''-transcript'' \<mapsto> File (Transcript c))
          else fs)"
  by (auto simp: writeTranscript_def dest: writeFile_ok split: if_splits)

lemma metadataWrites_ok:
  assumes "metadataWrites e dbPath fs item c = (fs3, False)"
  shows "fs (dbPath @ item) = None"
    and "fs3 = (\<lambda>p. if Transcript c \<noteq> [] \<and> p = (dbPath @ item @ ''/'') @ item @ ''-transcript''
                     then Some (File (Transcript c))
                     else if Alt c \<noteq> [] \<and> p = (dbPath @ item @ ''/'') @ item @ ''-alt''
                     then Some (File (Alt c))
                     else if p = dbPath @ item then Some Dir else fs p)"
proof -
  let ?sp = "dbPath @ item @ ''/''"
  obtain fs1 err where mk: "Mkdir e fs ((dbPath @ item) @ ''/'') = (fs1, err)"
    by (cases "Mkdir e fs ((dbPath @ item) @ ''/'')")
  obtain fs2 f2 where wa: "writeAlt e fs1 ?sp item c = (fs2, f2)"
    by (cases "writeAlt e fs1 ?sp item c")
  from assms mk wa have err: "err = None" and f2: "\<not> f2"
    and wt: "writeTranscript e fs2 ?sp item c = (fs3, False)"
    by (auto simp: metadataWrites_def Let_def split: if_splits)
  from Mkdir_ok [of e fs "dbPath @ item" fs1] mk err
  have a: "fs (dbPath @ item) = None" and b: "fs1 = fs(dbPath @ item \<mapsto> Dir)" by simp_all
  from writeAlt_ok [of e fs1 ?sp item c fs2] wa f2
  have c: "fs2 = (if Alt c \<noteq> [] then fs1(?sp @ item @ ''-alt'' \<mapsto> File (Alt c)) else fs1)"
    by simp
  from writeTranscript_ok [OF wt]
  have d: "fs3 = (if Transcript c \<noteq> []
                  then fs2(?sp @ item @ ''-transcript'' \<mapsto> File (Transcript c)) else fs2)" .
  show "fs (dbPath @ item) = None" by (rule a)
  show "fs3 = (\<lambda>p. if Transcript c \<noteq> [] \<and> p = ?sp @ item @ ''-transcript''
                     then Some (File (Transcript c))
                     else if Alt c \<noteq> [] \<and> p = ?sp @ item @ ''-alt''
                     then Some (File (Alt c))
                     else if p = dbPath @ item then Some Dir else fs p)"
    unfolding d c b by (rule ext) simp
qed

lemma metadataWrites_xkcd_ok:
  assumes "metadataWrites_xkcd e fs item c = (fs3, False)"
  shows "fs (dbPath_const @ item) = None"
    and "fs3 = (\<lambda>p. if p = (dbPath_const @ item @ ''/'') @ item @ ''-transcript''
                     then Some (File (Transcript c))
                     else if p = (dbPath_const @ item @ ''/'') @ item @ ''-alt''
                     then Some (File (Alt c))
                     else if p = dbPath_const @ item then Some Dir else fs p)"
proof -
  let ?sp = "dbPath_const @ item @ ''/''"
  obtain fs1 err where mk: "Mkdir e fs ((dbPath_const @ item) @ ''/'') = (fs1, err)"
    by (cases "Mkdir e fs ((dbPath_const @ item) @ ''/'')")
  obtain fs2 f2 where wa: "writeFile e fs1 (?sp @ item @ ''-alt'') (Alt c) = (fs2, f2)"
    by (cases "writeFile e fs1 (?sp @ item @ ''-alt'') (Alt c)")
  from assms mk wa have err: "err = None" and f2: "\<not> f2"
    and wt: "writeFile e fs2 (?sp @ item @ ''-transcript'') (Transcript c) = (fs3, False)"
    by (auto simp: metadataWrites_xkcd_def Let_def split: if_splits)
  from Mkdir_ok [of e fs "dbPath_const @ item" fs1] mk err
  have a: "fs (dbPath_const @ item) = None" and b: "fs1 = fs(dbPath_const @ item \<mapsto> Dir)"
    by simp_all
  from writeFile_ok [of e fs1 "?sp @ item @ ''-alt''" "Alt c" fs2] wa f2
  have c: "fs2 = fs1(?sp @ item @ ''-alt'' \<mapsto> File (Alt c))" by simp
  from writeFile_ok [OF wt]
  have d: "fs3 = fs2(?sp @ item @ ''-transcript'' \<mapsto> File (Transcript c))" .
  show "fs (dbPath_const @ item) = None" by (rule a)
  show "fs3 = (\<lambda>p. if p = ?sp @ item @ ''-transcript''
                     then Some (File (Transcript c))
                     else if p = ?sp @ item @ ''-alt''
                     then Some (File (Alt c))
                     else if p = dbPath_const @ item then Some Dir else fs p)"
    unfolding d c b by (rule ext) simp
qed


lemma contents_after:
  assumes wf: "wellFormed fs" and fresh: "fs p = None"
    and fs3: "fs3 = (\<lambda>q. if T \<and> q = (p @ ''/'') @ tn then Some (File t)
                          else if A \<and> q = (p @ ''/'') @ an then Some (File a)
                          else if q = p then Some Dir else fs q)"
    and img: "writeImage e fs3 (p @ ''/'') c = (out, fs')"
    and ok: "out = Completed \<or> out = NoImage"
  shows "fs' p = Some Dir"
    and "\<forall>n. (fs' ((p @ ''/'') @ n) \<noteq> None) =
             ((A \<and> n = an) \<or> (T \<and> n = tn) \<or> (imgName c \<noteq> [] \<and> n = imgName c))"
    and "(out = Completed) = (imgName c \<noteq> [])"
proof -
  have below: "\<And>n. fs ((p @ ''/'') @ n) = None"
    using wf fresh by (rule fresh_below)
  have neq: "\<And>n. (p @ ''/'') @ n \<noteq> p" by (rule below_neq)
  have fs3p: "fs3 p = Some Dir"
    using neq [of tn] neq [of an] by (auto simp: fs3 simp del: append_assoc)
  have fs3n: "\<And>n. (fs3 ((p @ ''/'') @ n) \<noteq> None) = ((A \<and> n = an) \<or> (T \<and> n = tn))"
    using below neq by (auto simp: fs3 simp del: append_assoc)
  from writeImage_ok [OF img ok] consider
      (none) "imgName c = []" "out = NoImage" "fs' = fs3"
    | (some) imgBody where "imgName c \<noteq> []" "out = Completed"
        "fs' = fs3((p @ ''/'') @ imgName c \<mapsto> File imgBody)"
    by blast
  then have "fs' p = Some Dir
      \<and> (\<forall>n. (fs' ((p @ ''/'') @ n) \<noteq> None) =
             ((A \<and> n = an) \<or> (T \<and> n = tn) \<or> (imgName c \<noteq> [] \<and> n = imgName c)))
      \<and> (out = Completed) = (imgName c \<noteq> [])"
  proof cases
    case none
    then show ?thesis using fs3p fs3n by simp
  next
    case some
    have "fs' p = Some Dir"
      using some(3) fs3p neq [of "imgName c"] by (auto simp del: append_assoc)
    moreover have "\<forall>n. (fs' ((p @ ''/'') @ n) \<noteq> None) =
             ((A \<and> n = an) \<or> (T \<and> n = tn) \<or> (imgName c \<noteq> [] \<and> n = imgName c))"
      using some(1,3) fs3n by (auto simp del: append_assoc)
    ultimately show ?thesis using some(1,2) by simp
  qed
  then show "fs' p = Some Dir"
    and "\<forall>n. (fs' ((p @ ''/'') @ n) \<noteq> None) =
             ((A \<and> n = an) \<or> (T \<and> n = tn) \<or> (imgName c \<noteq> [] \<and> n = imgName c))"
    and "(out = Completed) = (imgName c \<noteq> [])"
    by blast+
qed


lemma set_expectedFiles:
  "(n \<in> set (expectedFiles item c)) =
     ((Alt c \<noteq> [] \<and> n = item @ ''-alt'') \<or> (Transcript c \<noteq> [] \<and> n = item @ ''-transcript'')
      \<or> (imgName c \<noteq> [] \<and> n = imgName c))"
  by (auto simp: expectedFiles_def)

lemma set_expectedFiles_xkcd:
  "(n \<in> set (expectedFiles_xkcd item c)) =
     ((True \<and> n = item @ ''-alt'') \<or> (True \<and> n = item @ ''-transcript'')
      \<or> (imgName c \<noteq> [] \<and> n = imgName c))"
  by (auto simp: expectedFiles_xkcd_def)

lemma worker_contents:
  assumes wf: "wellFormed fs"
    and g: "Get e (xkcdURL @ item @ ''/'' @ jsonFile) = Some body"
    and d: "jsonDecode e body = Some c"
    and w: "getComic_worker e dbPath fs item = (out, fs')"
    and ok: "out = Completed \<or> out = NoImage"
  shows "fs' (dbPath @ item) = Some Dir
       \<and> (\<forall>n. (fs' (dbPath @ item @ ''/'' @ n) \<noteq> None) = (n \<in> set (expectedFiles item c)))
       \<and> (out = Completed) = (imgName c \<noteq> [])"
proof -
  obtain fs3 f where mw: "metadataWrites e dbPath fs item c = (fs3, f)"
    by (cases "metadataWrites e dbPath fs item c")
  from worker_stages [OF g d, of dbPath fs] w ok mw
  have f: "\<not> f" and img: "writeImage e fs3 ((dbPath @ item) @ ''/'') c = (out, fs')"
    by (auto split: if_splits)
  from mw f have mw': "metadataWrites e dbPath fs item c = (fs3, False)" by simp
  have fs3: "fs3 = (\<lambda>q. if Transcript c \<noteq> [] \<and> q = ((dbPath @ item) @ ''/'') @ item @ ''-transcript''
                     then Some (File (Transcript c))
                     else if Alt c \<noteq> [] \<and> q = ((dbPath @ item) @ ''/'') @ item @ ''-alt''
                     then Some (File (Alt c))
                     else if q = dbPath @ item then Some Dir else fs q)"
    using metadataWrites_ok(2) [OF mw'] by (simp only: append_assoc cong: if_cong)
  note C = contents_after [OF wf metadataWrites_ok(1) [OF mw'] fs3 img ok]
  show ?thesis
    using C by (simp add: set_expectedFiles)
qed

lemma worker_xkcd_contents:
  assumes wf: "wellFormed fs"
    and g: "Get e (xkcdURL @ item @ ''/'' @ jsonFile) = Some body"
    and d: "jsonDecode e body = Some c"
    and w: "getComic_worker_xkcd e fs item = (out, fs')"
    and ok: "out = Completed \<or> out = NoImage"
  shows "fs' (dbPath_const @ item) = Some Dir
       \<and> (\<forall>n. (fs' (dbPath_const @ item @ ''/'' @ n) \<noteq> None) =
                (n \<in> set (expectedFiles_xkcd item c)))
       \<and> (out = Completed) = (imgName c \<noteq> [])"
proof -
  obtain fs3 f where mw: "metadataWrites_xkcd e fs item c = (fs3, f)"
    by (cases "metadataWrites_xkcd e fs item c")
  from worker_xkcd_stages [OF g d, of fs] w ok mw
  have f: "\<not> f" and img: "writeImage e fs3 ((dbPath_const @ item) @ ''/'') c = (out, fs')"
    by (auto split: if_splits)
  from mw f have mw': "metadataWrites_xkcd e fs item c = (fs3, False)" by simp
  have fs3: "fs3 = (\<lambda>q. if True \<and> q = ((dbPath_const @ item) @ ''/'') @ item @ ''-transcript''
                     then Some (File (Transcript c))
                     else if True \<and> q = ((dbPath_const @ item) @ ''/'') @ item @ ''-alt''
                     then Some (File (Alt c))
                     else if q = dbPath_const @ item then Some Dir else fs q)"
    using metadataWrites_xkcd_ok(2) [OF mw'] by (simp only: append_assoc simp_thms cong: if_cong)
  note C = contents_after [OF wf metadataWrites_xkcd_ok(1) [OF mw'] fs3 img ok]
  show ?thesis
    using C by (simp add: set_expectedFiles_xkcd)
qed

section \<open>Completeness after success\<close>

text \<open>
  Claim C3, amended. In a well-formed file system, when the goroutine of an item ends
  without error (after the image is written, or on the branch for a comic without
  image), the directory of the item exists and the files in it are exactly these: in
  the version with the semaphore, \<open>{index}-alt\<close> if \<open>Alt\<close> is non-empty,
  \<open>{index}-transcript\<close> if \<open>Transcript\<close> is non-empty, and the file named by the final
  path segment of \<open>Img\<close> if that segment is non-empty; in \<open>xkcd.go\<close>, both metadata
  files whatever the fields hold, and the same asset file. The asset file is written
  exactly when the final segment is non-empty.
\<close>

theorem directory_contents:
  assumes "wellFormed fs"
    and "Get e (xkcdURL @ item @ ''/'' @ jsonFile) = Some body"
    and "jsonDecode e body = Some c"
  shows "(fst (getComic_worker e dbPath fs item) = Completed
          \<or> fst (getComic_worker e dbPath fs item) = NoImage \<longrightarrow>
            snd (getComic_worker e dbPath fs item) (dbPath @ item) = Some Dir
          \<and> (\<forall>n. (snd (getComic_worker e dbPath fs item) (dbPath @ item @ ''/'' @ n) \<noteq> None) =
                   (n \<in> set (expectedFiles item c)))
          \<and> (fst (getComic_worker e dbPath fs item) = Completed) = (imgName c \<noteq> []))
     \<and> (fst (getComic_worker_xkcd e fs item) = Completed
          \<or> fst (getComic_worker_xkcd e fs item) = NoImage \<longrightarrow>
            snd (getComic_worker_xkcd e fs item) (dbPath_const @ item) = Some Dir
          \<and> (\<forall>n. (snd (getComic_worker_xkcd e fs item) (dbPath_const @ item @ ''/'' @ n) \<noteq> None) =
                   (n \<in> set (expectedFiles_xkcd item c)))
          \<and> (fst (getComic_worker_xkcd e fs item) = Completed) = (imgName c \<noteq> []))"
proof (rule conjI; rule impI)
  assume ok: "fst (getComic_worker e dbPath fs item) = Completed
          \<or> fst (getComic_worker e dbPath fs item) = NoImage"
  have w: "getComic_worker e dbPath fs item =
             (fst (getComic_worker e dbPath fs item), snd (getComic_worker e dbPath fs item))"
    by simp
  from worker_contents [OF assms w ok]
  show "snd (getComic_worker e dbPath fs item) (dbPath @ item) = Some Dir
          \<and> (\<forall>n. (snd (getComic_worker e dbPath fs item) (dbPath @ item @ ''/'' @ n) \<noteq> None) =
                   (n \<in> set (expectedFiles item c)))
          \<and> (fst (getComic_worker e dbPath fs item) = Completed) = (imgName c \<noteq> [])"
    by simp
next
  assume ok: "fst (getComic_worker_xkcd e fs item) = Completed
          \<or> fst (getComic_worker_xkcd e fs item) = NoImage"
  have w: "getComic_worker_xkcd e fs item =
             (fst (getComic_worker_xkcd e fs item), snd (getComic_worker_xkcd e fs item))"
    by simp
  from worker_xkcd_contents [OF assms w ok]
  show "snd (getComic_worker_xkcd e fs item) (dbPath_const @ item) = Some Dir
          \<and> (\<forall>n. (snd (getComic_worker_xkcd e fs item) (dbPath_const @ item @ ''/'' @ n) \<noteq> None) =
                   (n \<in> set (expectedFiles_xkcd item c)))
          \<and> (fst (getComic_worker_xkcd e fs item) = Completed) = (imgName c \<noteq> [])"
    by simp
qed


lemma worker_xkcd_stub_1:
  "getComic_worker_xkcd stubEnv Map.empty ''1'' =
     (Completed, Map.empty(''./xkcdDB/1'' \<mapsto> Dir, ''./xkcdDB/1/1-alt'' \<mapsto> File ''A'',
                           ''./xkcdDB/1/1-transcript'' \<mapsto> File [],
                           ''./xkcdDB/1/a.png'' \<mapsto> File ''PNG''))"
  by (simp add: model_defs stubEnv_def quietEnv_def comic1_def)

lemma worker_stub_6:
  "getComic_worker stubEnv ''db/'' Map.empty ''6'' =
     (Completed, Map.empty(''db/6'' \<mapsto> Dir, ''db/6/6-alt'' \<mapsto> File ''IMG''))"
  by (simp add: model_defs stubEnv_def quietEnv_def comic6_def)

lemma wellFormed_empty: "wellFormed Map.empty"
  by (simp add: wellFormed_def)

theorem directory_contents_witness:
  "wellFormed Map.empty
   \<and> Get stubEnv (xkcdURL @ ''1'' @ ''/'' @ jsonFile) = Some ''c1''
   \<and> jsonDecode stubEnv ''c1'' = Some comic1
   \<and> fst (getComic_worker stubEnv ''db/'' Map.empty ''1'') = Completed
   \<and> expectedFiles ''1'' comic1 = [''1-alt'', ''a.png'']
   \<and> snd (getComic_worker stubEnv ''db/'' Map.empty ''1'') (''db/'' @ ''1'') = Some Dir
   \<and> snd (getComic_worker stubEnv ''db/'' Map.empty ''1'') (''db/'' @ ''1'' @ ''/'' @ ''a.png'') \<noteq> None
   \<and> snd (getComic_worker stubEnv ''db/'' Map.empty ''1'') (''db/'' @ ''1'' @ ''/'' @ ''1-transcript'')
       = None
   \<and> fst (getComic_worker_xkcd stubEnv Map.empty ''1'') = Completed
   \<and> expectedFiles_xkcd ''1'' comic1 = [''1-alt'', ''1-transcript'', ''a.png'']
   \<and> snd (getComic_worker_xkcd stubEnv Map.empty ''1'')
         (dbPath_const @ ''1'' @ ''/'' @ ''1-transcript'') \<noteq> None"
proof -
  have g: "Get stubEnv (xkcdURL @ ''1'' @ ''/'' @ jsonFile) = Some ''c1''"
    by (simp add: model_defs stubEnv_def quietEnv_def)
  have d: "jsonDecode stubEnv ''c1'' = Some comic1"
    by (simp add: stubEnv_def quietEnv_def)
  have o: "fst (getComic_worker stubEnv ''db/'' Map.empty ''1'') = Completed"
    by (simp add: worker_stub_1)
  have ox: "fst (getComic_worker_xkcd stubEnv Map.empty ''1'') = Completed"
    by (simp add: worker_xkcd_stub_1)
  have x: "expectedFiles ''1'' comic1 = [''1-alt'', ''a.png'']"
    by (simp add: expectedFiles_def imgName_def comic1_def)
  have xx: "expectedFiles_xkcd ''1'' comic1 = [''1-alt'', ''1-transcript'', ''a.png'']"
    by (simp add: expectedFiles_xkcd_def imgName_def comic1_def)
  note T = directory_contents [OF wellFormed_empty g d, of "''db/''"]
  from T o have dir: "snd (getComic_worker stubEnv ''db/'' Map.empty ''1'') (''db/'' @ ''1'') = Some Dir"
    and all: "\<forall>n. (snd (getComic_worker stubEnv ''db/'' Map.empty ''1'')
                     (''db/'' @ ''1'' @ ''/'' @ n) \<noteq> None) = (n \<in> set (expectedFiles ''1'' comic1))"
    by blast+
  from T ox have allx: "\<forall>n. (snd (getComic_worker_xkcd stubEnv Map.empty ''1'')
                     (dbPath_const @ ''1'' @ ''/'' @ n) \<noteq> None)
                   = (n \<in> set (expectedFiles_xkcd ''1'' comic1))"
    by blast
  have a: "snd (getComic_worker stubEnv ''db/'' Map.empty ''1'') (''db/'' @ ''1'' @ ''/'' @ ''a.png'')
             \<noteq> None"
    using all [rule_format, of "''a.png''"] by (simp add: x)
  have b: "snd (getComic_worker stubEnv ''db/'' Map.empty ''1'')
             (''db/'' @ ''1'' @ ''/'' @ ''1-transcript'') = None"
    using all [rule_format, of "''1-transcript''"] by (simp add: x)
  have c: "snd (getComic_worker_xkcd stubEnv Map.empty ''1'')
         (dbPath_const @ ''1'' @ ''/'' @ ''1-transcript'') \<noteq> None"
    using allx [rule_format, of "''1-transcript''"] by (simp add: xx)
  from wellFormed_empty g d o x dir a b ox xx c show ?thesis by (intro conjI)
qed

text \<open>
  The claim as stated fails twice on the stub catalog. In \<open>xkcd.go\<close> comic 1, whose
  transcript is empty, gets a transcript file. In the version with the semaphore the
  image of comic 6 is named \<open>6-alt\<close>, so the directory holds a file of that name although
  \<open>Alt\<close> is empty.
\<close>

theorem directory_contents_counterexample:
  "jsonDecode stubEnv ''c1'' = Some comic1
   \<and> Transcript comic1 = []
   \<and> getComic_worker_xkcd stubEnv Map.empty ''1'' =
       (Completed, Map.empty(''./xkcdDB/1'' \<mapsto> Dir, ''./xkcdDB/1/1-alt'' \<mapsto> File ''A'',
                             ''./xkcdDB/1/1-transcript'' \<mapsto> File [],
                             ''./xkcdDB/1/a.png'' \<mapsto> File ''PNG''))
   \<and> snd (getComic_worker_xkcd stubEnv Map.empty ''1'') ''./xkcdDB/1/1-transcript'' = Some (File [])
   \<and> jsonDecode stubEnv ''c6'' = Some comic6
   \<and> Alt comic6 = []
   \<and> getComic_worker stubEnv ''db/'' Map.empty ''6'' =
       (Completed, Map.empty(''db/6'' \<mapsto> Dir, ''db/6/6-alt'' \<mapsto> File ''IMG''))
   \<and> snd (getComic_worker stubEnv ''db/'' Map.empty ''6'') ''db/6/6-alt'' = Some (File ''IMG'')"
  by (simp add: worker_xkcd_stub_1 worker_stub_6) (simp add: stubEnv_def quietEnv_def comic1_def comic6_def)

section \<open>A run removes nothing\<close>

lemma keeps_refl: "keeps fs fs"
  by (simp add: keeps_def)

lemma keeps_trans: "keeps a b \<Longrightarrow> keeps b c \<Longrightarrow> keeps a c"
  by (simp add: keeps_def)

lemma keeps_upd: "keeps fs (fs(p \<mapsto> v))"
  by (simp add: keeps_def)

lemma keeps_Mkdir: "keeps fs (fst (Mkdir e fs p))"
  by (simp add: Mkdir_def keeps_refl keeps_upd)

lemma keeps_Create: "keeps fs (fst (Create e fs p))"
  by (simp add: Create_def keeps_refl keeps_upd)

lemma keeps_WriteString: "keeps fs (fst (WriteString e fs p s))"
  by (simp add: WriteString_def keeps_refl keeps_upd)

lemma keeps_Copy: "keeps fs (fst (Copy e fs p s))"
  by (simp add: Copy_def keeps_refl keeps_upd)

lemma keeps_writeFile: "keeps fs (fst (writeFile e fs p s))"
proof -
  obtain fs1 err where c: "Create e fs p = (fs1, err)" by (cases "Create e fs p")
  obtain fs2 werr where w: "WriteString e fs1 p s = (fs2, werr)"
    by (cases "WriteString e fs1 p s")
  have k1: "keeps fs fs1" using keeps_Create [of fs e p] c by simp
  have k2: "keeps fs1 fs2" using keeps_WriteString [of fs1 e p s] w by simp
  show ?thesis
    using k1 keeps_trans [OF k1 k2] by (simp add: writeFile_def c w)
qed

lemma keeps_writeAlt: "keeps fs (fst (writeAlt e fs sp item c))"
  by (simp add: writeAlt_def keeps_writeFile keeps_refl)

lemma keeps_writeTranscript: "keeps fs (fst (writeTranscript e fs sp item c))"
  by (simp add: writeTranscript_def keeps_writeFile keeps_refl)

lemma keeps_writeImage: "keeps fs (snd (writeImage e fs sp c))"
proof (cases "Get e (Img c)")
  case None
  then show ?thesis by (simp add: writeImage_def keeps_refl)
next
  case (Some imgBody)
  obtain fs1 err where c: "Create e fs (sp @ imgName c) = (fs1, err)"
    by (cases "Create e fs (sp @ imgName c)")
  obtain fs2 cerr where w: "Copy e fs1 (sp @ imgName c) imgBody = (fs2, cerr)"
    by (cases "Copy e fs1 (sp @ imgName c) imgBody")
  have k1: "keeps fs fs1" using keeps_Create [of fs e "sp @ imgName c"] c by simp
  have k2: "keeps fs1 fs2" using keeps_Copy [of fs1 e "sp @ imgName c" imgBody] w by simp
  show ?thesis
    using k1 keeps_trans [OF k1 k2] by (simp add: writeImage_def Some c w keeps_refl)
qed

lemma keeps_metadataWrites: "keeps fs (fst (metadataWrites e dbPath fs item c))"
proof -
  let ?sp = "dbPath @ item @ ''/''"
  obtain fs1 err where mk: "Mkdir e fs ?sp = (fs1, err)" by (cases "Mkdir e fs ?sp")
  obtain fs2 f2 where wa: "writeAlt e fs1 ?sp item c = (fs2, f2)"
    by (cases "writeAlt e fs1 ?sp item c")
  obtain fs3 f3 where wt: "writeTranscript e fs2 ?sp item c = (fs3, f3)"
    by (cases "writeTranscript e fs2 ?sp item c")
  have k1: "keeps fs fs1" using keeps_Mkdir [of fs e ?sp] mk by simp
  have k2: "keeps fs1 fs2" using keeps_writeAlt [of fs1 e ?sp item c] wa by simp
  have k3: "keeps fs2 fs3" using keeps_writeTranscript [of fs2 e ?sp item c] wt by simp
  note k12 = keeps_trans [OF k1 k2]
  note k13 = keeps_trans [OF k12 k3]
  show ?thesis
    using k1 k12 k13 by (simp add: metadataWrites_def Let_def mk wa wt)
qed

lemma keeps_worker: "keeps fs (snd (getComic_worker e dbPath fs item))"
proof (cases "Get e (xkcdURL @ item @ ''/'' @ jsonFile)")
  case None
  then show ?thesis by (simp add: getComic_worker_def keeps_refl)
next
  case (Some body)
  show ?thesis
  proof (cases "jsonDecode e body")
    case None
    with Some show ?thesis by (simp add: getComic_worker_def keeps_refl)
  next
    case (Some c)
    note st = worker_stages [OF \<open>Get e (xkcdURL @ item @ ''/'' @ jsonFile) = Some body\<close> Some]
    have k: "keeps fs (fst (metadataWrites e dbPath fs item c))" by (rule keeps_metadataWrites)
    show ?thesis
      using k keeps_trans [OF k keeps_writeImage] by (simp add: st)
  qed
qed

lemma keeps_runWorkers:
  assumes "\<And>fs item. keeps fs (snd (w fs item))"
  shows "keeps fs (snd (runWorkers w fs xs))"
proof (induction xs arbitrary: fs)
  case Nil
  show ?case by (simp add: keeps_refl)
next
  case (Cons x xs)
  obtain out fs1 where wx: "w fs x = (out, fs1)" by (cases "w fs x")
  have k1: "keeps fs fs1" using assms [of fs x] wx by simp
  obtain outs fs2 where r: "runWorkers w fs1 xs = (outs, fs2)" by (cases "runWorkers w fs1 xs")
  have k2: "keeps fs1 fs2" using Cons.IH [of fs1] r by simp
  show ?case
    using k1 keeps_trans [OF k1 k2] by (simp add: wx r)
qed

lemma Stat_keeps:
  "keeps fs fs' \<Longrightarrow> \<not> IsNotExist (Stat e fs q) \<Longrightarrow> \<not> IsNotExist (Stat e fs' q)"
  by (auto simp: keeps_def Stat_def IsNotExist_def split: option.splits if_splits)


section \<open>The steps of main\<close>

lemma root_step:
  assumes "(if IsNotExist (Stat e fs p) then Mkdir e fs p else (fs, None)) = (fs0, None)"
  shows "keeps fs fs0" and "\<not> IsNotExist (Stat e fs0 p)"
proof -
  show "keeps fs fs0"
    using assms keeps_Mkdir [of fs e p] by (auto simp: keeps_refl split: if_splits)
  show "\<not> IsNotExist (Stat e fs0 p)"
  proof (cases "IsNotExist (Stat e fs p)")
    case False
    with assms show ?thesis by simp
  next
    case True
    then have nf: "\<not> statFault e p" by (auto simp: IsNotExist_def Stat_def split: if_splits)
    from True assms have "Mkdir e fs p = (fs0, None)" by simp
    then have "fs0 (dirName p) = Some Dir"
      by (auto simp: Mkdir_def split: if_splits)
    with nf show ?thesis by (simp add: IsNotExist_def Stat_def)
  qed
qed

lemma root_step_idle:
  "\<not> IsNotExist (Stat e fs p) \<Longrightarrow>
   (if IsNotExist (Stat e fs p) then Mkdir e fs p else (fs, None)) = (fs, None)"
  by simp

lemma main_after_root:
  assumes "addTrailingSlash dbPath = Inr p" "latestComicNum e = Inr N"
    and "\<not> IsNotExist (Stat e fs p)" "missingComics e fs N p = Inr []"
  shows "main e rateLimit dbPath fs = (NoMissing, fs)"
  using assms by (simp add: main_def)

lemma missingComics_Inr: "missingComics e fs N p = Inr m \<Longrightarrow> makesliceOK e N"
  by (auto simp: missingComics_def split: if_splits)

lemma main_first_run:
  assumes m: "main e rateLimit dbPath fs = (st, fs1)"
    and st: "st = Downloaded missing outs \<or> (st = NoMissing \<and> missing = [])"
    and n: "addTrailingSlash dbPath = Inr p"
  shows "\<exists>N fs0. latestComicNum e = Inr N \<and> keeps fs fs0 \<and> \<not> IsNotExist (Stat e fs0 p)
           \<and> missingComics e fs0 N p = Inr missing \<and> keeps fs0 fs1"
proof -
  from m st n obtain N where l: "latestComicNum e = Inr N"
    by (cases "latestComicNum e") (auto simp: main_def)
  obtain fs0 err where r: "(if IsNotExist (Stat e fs p) then Mkdir e fs p else (fs, None)) = (fs0, err)"
    by (cases "if IsNotExist (Stat e fs p) then Mkdir e fs p else (fs, None)")
  from m st n l r have err: "err = None"
    by (cases err) (auto simp: main_def)
  from m st n l r err obtain missing' where mc: "missingComics e fs0 N p = Inr missing'"
    by (cases "missingComics e fs0 N p") (auto simp: main_def)
  from m n l r err mc
  have rest: "(if length missing' = 0 then (NoMissing, fs0)
               else if rateLimit < 0 then (Panic MakechanSize, fs0)
               else (case getComic e missing' p (nat rateLimit) fs0 of
                       (None, fs2) \<Rightarrow> (Deadlock, fs2)
                     | (Some outs, fs2) \<Rightarrow>
                         (if Fatal \<in> set outs then (FatalExit, fs2)
                          else (Downloaded missing' outs, fs2)))) = (st, fs1)"
    by (simp add: main_def)
  have "missing' = missing \<and> keeps fs0 fs1"
  proof (cases "missing' = []")
    case True
    with rest st show ?thesis by (auto simp: keeps_refl)
  next
    case False
    with rest st have g: "fst (getComic e missing' p (nat rateLimit) fs0) \<noteq> None"
      and fs1: "fs1 = snd (getComic e missing' p (nat rateLimit) fs0)"
      and mm: "missing' = missing"
      by (auto split: if_splits prod.splits option.splits)
    from g False have "fs1 = snd (runWorkers (getComic_worker e p) fs0 missing')"
      unfolding fs1 by (auto simp: getComic_def split: if_splits prod.splits)
    with keeps_runWorkers [of "getComic_worker e p" fs0 missing', OF keeps_worker] mm
    show ?thesis by simp
  qed
  with l r err mc root_step [of e fs p fs0] show ?thesis by auto
qed


section \<open>Idempotence\<close>

text \<open>
  Claim C8. Let a first run of \<open>main\<close> report its downloads for the missing set it
  computed, and let every item of that set have its directory under the archive root
  afterwards. Then a second run from the file system the first one left, with the same
  environment and hence the same catalog extent \<open>N\<close>, computes the empty missing set and
  ends with the message that nothing is missing: \<open>getComic\<close> is not called and the file
  system is unchanged.
\<close>

theorem second_run_finds_nothing:
  assumes first: "main e rateLimit dbPath fs = (Downloaded missing outs, fs1)"
    and norm: "addTrailingSlash dbPath = Inr p"
    and complete: "\<forall>item\<in>set missing. fs1 (p @ item) = Some Dir"
  shows "\<exists>N. latestComicNum e = Inr N
           \<and> missingComics e fs1 N p = Inr []
           \<and> main e rateLimit dbPath fs1 = (NoMissing, fs1)"
proof -
  from main_first_run [OF first _ norm, of missing outs]
  obtain N fs0 where l: "latestComicNum e = Inr N"
    and root: "\<not> IsNotExist (Stat e fs0 p)"
    and mc: "missingComics e fs0 N p = Inr missing"
    and k: "keeps fs0 fs1"
    by auto
  have N: "makesliceOK e N" using mc by (rule missingComics_Inr)
  have m0: "missing = map Itoa (missingIndices e fs0 p N)"
    using mc missingComics_eq [OF N, of fs0 p] by simp
  have "missingIndices e fs1 p N = []"
    unfolding missingIndices_def filter_empty_conv
  proof
    fix i assume "i \<in> set [1..N]"
    then have r: "1 \<le> i" "i \<le> N" by simp_all
    show "\<not> (i \<noteq> 404 \<and> IsNotExist (Stat e fs1 (p @ Itoa i)))"
    proof (cases "i \<noteq> 404 \<and> IsNotExist (Stat e fs0 (p @ Itoa i))")
      case True
      then have "i \<in> set (missingIndices e fs0 p N)"
        using r by (simp add: set_missingIndices)
      then have "Itoa i \<in> set missing" by (simp add: m0)
      with complete have "fs1 (p @ Itoa i) = Some Dir" by blast
      moreover from True have "\<not> statFault e (p @ Itoa i)"
        by (auto simp: IsNotExist_def Stat_def split: if_splits)
      ultimately show ?thesis
        by (simp add: IsNotExist_def Stat_def dirName_Itoa)
    next
      case False
      then show ?thesis using Stat_keeps [OF k, of e "p @ Itoa i"] by blast
    qed
  qed
  then have e: "missingComics e fs1 N p = Inr []"
    using missingComics_eq [OF N, of fs1 p] by simp
  have root1: "\<not> IsNotExist (Stat e fs1 p)"
    using k root by (rule Stat_keeps)
  from main_after_root [OF norm l root1 e] l e show ?thesis by blast
qed

theorem second_run_finds_nothing_witness:
  "main stubEnv 20 ''db'' Map.empty =
     (Downloaded [''1''] [Completed],
      Map.empty(''db'' \<mapsto> Dir, ''db/1'' \<mapsto> Dir, ''db/1/1-alt'' \<mapsto> File ''A'',
                ''db/1/a.png'' \<mapsto> File ''PNG''))
   \<and> addTrailingSlash ''db'' = Inr ''db/''
   \<and> (Map.empty(''db'' \<mapsto> Dir, ''db/1'' \<mapsto> Dir, ''db/1/1-alt'' \<mapsto> File ''A'',
                 ''db/1/a.png'' \<mapsto> File ''PNG'')) (''db/'' @ ''1'') = Some Dir
   \<and> latestComicNum stubEnv = Inr 1
   \<and> missingComics stubEnv
        (Map.empty(''db'' \<mapsto> Dir, ''db/1'' \<mapsto> Dir, ''db/1/1-alt'' \<mapsto> File ''A'',
                   ''db/1/a.png'' \<mapsto> File ''PNG'')) 1 ''db/'' = Inr []
   \<and> main stubEnv 20 ''db''
        (Map.empty(''db'' \<mapsto> Dir, ''db/1'' \<mapsto> Dir, ''db/1/1-alt'' \<mapsto> File ''A'',
                   ''db/1/a.png'' \<mapsto> File ''PNG'')) =
       (NoMissing,
        Map.empty(''db'' \<mapsto> Dir, ''db/1'' \<mapsto> Dir, ''db/1/1-alt'' \<mapsto> File ''A'',
                  ''db/1/a.png'' \<mapsto> File ''PNG''))"
proof -
  let ?fs1 = "Map.empty(''db'' \<mapsto> Dir, ''db/1'' \<mapsto> Dir, ''db/1/1-alt'' \<mapsto> File ''A'',
                ''db/1/a.png'' \<mapsto> File ''PNG'')"
  have n: "addTrailingSlash ''db'' = Inr ''db/''" by (simp add: addTrailingSlash_def)
  have c: "\<forall>item\<in>set [''1'']. ?fs1 (''db/'' @ item) = Some Dir" by simp
  have c1: "?fs1 (''db/'' @ ''1'') = Some Dir" by simp
  from second_run_finds_nothing [OF main_stub n c]
  obtain N where a: "latestComicNum stubEnv = Inr N"
    and b: "missingComics stubEnv ?fs1 N ''db/'' = Inr []"
    and m: "main stubEnv 20 ''db'' ?fs1 = (NoMissing, ?fs1)"
    by blast
  from a latest_stub have "N = 1" by simp
  with b have b1: "missingComics stubEnv ?fs1 1 ''db/'' = Inr []" by (simp only:)
  from main_stub n c1 latest_stub b1 m show ?thesis by (intro conjI)
qed

section \<open>File-system failures under every schedule\<close>

subsection \<open>A goroutine is the run of its calls\<close>

lemma runOps_append:
  "runOps e fs (xs @ ys) =
     (case runOps e fs xs of (fatal, fs1) \<Rightarrow> if fatal then (True, fs1) else runOps e fs1 ys)"
  by (induction xs arbitrary: fs) (simp_all split: prod.splits)

lemma writeFile_runOps:
  "writeFile e fs p s = (case runOps e fs (writeFileOps p s) of (fatal, fs1) \<Rightarrow> (fs1, fatal))"
  by (simp add: writeFile_def writeFileOps_def applyOp_def split: prod.splits)

lemma writeImage_runOps:
  "writeImage e fs savePath c =
     (case runOps e fs (writeImageOps e savePath c) of
        (fatal, fs1) \<Rightarrow>
          (if fatal then Fatal
           else (case Get e (Img c) of
                   None \<Rightarrow> AssetTransportErr
                 | Some imgBody \<Rightarrow> if imgName c = [] then NoImage else Completed), fs1))"
  by (simp add: writeImage_def writeImageOps_def applyOp_def Let_def split: prod.splits option.splits)

lemma worker_runOps:
  "getComic_worker e dbPath fs item =
     (case runOps e fs (workerOps e dbPath item) of
        (fatal, fs1) \<Rightarrow> (if fatal then Fatal else workerReturn e item, fs1))"
proof (cases "Get e (xkcdURL @ item @ ''/'' @ jsonFile)")
  case None
  then show ?thesis by (simp add: getComic_worker_def workerOps_def workerReturn_def)
next
  case (Some body)
  note g = this
  show ?thesis
  proof (cases "jsonDecode e body")
    case None
    with g show ?thesis by (simp add: getComic_worker_def workerOps_def workerReturn_def)
  next
    case (Some c)
    with g show ?thesis
      by (simp add: getComic_worker_def workerOps_def workerReturn_def writeAlt_def
          writeTranscript_def writeFile_runOps writeImage_runOps runOps_append applyOp_def Let_def
          split: prod.splits)
  qed
qed

lemma worker_xkcd_runOps:
  "getComic_worker_xkcd e fs item =
     (case runOps e fs (workerOps_xkcd e item) of
        (fatal, fs1) \<Rightarrow> (if fatal then Fatal else workerReturn e item, fs1))"
proof (cases "Get e (xkcdURL @ item @ ''/'' @ jsonFile)")
  case None
  then show ?thesis by (simp add: getComic_worker_xkcd_def workerOps_xkcd_def workerReturn_def)
next
  case (Some body)
  note g = this
  show ?thesis
  proof (cases "jsonDecode e body")
    case None
    with g show ?thesis by (simp add: getComic_worker_xkcd_def workerOps_xkcd_def workerReturn_def)
  next
    case (Some c)
    with g show ?thesis
      by (simp add: getComic_worker_xkcd_def workerOps_xkcd_def workerReturn_def
          writeFile_runOps writeImage_runOps runOps_append applyOp_def Let_def
          split: prod.splits)
  qed
qed

lemma workerReturn_not_Fatal: "workerReturn e item \<noteq> Fatal"
  by (simp add: workerReturn_def Let_def split: option.splits)

subsection \<open>Schedules\<close>

lemma append_in_shuffles: "xs @ ys \<in> shuffles xs ys"
  by (induction xs) (simp_all add: Cons_in_shuffles_leftI)

lemma concat_interleavings: "concat xss \<in> interleavings xss"
  by (induction xss) (auto intro: append_in_shuffles)

lemma set_interleavings: "sch \<in> interleavings xss \<Longrightarrow> set sch = \<Union> (set ` set xss)"
  by (induction xss arbitrary: sch) (auto dest: set_shuffles)

lemma followSched_interleavings: "followSched sch xss \<in> interleavings xss"
  by (simp add: followSched_def concat_interleavings)

lemma runWorkers_runOps:
  "snd (runWorkers (getComic_worker e dbPath) fs xs) =
     snd (runOps e fs (concat (map (workerOps e dbPath) xs)))
   \<and> (Fatal \<in> set (fst (runWorkers (getComic_worker e dbPath) fs xs))) =
       fst (runOps e fs (concat (map (workerOps e dbPath) xs)))
   \<and> (\<not> fst (runOps e fs (concat (map (workerOps e dbPath) xs))) \<longrightarrow>
        fst (runWorkers (getComic_worker e dbPath) fs xs) = map (workerReturn e) xs)"
proof (induction xs arbitrary: fs)
  case Nil
  show ?case by simp
next
  case (Cons x xs)
  obtain fatal fs1 where r: "runOps e fs (workerOps e dbPath x) = (fatal, fs1)"
    by (cases "runOps e fs (workerOps e dbPath x)")
  obtain outs fs2 where w: "runWorkers (getComic_worker e dbPath) fs1 xs = (outs, fs2)"
    by (cases "runWorkers (getComic_worker e dbPath) fs1 xs")
  have wx: "getComic_worker e dbPath fs x = (if fatal then Fatal else workerReturn e x, fs1)"
    using r by (simp add: worker_runOps)
  show ?case
    using Cons.IH [of fs1] r w wx
    by (cases fatal) (simp_all add: runOps_append workerReturn_not_Fatal workerReturn_not_Fatal [THEN not_sym])
qed

lemma main_list_order: "main e rateLimit dbPath0 fs = main_sched e rateLimit dbPath0 concat fs"
proof -
  have "\<And>fs1 missing dbPath tokens.
     (case getComic e missing dbPath tokens fs1 of
        (None, fs2) \<Rightarrow> (Deadlock, fs2)
      | (Some outs, fs2) \<Rightarrow>
          (if Fatal \<in> set outs then (FatalExit, fs2) else (Downloaded missing outs, fs2))) =
     (case getComic_sched e concat missing dbPath tokens fs1 of
        (None, fs2) \<Rightarrow> (Deadlock, fs2)
      | (Some fatal, fs2) \<Rightarrow>
          (if fatal then (FatalExit, fs2)
           else (Downloaded missing (map (workerReturn e) missing), fs2)))"
    subgoal for fs1 missing dbPath tokens
      using runWorkers_runOps [of e dbPath fs1 missing]
      by (auto simp: getComic_def getComic_sched_def split: prod.splits)
    done
  then show ?thesis
    by (simp add: main_def main_sched_def split: sum.splits prod.splits)
qed

subsection \<open>A call that cannot succeed ends the process\<close>

lemma keeps_applyOp: "keeps fs (fst (applyOp e fs x))"
  by (cases x) (simp_all add: applyOp_def keeps_Mkdir keeps_Create keeps_WriteString keeps_Copy)

lemma keeps_runOps: "keeps fs (snd (runOps e fs xs))"
proof (induction xs arbitrary: fs)
  case Nil
  show ?case by (simp add: keeps_refl)
next
  case (Cons x xs)
  obtain fs1 err where a: "applyOp e fs x = (fs1, err)" by (cases "applyOp e fs x")
  have k1: "keeps fs fs1" using keeps_applyOp [of fs e x] a by simp
  show ?case
    using k1 keeps_trans [OF k1 Cons.IH [of fs1]] by (simp add: a)
qed

lemma stuck_fails: "stuck e fs x \<Longrightarrow> snd (applyOp e fs x) \<noteq> None"
  by (cases x)
    (auto simp: stuck_def applyOp_def Mkdir_def Create_def WriteString_def Copy_def)

lemma stuck_keeps: "keeps fs fs' \<Longrightarrow> stuck e fs x \<Longrightarrow> stuck e fs' x"
  by (cases x) (auto simp: stuck_def keeps_def)

lemma runOps_stuck: "x \<in> set xs \<Longrightarrow> stuck e fs x \<Longrightarrow> fst (runOps e fs xs)"
proof (induction xs arbitrary: fs)
  case Nil
  then show ?case by simp
next
  case (Cons y ys)
  obtain fs1 err where a: "applyOp e fs y = (fs1, err)" by (cases "applyOp e fs y")
  show ?case
  proof (cases "err = None")
    case False
    then show ?thesis by (simp add: a)
  next
    case True
    have k: "keeps fs fs1" using keeps_applyOp [of fs e y] a by simp
    have s1: "stuck e fs1 x" using k Cons.prems(2) by (rule stuck_keeps)
    have "x \<noteq> y" using stuck_fails [OF Cons.prems(2)] a True by auto
    with Cons.prems(1) have "x \<in> set ys" by simp
    then have "fst (runOps e fs1 ys)" using s1 by (rule Cons.IH)
    then show ?thesis by (simp add: a True)
  qed
qed

lemma runOps_first_failure:
  "fst (runOps e fs xs) \<Longrightarrow>
   \<exists>pre x post. xs = pre @ x # post
      \<and> \<not> fst (runOps e fs pre)
      \<and> snd (applyOp e (snd (runOps e fs pre)) x) \<noteq> None
      \<and> (\<forall>rest. runOps e fs (pre @ x # rest) =
                   (True, fst (applyOp e (snd (runOps e fs pre)) x)))"
proof (induction xs arbitrary: fs)
  case Nil
  then show ?case by simp
next
  case (Cons y ys)
  obtain fs1 err where a: "applyOp e fs y = (fs1, err)" by (cases "applyOp e fs y")
  show ?case
  proof (cases "err = None")
    case False
    then have "y # ys = [] @ y # ys \<and> \<not> fst (runOps e fs [])
        \<and> snd (applyOp e (snd (runOps e fs [])) y) \<noteq> None
        \<and> (\<forall>rest. runOps e fs ([] @ y # rest) =
                   (True, fst (applyOp e (snd (runOps e fs [])) y)))"
      by (simp add: a)
    then show ?thesis by blast
  next
    case True
    with Cons.prems have "fst (runOps e fs1 ys)" by (simp add: a)
    from Cons.IH [OF this] obtain pre x post where p: "ys = pre @ x # post"
      and q: "\<not> fst (runOps e fs1 pre)"
      and r: "snd (applyOp e (snd (runOps e fs1 pre)) x) \<noteq> None"
      and s: "\<forall>rest. runOps e fs1 (pre @ x # rest) =
                   (True, fst (applyOp e (snd (runOps e fs1 pre)) x))"
      by blast
    have "y # ys = (y # pre) @ x # post \<and> \<not> fst (runOps e fs (y # pre))
        \<and> snd (applyOp e (snd (runOps e fs (y # pre))) x) \<noteq> None
        \<and> (\<forall>rest. runOps e fs ((y # pre) @ x # rest) =
                   (True, fst (applyOp e (snd (runOps e fs (y # pre))) x)))"
      using p q r s by (simp add: a True)
    then show ?thesis by blast
  qed
qed

lemma fsFailure_stuck:
  assumes "Get e (xkcdURL @ item @ ''/'' @ jsonFile) = Some body" "jsonDecode e body = Some c"
    and "fsFailure e dbPath fs item c"
  shows "\<exists>x\<in>set (workerOps e dbPath item). stuck e fs x"
proof -
  let ?sp = "dbPath @ item @ ''/''"
  from assms(3) consider
      (m) "snd (Mkdir e fs ?sp) \<noteq> None"
    | (a) "Alt c \<noteq> []" "createFault e (?sp @ item @ ''-alt'') \<or> writeFault e (?sp @ item @ ''-alt'')"
    | (t) "Transcript c \<noteq> []"
          "createFault e (?sp @ item @ ''-transcript'') \<or> writeFault e (?sp @ item @ ''-transcript'')"
    | (i) "Get e (Img c) \<noteq> None" "imgName c \<noteq> []"
          "createFault e (?sp @ imgName c) \<or> copyFault e (?sp @ imgName c)"
    by (auto simp: fsFailure_def Let_def)
  then show ?thesis
  proof cases
    case m
    then have "stuck e fs (OpMkdir ?sp)"
      by (auto simp: stuck_def Mkdir_def split: if_splits)
    moreover have "OpMkdir ?sp \<in> set (workerOps e dbPath item)"
      using assms(1,2) by (simp add: workerOps_def Let_def)
    ultimately show ?thesis by blast
  next
    case a
    then have "stuck e fs (OpCreate (?sp @ item @ ''-alt''))
         \<or> stuck e fs (OpWriteString (?sp @ item @ ''-alt'') (Alt c))"
      by (auto simp: stuck_def)
    moreover have "OpCreate (?sp @ item @ ''-alt'') \<in> set (workerOps e dbPath item)"
      and "OpWriteString (?sp @ item @ ''-alt'') (Alt c) \<in> set (workerOps e dbPath item)"
      using assms(1,2) a(1) by (simp_all add: workerOps_def writeFileOps_def Let_def)
    ultimately show ?thesis by blast
  next
    case t
    then have "stuck e fs (OpCreate (?sp @ item @ ''-transcript''))
         \<or> stuck e fs (OpWriteString (?sp @ item @ ''-transcript'') (Transcript c))"
      by (auto simp: stuck_def)
    moreover have "OpCreate (?sp @ item @ ''-transcript'') \<in> set (workerOps e dbPath item)"
      and "OpWriteString (?sp @ item @ ''-transcript'') (Transcript c)
             \<in> set (workerOps e dbPath item)"
      using assms(1,2) t(1) by (simp_all add: workerOps_def writeFileOps_def Let_def)
    ultimately show ?thesis by blast
  next
    case i
    from i(1) obtain imgBody where g: "Get e (Img c) = Some imgBody" by auto
    from i(3) have "stuck e fs (OpCreate (?sp @ imgName c))
         \<or> stuck e fs (OpCopy (?sp @ imgName c) imgBody)"
      by (auto simp: stuck_def)
    moreover have "OpCreate (?sp @ imgName c) \<in> set (workerOps e dbPath item)"
      and "OpCopy (?sp @ imgName c) imgBody \<in> set (workerOps e dbPath item)"
      using assms(1,2) g i(2) by (simp_all add: workerOps_def writeImageOps_def Let_def)
    ultimately show ?thesis by blast
  qed
qed

lemma fsFailure_xkcd_stuck:
  assumes "Get e (xkcdURL @ item @ ''/'' @ jsonFile) = Some body" "jsonDecode e body = Some c"
    and "fsFailure_xkcd e fs item c"
  shows "\<exists>x\<in>set (workerOps_xkcd e item). stuck e fs x"
proof -
  let ?sp = "dbPath_const @ item @ ''/''"
  from assms(3) consider
      (m) "snd (Mkdir e fs ?sp) \<noteq> None"
    | (a) "createFault e (?sp @ item @ ''-alt'') \<or> writeFault e (?sp @ item @ ''-alt'')"
    | (t) "createFault e (?sp @ item @ ''-transcript'') \<or> writeFault e (?sp @ item @ ''-transcript'')"
    | (i) "Get e (Img c) \<noteq> None" "imgName c \<noteq> []"
          "createFault e (?sp @ imgName c) \<or> copyFault e (?sp @ imgName c)"
    by (auto simp: fsFailure_xkcd_def Let_def)
  then show ?thesis
  proof cases
    case m
    then have "stuck e fs (OpMkdir ?sp)"
      by (auto simp: stuck_def Mkdir_def split: if_splits)
    moreover have "OpMkdir ?sp \<in> set (workerOps_xkcd e item)"
      using assms(1,2) by (simp add: workerOps_xkcd_def Let_def)
    ultimately show ?thesis by blast
  next
    case a
    then have "stuck e fs (OpCreate (?sp @ item @ ''-alt''))
         \<or> stuck e fs (OpWriteString (?sp @ item @ ''-alt'') (Alt c))"
      by (auto simp: stuck_def)
    moreover have "OpCreate (?sp @ item @ ''-alt'') \<in> set (workerOps_xkcd e item)"
      and "OpWriteString (?sp @ item @ ''-alt'') (Alt c) \<in> set (workerOps_xkcd e item)"
      using assms(1,2) by (simp_all add: workerOps_xkcd_def writeFileOps_def Let_def)
    ultimately show ?thesis by blast
  next
    case t
    then have "stuck e fs (OpCreate (?sp @ item @ ''-transcript''))
         \<or> stuck e fs (OpWriteString (?sp @ item @ ''-transcript'') (Transcript c))"
      by (auto simp: stuck_def)
    moreover have "OpCreate (?sp @ item @ ''-transcript'') \<in> set (workerOps_xkcd e item)"
      and "OpWriteString (?sp @ item @ ''-transcript'') (Transcript c)
             \<in> set (workerOps_xkcd e item)"
      using assms(1,2) by (simp_all add: workerOps_xkcd_def writeFileOps_def Let_def)
    ultimately show ?thesis by blast
  next
    case i
    from i(1) obtain imgBody where g: "Get e (Img c) = Some imgBody" by auto
    from i(3) have "stuck e fs (OpCreate (?sp @ imgName c))
         \<or> stuck e fs (OpCopy (?sp @ imgName c) imgBody)"
      by (auto simp: stuck_def)
    moreover have "OpCreate (?sp @ imgName c) \<in> set (workerOps_xkcd e item)"
      and "OpCopy (?sp @ imgName c) imgBody \<in> set (workerOps_xkcd e item)"
      using assms(1,2) g i(2) by (simp_all add: workerOps_xkcd_def writeImageOps_def Let_def)
    ultimately show ?thesis by blast
  qed
qed

text \<open>Under every schedule a stuck call of one of the goroutines ends the process.\<close>

lemma interleaving_stuck:
  assumes "item \<in> set dlList" "x \<in> set (ops item)" "stuck e fs x"
    and "sch \<in> interleavings (map ops dlList)"
  shows "fst (runOps e fs sch)"
proof -
  from assms(4) have "set sch = \<Union> (set ` set (map ops dlList))" by (rule set_interleavings)
  with assms(1,2) have "x \<in> set sch" by auto
  then show ?thesis using assms(3) by (rule runOps_stuck)
qed

lemma runBlocks_stuck:
  assumes "\<forall>xss. sched xss \<in> interleavings xss"
    and "item \<in> set (concat dlList)" "x \<in> set (workerOps_xkcd e item)" "stuck e fs x"
  shows "fst (runBlocks e sched fs dlList)"
  using assms(2,4)
proof (induction dlList arbitrary: fs)
  case Nil
  then show ?case by simp
next
  case (Cons comics dlList)
  obtain fatal fs1 where g: "getComic_xkcd_sched e sched comics fs = (fatal, fs1)"
    by (cases "getComic_xkcd_sched e sched comics fs")
  show ?case
  proof (cases fatal)
    case True
    then show ?thesis by (simp add: g)
  next
    case False
    have sch: "sched (map (workerOps_xkcd e) comics) \<in> interleavings (map (workerOps_xkcd e) comics)"
      using assms(1) by blast
    have "item \<notin> set comics"
    proof
      assume "item \<in> set comics"
      then have "fst (runOps e fs (sched (map (workerOps_xkcd e) comics)))"
        using assms(3) Cons.prems(2) sch by (rule interleaving_stuck)
      with g False show False by (simp add: getComic_xkcd_sched_def)
    qed
    with Cons.prems(1) have i: "item \<in> set (concat dlList)" by simp
    have "fs1 = snd (runOps e fs (sched (map (workerOps_xkcd e) comics)))"
      using g by (simp add: getComic_xkcd_sched_def)
    then have "keeps fs fs1" by (simp add: keeps_runOps)
    then have "stuck e fs1 x" using Cons.prems(2) by (rule stuck_keeps)
    with i have "fst (runBlocks e sched fs1 dlList)" by (rule Cons.IH)
    then show ?thesis by (simp add: g False)
  qed
qed

lemma runBlocks_append:
  "runBlocks e sched fs (xs @ ys) =
     (case runBlocks e sched fs xs of
        (fatal, fs1) \<Rightarrow> if fatal then (True, fs1) else runBlocks e sched fs1 ys)"
  by (induction xs arbitrary: fs) (simp_all split: prod.splits)

lemma runBlocks_block_fatal:
  assumes "item \<in> set comics" "x \<in> set (workerOps_xkcd e item)"
    and "\<not> fst (runBlocks e sched fs before)"
    and "stuck e (snd (runBlocks e sched fs before)) x"
    and "sched (map (workerOps_xkcd e) comics) \<in> interleavings (map (workerOps_xkcd e) comics)"
  shows "runBlocks e sched fs (before @ comics # later) =
           (True, snd (getComic_xkcd_sched e sched comics (snd (runBlocks e sched fs before))))"
proof -
  obtain fs1 where b: "runBlocks e sched fs before = (False, fs1)"
    using assms(3) by (cases "runBlocks e sched fs before") simp
  have "fst (runOps e fs1 (sched (map (workerOps_xkcd e) comics)))"
    using assms(1,2) assms(4) [unfolded b snd_conv] assms(5) by (rule interleaving_stuck)
  then obtain fs2 where g: "getComic_xkcd_sched e sched comics fs1 = (True, fs2)"
    by (cases "getComic_xkcd_sched e sched comics fs1") (simp add: getComic_xkcd_sched_def)
  show ?thesis
    by (simp add: runBlocks_append b g)
qed

lemma main_sched_fatal:
  assumes "addTrailingSlash dbPath0 = Inr p" "latestComicNum e = Inr N"
    and "(if IsNotExist (Stat e fs0 p) then Mkdir e fs0 p else (fs0, None)) = (fs1, None)"
    and "missingComics e fs1 N p = Inr missing" "0 < rateLimit"
    and "item \<in> set missing" "x \<in> set (workerOps e p item)" "stuck e fs1 x"
    and "sched (map (workerOps e p) missing) \<in> interleavings (map (workerOps e p) missing)"
  shows "fst (main_sched e rateLimit dbPath0 sched fs0) = FatalExit"
proof -
  have f: "fst (runOps e fs1 (sched (map (workerOps e p) missing)))"
    using assms(6,7,8,9) by (rule interleaving_stuck)
  from assms(6) have ne: "missing \<noteq> []" by auto
  obtain fs2 where r: "runOps e fs1 (sched (map (workerOps e p) missing)) = (True, fs2)"
    using f by (cases "runOps e fs1 (sched (map (workerOps e p) missing))") simp
  show ?thesis
    using assms(1-5) ne r
    by (simp add: main_sched_def getComic_sched_def)
qed

lemma main_xkcd_fatal:
  assumes "latestComicNum e = Inr N"
    and "(if IsNotExist (Stat e fs0 dbPath_const) then Mkdir e fs0 dbPath_const else (fs0, None))
           = (fs1, None)"
    and "missingComics_xkcd e fs1 N = Inr missing"
    and "item \<in> set missing" "x \<in> set (workerOps_xkcd e item)" "stuck e fs1 x"
    and "\<forall>xss. sched xss \<in> interleavings xss"
  shows "fst (main_xkcd e sched fs0) = FatalExit"
proof -
  have s: "splitSlice missing 200 = Inr (chunksSpec missing 200)"
    by (rule splitSlice_eq) simp
  have "concat (chunksSpec missing 200) = missing"
    by (rule concat_chunksSpec) simp
  with assms(4) have "item \<in> set (concat (chunksSpec missing 200))" by simp
  with assms(7) have f: "fst (runBlocks e sched fs1 (chunksSpec missing 200))"
    using assms(5,6) by (rule runBlocks_stuck)
  from assms(4) have ne: "missing \<noteq> []" by auto
  obtain fs2 where r: "runBlocks e sched fs1 (chunksSpec missing 200) = (True, fs2)"
    using f by (cases "runBlocks e sched fs1 (chunksSpec missing 200)") simp
  show ?thesis
    using assms(1-3) ne r s
    by (simp add: main_xkcd_def Let_def)
qed

subsection \<open>A run of two goroutines that alternate\<close>

lemma interleavings_pair: "interleavings [xs, ys] = shuffles xs ys"
  by simp

lemma ops_pair_1:
  "workerOps pairEnv ''db/'' ''1'' =
     [OpMkdir ''db/1/'', OpCreate ''db/1/1-alt'', OpWriteString ''db/1/1-alt'' ''A'',
      OpCreate ''db/1/a.png'', OpCopy ''db/1/a.png'' ''PNG'']"
  by (simp add: workerOps_def writeFileOps_def writeImageOps_def model_defs pairEnv_def
      quietEnv_def comic1_def)

lemma ops_pair_2:
  "workerOps pairEnv ''db/'' ''2'' =
     [OpMkdir ''db/2/'', OpCreate ''db/2/2-alt'', OpWriteString ''db/2/2-alt'' ''B'']"
  by (simp add: workerOps_def writeFileOps_def writeImageOps_def model_defs pairEnv_def
      quietEnv_def comic2_def)

lemma ops_xkcd_pair_1:
  "workerOps_xkcd pairEnv ''1'' =
     [OpMkdir ''./xkcdDB/1/'', OpCreate ''./xkcdDB/1/1-alt'',
      OpWriteString ''./xkcdDB/1/1-alt'' ''A'', OpCreate ''./xkcdDB/1/1-transcript'',
      OpWriteString ''./xkcdDB/1/1-transcript'' [], OpCreate ''./xkcdDB/1/a.png'',
      OpCopy ''./xkcdDB/1/a.png'' ''PNG'']"
  by (simp add: workerOps_xkcd_def writeFileOps_def writeImageOps_def model_defs pairEnv_def
      quietEnv_def comic1_def)

lemma ops_xkcd_pair_2:
  "workerOps_xkcd pairEnv ''2'' =
     [OpMkdir ''./xkcdDB/2/'', OpCreate ''./xkcdDB/2/2-alt'',
      OpWriteString ''./xkcdDB/2/2-alt'' ''B'', OpCreate ''./xkcdDB/2/2-transcript'',
      OpWriteString ''./xkcdDB/2/2-transcript'' []]"
  by (simp add: workerOps_xkcd_def writeFileOps_def writeImageOps_def model_defs pairEnv_def
      quietEnv_def comic2_def)

lemma pairOrder_interleaving:
  "pairOrder \<in> interleavings (map (workerOps pairEnv ''db/'') [''1'', ''2''])"
  by (simp add: interleavings_pair ops_pair_1 ops_pair_2 pairOrder_def Cons_in_shuffles_iff
      del: shuffles.simps interleavings.simps)

lemma pairOrder_xkcd_interleaving:
  "pairOrder_xkcd \<in> interleavings (map (workerOps_xkcd pairEnv) [''1'', ''2''])"
  by (simp add: interleavings_pair ops_xkcd_pair_1 ops_xkcd_pair_2 pairOrder_xkcd_def
      Cons_in_shuffles_iff del: shuffles.simps interleavings.simps)

lemma run_pairOrder:
  "runOps pairEnv (Map.empty(''db'' \<mapsto> Dir)) pairOrder =
     (True, Map.empty(''db'' \<mapsto> Dir, ''db/2'' \<mapsto> Dir, ''db/1'' \<mapsto> Dir,
                      ''db/2/2-alt'' \<mapsto> File [], ''db/1/1-alt'' \<mapsto> File []))"
  by (simp add: pairOrder_def applyOp_def model_defs pairEnv_def quietEnv_def)

lemma run_pairOrder_xkcd:
  "runOps pairEnv (Map.empty(''./xkcdDB'' \<mapsto> Dir)) pairOrder_xkcd =
     (True, Map.empty(''./xkcdDB'' \<mapsto> Dir, ''./xkcdDB/1'' \<mapsto> Dir,
                      ''./xkcdDB/1/1-alt'' \<mapsto> File ''A'', ''./xkcdDB/2'' \<mapsto> Dir,
                      ''./xkcdDB/1/1-transcript'' \<mapsto> File [],
                      ''./xkcdDB/2/2-alt'' \<mapsto> File [], ''./xkcdDB/1/a.png'' \<mapsto> File []))"
  by (simp add: pairOrder_xkcd_def applyOp_def model_defs pairEnv_def quietEnv_def)

lemma latest_pair: "latestComicNum pairEnv = Inr 2"
  by (simp add: latestComicNum_def model_defs pairEnv_def quietEnv_def comic2_def)

lemma makesliceOK_pair: "makesliceOK pairEnv 2"
  by (simp add: makesliceOK_def pairEnv_def quietEnv_def)

lemma missing_pair: "missingComics pairEnv (Map.empty(''db'' \<mapsto> Dir)) 2 ''db/'' = Inr [''1'', ''2'']"
  unfolding missingComics_eq [OF makesliceOK_pair]
  by (simp add: missingIndices_def upto_1_2 Itoa_1 Itoa_2 Stat_def
      IsNotExist_def dirName_def pairEnv_def quietEnv_def)

lemma missing_xkcd_pair:
  "missingComics_xkcd pairEnv (Map.empty(''./xkcdDB'' \<mapsto> Dir)) 2 = Inr [''1'', ''2'']"
  unfolding missingComics_xkcd_def missingComics_eq [OF makesliceOK_pair]
  by (simp add: missingIndices_def upto_1_2 Itoa_1 Itoa_2 Stat_def
      IsNotExist_def dirName_def pairEnv_def quietEnv_def dbPath_const_def)

lemma root_pair:
  "(if IsNotExist (Stat pairEnv Map.empty ''db/'') then Mkdir pairEnv Map.empty ''db/''
    else (Map.empty, None)) = (Map.empty(''db'' \<mapsto> Dir), None)"
  by (simp add: IsNotExist_def Stat_def Mkdir_def dirName_def pairEnv_def quietEnv_def)

lemma root_xkcd_pair:
  "(if IsNotExist (Stat pairEnv Map.empty dbPath_const) then Mkdir pairEnv Map.empty dbPath_const
    else (Map.empty, None)) = (Map.empty(''./xkcdDB'' \<mapsto> Dir), None)"
  by (simp add: IsNotExist_def Stat_def Mkdir_def dirName_def pairEnv_def quietEnv_def
      dbPath_const_def)

lemma main_sched_pair:
  "main_sched pairEnv 20 ''db'' (followSched pairOrder) Map.empty =
     (FatalExit, Map.empty(''db'' \<mapsto> Dir, ''db/2'' \<mapsto> Dir, ''db/1'' \<mapsto> Dir,
                           ''db/2/2-alt'' \<mapsto> File [], ''db/1/1-alt'' \<mapsto> File []))"
proof -
  have a: "addTrailingSlash ''db'' = Inr ''db/''" by (simp add: addTrailingSlash_def)
  have s: "followSched pairOrder (map (workerOps pairEnv ''db/'') [''1'', ''2'']) = pairOrder"
    using pairOrder_interleaving by (simp only: followSched_def if_True)
  have g: "getComic_sched pairEnv (followSched pairOrder) [''1'', ''2''] ''db/'' 20
             (Map.empty(''db'' \<mapsto> Dir)) =
           (Some True, Map.empty(''db'' \<mapsto> Dir, ''db/2'' \<mapsto> Dir, ''db/1'' \<mapsto> Dir,
                           ''db/2/2-alt'' \<mapsto> File [], ''db/1/1-alt'' \<mapsto> File []))"
    unfolding getComic_sched_def s by (simp add: run_pairOrder)
  show ?thesis
    unfolding main_sched_def a using root_pair
    by (simp add: latest_pair missing_pair g)
qed

lemma main_pair:
  "main pairEnv 20 ''db'' Map.empty =
     (FatalExit, Map.empty(''db'' \<mapsto> Dir, ''db/1'' \<mapsto> Dir, ''db/1/1-alt'' \<mapsto> File []))"
proof -
  have a: "addTrailingSlash ''db'' = Inr ''db/''" by (simp add: addTrailingSlash_def)
  have w: "getComic_worker pairEnv ''db/'' (Map.empty(''db'' \<mapsto> Dir)) ''1'' =
      (Fatal, Map.empty(''db'' \<mapsto> Dir, ''db/1'' \<mapsto> Dir, ''db/1/1-alt'' \<mapsto> File []))"
    by (simp add: model_defs pairEnv_def quietEnv_def comic1_def)
  have g: "getComic pairEnv [''1'', ''2''] ''db/'' 20 (Map.empty(''db'' \<mapsto> Dir)) =
      (Some [Fatal], Map.empty(''db'' \<mapsto> Dir, ''db/1'' \<mapsto> Dir, ''db/1/1-alt'' \<mapsto> File []))"
    by (simp add: getComic_def w)
  show ?thesis
    unfolding main_def a using root_pair
    by (simp add: latest_pair missing_pair g)
qed

lemma splitSlice_pair: "splitSlice [''1'', ''2''] 200 = Inr [[''1'', ''2'']]"
  by (simp add: splitSlice_def go_quo_def go_rem_def splitSlice_loop.simps slice_def Let_def)

lemma getComic_xkcd_sched_pair:
  "getComic_xkcd_sched pairEnv (followSched pairOrder_xkcd) [''1'', ''2'']
     (Map.empty(''./xkcdDB'' \<mapsto> Dir)) =
   (True, Map.empty(''./xkcdDB'' \<mapsto> Dir, ''./xkcdDB/1'' \<mapsto> Dir,
                    ''./xkcdDB/1/1-alt'' \<mapsto> File ''A'', ''./xkcdDB/2'' \<mapsto> Dir,
                    ''./xkcdDB/1/1-transcript'' \<mapsto> File [],
                    ''./xkcdDB/2/2-alt'' \<mapsto> File [], ''./xkcdDB/1/a.png'' \<mapsto> File []))"
proof -
  have s: "followSched pairOrder_xkcd (map (workerOps_xkcd pairEnv) [''1'', ''2'']) = pairOrder_xkcd"
    using pairOrder_xkcd_interleaving by (simp only: followSched_def if_True)
  show ?thesis
    unfolding getComic_xkcd_sched_def s by (simp add: run_pairOrder_xkcd)
qed

lemma main_xkcd_pair:
  "main_xkcd pairEnv (followSched pairOrder_xkcd) Map.empty =
     (FatalExit, Map.empty(''./xkcdDB'' \<mapsto> Dir, ''./xkcdDB/1'' \<mapsto> Dir,
                      ''./xkcdDB/1/1-alt'' \<mapsto> File ''A'', ''./xkcdDB/2'' \<mapsto> Dir,
                      ''./xkcdDB/1/1-transcript'' \<mapsto> File [],
                      ''./xkcdDB/2/2-alt'' \<mapsto> File [], ''./xkcdDB/1/a.png'' \<mapsto> File []))"
  unfolding main_xkcd_def using root_xkcd_pair
  by (simp add: latest_pair missing_xkcd_pair splitSlice_pair getComic_xkcd_sched_pair)

subsection \<open>Fatal file-system errors\<close>

text \<open>
  Claim C5. Once the metadata of an item is decoded, a failure to make its directory
  or to create or write one of its files (metadata or asset, the byte copy included)
  ends its goroutine in \<open>log.Fatalln\<close>, which exits the process with status 1; the
  goroutine is the run of its calls, which stops at the first call that fails. Under
  every schedule of the goroutines of a call of \<open>getComic\<close> in which the item takes
  part, the process exits: the order of the calls has a first call that fails, the run
  ends with it, and neither the result nor the file system depends on what was
  scheduled after it. So \<open>main\<close> ends in the fatal exit and never reports the
  downloads: in the version with flags for every positive capacity of the semaphore
  and every schedule, the list order of \<open>main\<close> among them; in \<open>xkcd.go\<close> for every
  scheduler, in whichever block the item lies; the run of the blocks ends with the
  block of the item, whatever blocks come after it.
\<close>

theorem filesystem_failure_fatal:
  assumes "Get e (xkcdURL @ item @ ''/'' @ jsonFile) = Some body"
    and "jsonDecode e body = Some c"
  shows "(fsFailure e dbPath fs item c \<longrightarrow> fst (getComic_worker e dbPath fs item) = Fatal)
     \<and> (fsFailure_xkcd e fs item c \<longrightarrow> fst (getComic_worker_xkcd e fs item) = Fatal)
     \<and> getComic_worker e dbPath fs item =
         (case runOps e fs (workerOps e dbPath item) of
            (fatal, fs1) \<Rightarrow> (if fatal then Fatal else workerReturn e item, fs1))
     \<and> getComic_worker_xkcd e fs item =
         (case runOps e fs (workerOps_xkcd e item) of
            (fatal, fs1) \<Rightarrow> (if fatal then Fatal else workerReturn e item, fs1))
     \<and> (item \<in> set dlList \<and> fsFailure e dbPath fs item c
          \<and> sch \<in> interleavings (map (workerOps e dbPath) dlList) \<longrightarrow>
          (\<exists>pre x post. sch = pre @ x # post
              \<and> \<not> fst (runOps e fs pre)
              \<and> snd (applyOp e (snd (runOps e fs pre)) x) \<noteq> None
              \<and> (\<forall>rest. runOps e fs (pre @ x # rest) =
                           (True, fst (applyOp e (snd (runOps e fs pre)) x)))))
     \<and> (item \<in> set dlList \<and> fsFailure_xkcd e fs item c
          \<and> sch \<in> interleavings (map (workerOps_xkcd e) dlList) \<longrightarrow>
          (\<exists>pre x post. sch = pre @ x # post
              \<and> \<not> fst (runOps e fs pre)
              \<and> snd (applyOp e (snd (runOps e fs pre)) x) \<noteq> None
              \<and> (\<forall>rest. runOps e fs (pre @ x # rest) =
                           (True, fst (applyOp e (snd (runOps e fs pre)) x)))))
     \<and> (addTrailingSlash dbPath0 = Inr p \<and> latestComicNum e = Inr N
          \<and> (if IsNotExist (Stat e fs0 p) then Mkdir e fs0 p else (fs0, None)) = (fs1, None)
          \<and> missingComics e fs1 N p = Inr missing \<and> 0 < rateLimit
          \<and> item \<in> set missing \<and> fsFailure e p fs1 item c \<longrightarrow>
          fst (main e rateLimit dbPath0 fs0) = FatalExit
          \<and> (sched (map (workerOps e p) missing) \<in> interleavings (map (workerOps e p) missing)
               \<longrightarrow> fst (main_sched e rateLimit dbPath0 sched fs0) = FatalExit))
     \<and> (latestComicNum e = Inr N
          \<and> (if IsNotExist (Stat e fs0 dbPath_const) then Mkdir e fs0 dbPath_const
              else (fs0, None)) = (fs1, None)
          \<and> missingComics_xkcd e fs1 N = Inr missing
          \<and> item \<in> set missing \<and> fsFailure_xkcd e fs1 item c
          \<and> (\<forall>xss. sched xss \<in> interleavings xss) \<longrightarrow>
          fst (main_xkcd e sched fs0) = FatalExit)
     \<and> (item \<in> set comics \<and> \<not> fst (runBlocks e sched fs before)
          \<and> fsFailure_xkcd e (snd (runBlocks e sched fs before)) item c
          \<and> sched (map (workerOps_xkcd e) comics)
               \<in> interleavings (map (workerOps_xkcd e) comics) \<longrightarrow>
          runBlocks e sched fs (before @ comics # later) =
            (True, snd (getComic_xkcd_sched e sched comics
                          (snd (runBlocks e sched fs before)))))"
proof -
  note gd = assms
  have 1: "fsFailure e dbPath fs item c \<longrightarrow> fst (getComic_worker e dbPath fs item) = Fatal"
    using worker_fsFailure [OF gd] by blast
  have 2: "fsFailure_xkcd e fs item c \<longrightarrow> fst (getComic_worker_xkcd e fs item) = Fatal"
    using worker_xkcd_fsFailure [OF gd] by blast
  have 3: "item \<in> set dlList \<and> fsFailure e dbPath fs item c
          \<and> sch \<in> interleavings (map (workerOps e dbPath) dlList) \<longrightarrow>
          (\<exists>pre x post. sch = pre @ x # post
              \<and> \<not> fst (runOps e fs pre)
              \<and> snd (applyOp e (snd (runOps e fs pre)) x) \<noteq> None
              \<and> (\<forall>rest. runOps e fs (pre @ x # rest) =
                           (True, fst (applyOp e (snd (runOps e fs pre)) x))))"
  proof
    assume a: "item \<in> set dlList \<and> fsFailure e dbPath fs item c
          \<and> sch \<in> interleavings (map (workerOps e dbPath) dlList)"
    then obtain x where x: "x \<in> set (workerOps e dbPath item)" "stuck e fs x"
      using fsFailure_stuck [OF gd] by blast
    from a have "item \<in> set dlList" "sch \<in> interleavings (map (workerOps e dbPath) dlList)"
      by simp_all
    with x have "fst (runOps e fs sch)"
      using interleaving_stuck [of item dlList x "workerOps e dbPath" e fs sch] by simp
    then show "\<exists>pre x post. sch = pre @ x # post
              \<and> \<not> fst (runOps e fs pre)
              \<and> snd (applyOp e (snd (runOps e fs pre)) x) \<noteq> None
              \<and> (\<forall>rest. runOps e fs (pre @ x # rest) =
                           (True, fst (applyOp e (snd (runOps e fs pre)) x)))"
      by (rule runOps_first_failure)
  qed
  have 4: "item \<in> set dlList \<and> fsFailure_xkcd e fs item c
          \<and> sch \<in> interleavings (map (workerOps_xkcd e) dlList) \<longrightarrow>
          (\<exists>pre x post. sch = pre @ x # post
              \<and> \<not> fst (runOps e fs pre)
              \<and> snd (applyOp e (snd (runOps e fs pre)) x) \<noteq> None
              \<and> (\<forall>rest. runOps e fs (pre @ x # rest) =
                           (True, fst (applyOp e (snd (runOps e fs pre)) x))))"
  proof
    assume a: "item \<in> set dlList \<and> fsFailure_xkcd e fs item c
          \<and> sch \<in> interleavings (map (workerOps_xkcd e) dlList)"
    then obtain x where x: "x \<in> set (workerOps_xkcd e item)" "stuck e fs x"
      using fsFailure_xkcd_stuck [OF gd] by blast
    from a have "item \<in> set dlList" "sch \<in> interleavings (map (workerOps_xkcd e) dlList)"
      by simp_all
    with x have "fst (runOps e fs sch)"
      using interleaving_stuck [of item dlList x "workerOps_xkcd e" e fs sch] by simp
    then show "\<exists>pre x post. sch = pre @ x # post
              \<and> \<not> fst (runOps e fs pre)
              \<and> snd (applyOp e (snd (runOps e fs pre)) x) \<noteq> None
              \<and> (\<forall>rest. runOps e fs (pre @ x # rest) =
                           (True, fst (applyOp e (snd (runOps e fs pre)) x)))"
      by (rule runOps_first_failure)
  qed
  have 5: "addTrailingSlash dbPath0 = Inr p \<and> latestComicNum e = Inr N
          \<and> (if IsNotExist (Stat e fs0 p) then Mkdir e fs0 p else (fs0, None)) = (fs1, None)
          \<and> missingComics e fs1 N p = Inr missing \<and> 0 < rateLimit
          \<and> item \<in> set missing \<and> fsFailure e p fs1 item c \<longrightarrow>
          fst (main e rateLimit dbPath0 fs0) = FatalExit
          \<and> (sched (map (workerOps e p) missing) \<in> interleavings (map (workerOps e p) missing)
               \<longrightarrow> fst (main_sched e rateLimit dbPath0 sched fs0) = FatalExit)"
  proof
    assume a: "addTrailingSlash dbPath0 = Inr p \<and> latestComicNum e = Inr N
          \<and> (if IsNotExist (Stat e fs0 p) then Mkdir e fs0 p else (fs0, None)) = (fs1, None)
          \<and> missingComics e fs1 N p = Inr missing \<and> 0 < rateLimit
          \<and> item \<in> set missing \<and> fsFailure e p fs1 item c"
    then have h: "addTrailingSlash dbPath0 = Inr p" "latestComicNum e = Inr N"
      "(if IsNotExist (Stat e fs0 p) then Mkdir e fs0 p else (fs0, None)) = (fs1, None)"
      "missingComics e fs1 N p = Inr missing" "0 < rateLimit" "item \<in> set missing"
      by simp_all
    from a obtain x where x: "x \<in> set (workerOps e p item)" "stuck e fs1 x"
      using fsFailure_stuck [OF gd] by blast
    have "fst (main_sched e rateLimit dbPath0 concat fs0) = FatalExit"
      using h x concat_interleavings by (rule main_sched_fatal)
    then have m: "fst (main e rateLimit dbPath0 fs0) = FatalExit"
      by (simp only: main_list_order)
    have s: "sched (map (workerOps e p) missing) \<in> interleavings (map (workerOps e p) missing)
               \<longrightarrow> fst (main_sched e rateLimit dbPath0 sched fs0) = FatalExit"
      using main_sched_fatal [OF h x] by blast
    from m s show "fst (main e rateLimit dbPath0 fs0) = FatalExit
          \<and> (sched (map (workerOps e p) missing) \<in> interleavings (map (workerOps e p) missing)
               \<longrightarrow> fst (main_sched e rateLimit dbPath0 sched fs0) = FatalExit)" ..
  qed
  have 6: "latestComicNum e = Inr N
          \<and> (if IsNotExist (Stat e fs0 dbPath_const) then Mkdir e fs0 dbPath_const
              else (fs0, None)) = (fs1, None)
          \<and> missingComics_xkcd e fs1 N = Inr missing
          \<and> item \<in> set missing \<and> fsFailure_xkcd e fs1 item c
          \<and> (\<forall>xss. sched xss \<in> interleavings xss) \<longrightarrow>
          fst (main_xkcd e sched fs0) = FatalExit"
  proof
    assume a: "latestComicNum e = Inr N
          \<and> (if IsNotExist (Stat e fs0 dbPath_const) then Mkdir e fs0 dbPath_const
              else (fs0, None)) = (fs1, None)
          \<and> missingComics_xkcd e fs1 N = Inr missing
          \<and> item \<in> set missing \<and> fsFailure_xkcd e fs1 item c
          \<and> (\<forall>xss. sched xss \<in> interleavings xss)"
    then have h: "latestComicNum e = Inr N"
      "(if IsNotExist (Stat e fs0 dbPath_const) then Mkdir e fs0 dbPath_const
              else (fs0, None)) = (fs1, None)"
      "missingComics_xkcd e fs1 N = Inr missing" "item \<in> set missing"
      and v: "\<forall>xss. sched xss \<in> interleavings xss"
      by simp_all
    from a obtain x where x: "x \<in> set (workerOps_xkcd e item)" "stuck e fs1 x"
      using fsFailure_xkcd_stuck [OF gd] by blast
    from h x v show "fst (main_xkcd e sched fs0) = FatalExit" by (rule main_xkcd_fatal)
  qed
  have 7: "item \<in> set comics \<and> \<not> fst (runBlocks e sched fs before)
          \<and> fsFailure_xkcd e (snd (runBlocks e sched fs before)) item c
          \<and> sched (map (workerOps_xkcd e) comics)
               \<in> interleavings (map (workerOps_xkcd e) comics) \<longrightarrow>
          runBlocks e sched fs (before @ comics # later) =
            (True, snd (getComic_xkcd_sched e sched comics
                          (snd (runBlocks e sched fs before))))"
  proof
    assume a: "item \<in> set comics \<and> \<not> fst (runBlocks e sched fs before)
          \<and> fsFailure_xkcd e (snd (runBlocks e sched fs before)) item c
          \<and> sched (map (workerOps_xkcd e) comics)
               \<in> interleavings (map (workerOps_xkcd e) comics)"
    then obtain x where x: "x \<in> set (workerOps_xkcd e item)"
        "stuck e (snd (runBlocks e sched fs before)) x"
      using fsFailure_xkcd_stuck [OF gd] by blast
    from a have h: "item \<in> set comics" "\<not> fst (runBlocks e sched fs before)"
      "sched (map (workerOps_xkcd e) comics) \<in> interleavings (map (workerOps_xkcd e) comics)"
      by simp_all
    from h(1) x(1) h(2) x(2) h(3)
    show "runBlocks e sched fs (before @ comics # later) =
            (True, snd (getComic_xkcd_sched e sched comics
                          (snd (runBlocks e sched fs before))))"
      by (rule runBlocks_block_fatal)
  qed
  from 1 2 worker_runOps worker_xkcd_runOps 3 4 5 6 7 show ?thesis
    by (intro conjI)
qed

theorem filesystem_failure_fatal_witness:
  "Get pairEnv (xkcdURL @ ''1'' @ ''/'' @ jsonFile) = Some ''c1''
   \<and> jsonDecode pairEnv ''c1'' = Some comic1
   \<and> fsFailure pairEnv ''db/'' (Map.empty(''db'' \<mapsto> Dir)) ''1'' comic1
   \<and> fst (getComic_worker pairEnv ''db/'' (Map.empty(''db'' \<mapsto> Dir)) ''1'') = Fatal
   \<and> ''1'' \<in> set [''1'', ''2'']
   \<and> pairOrder \<in> interleavings (map (workerOps pairEnv ''db/'') [''1'', ''2''])
   \<and> (\<exists>pre x post. pairOrder = pre @ x # post
         \<and> \<not> fst (runOps pairEnv (Map.empty(''db'' \<mapsto> Dir)) pre)
         \<and> snd (applyOp pairEnv (snd (runOps pairEnv (Map.empty(''db'' \<mapsto> Dir)) pre)) x) \<noteq> None
         \<and> (\<forall>rest. runOps pairEnv (Map.empty(''db'' \<mapsto> Dir)) (pre @ x # rest) =
               (True, fst (applyOp pairEnv
                             (snd (runOps pairEnv (Map.empty(''db'' \<mapsto> Dir)) pre)) x))))
   \<and> runOps pairEnv (Map.empty(''db'' \<mapsto> Dir)) pairOrder =
       (True, Map.empty(''db'' \<mapsto> Dir, ''db/2'' \<mapsto> Dir, ''db/1'' \<mapsto> Dir,
                        ''db/2/2-alt'' \<mapsto> File [], ''db/1/1-alt'' \<mapsto> File []))
   \<and> addTrailingSlash ''db'' = Inr ''db/''
   \<and> latestComicNum pairEnv = Inr 2
   \<and> (if IsNotExist (Stat pairEnv Map.empty ''db/'') then Mkdir pairEnv Map.empty ''db/''
       else (Map.empty, None)) = (Map.empty(''db'' \<mapsto> Dir), None)
   \<and> missingComics pairEnv (Map.empty(''db'' \<mapsto> Dir)) 2 ''db/'' = Inr [''1'', ''2'']
   \<and> (0::int) < 20
   \<and> fst (main pairEnv 20 ''db'' Map.empty) = FatalExit
   \<and> snd (main pairEnv 20 ''db'' Map.empty) =
       Map.empty(''db'' \<mapsto> Dir, ''db/1'' \<mapsto> Dir, ''db/1/1-alt'' \<mapsto> File [])
   \<and> followSched pairOrder (map (workerOps pairEnv ''db/'') [''1'', ''2''])
        \<in> interleavings (map (workerOps pairEnv ''db/'') [''1'', ''2''])
   \<and> fst (main_sched pairEnv 20 ''db'' (followSched pairOrder) Map.empty) = FatalExit
   \<and> snd (main_sched pairEnv 20 ''db'' (followSched pairOrder) Map.empty) =
       Map.empty(''db'' \<mapsto> Dir, ''db/2'' \<mapsto> Dir, ''db/1'' \<mapsto> Dir,
                 ''db/2/2-alt'' \<mapsto> File [], ''db/1/1-alt'' \<mapsto> File [])
   \<and> fsFailure_xkcd pairEnv (Map.empty(''./xkcdDB'' \<mapsto> Dir)) ''1'' comic1
   \<and> fst (getComic_worker_xkcd pairEnv (Map.empty(''./xkcdDB'' \<mapsto> Dir)) ''1'') = Fatal
   \<and> (if IsNotExist (Stat pairEnv Map.empty dbPath_const)
       then Mkdir pairEnv Map.empty dbPath_const
       else (Map.empty, None)) = (Map.empty(''./xkcdDB'' \<mapsto> Dir), None)
   \<and> missingComics_xkcd pairEnv (Map.empty(''./xkcdDB'' \<mapsto> Dir)) 2 = Inr [''1'', ''2'']
   \<and> (\<forall>xss. followSched pairOrder_xkcd xss \<in> interleavings xss)
   \<and> fst (main_xkcd pairEnv (followSched pairOrder_xkcd) Map.empty) = FatalExit
   \<and> snd (main_xkcd pairEnv (followSched pairOrder_xkcd) Map.empty) =
       Map.empty(''./xkcdDB'' \<mapsto> Dir, ''./xkcdDB/1'' \<mapsto> Dir,
                 ''./xkcdDB/1/1-alt'' \<mapsto> File ''A'', ''./xkcdDB/2'' \<mapsto> Dir,
                 ''./xkcdDB/1/1-transcript'' \<mapsto> File [],
                 ''./xkcdDB/2/2-alt'' \<mapsto> File [], ''./xkcdDB/1/a.png'' \<mapsto> File [])
   \<and> \<not> fst (runBlocks pairEnv (followSched pairOrder_xkcd)
               (Map.empty(''./xkcdDB'' \<mapsto> Dir)) [])
   \<and> runBlocks pairEnv (followSched pairOrder_xkcd) (Map.empty(''./xkcdDB'' \<mapsto> Dir))
         ([] @ [''1'', ''2''] # [[''3'']]) =
       (True, Map.empty(''./xkcdDB'' \<mapsto> Dir, ''./xkcdDB/1'' \<mapsto> Dir,
                        ''./xkcdDB/1/1-alt'' \<mapsto> File ''A'', ''./xkcdDB/2'' \<mapsto> Dir,
                        ''./xkcdDB/1/1-transcript'' \<mapsto> File [],
                        ''./xkcdDB/2/2-alt'' \<mapsto> File [], ''./xkcdDB/1/a.png'' \<mapsto> File []))"
proof -
  let ?fs = "Map.empty(''db'' \<mapsto> Dir)"
  let ?fx = "Map.empty(''./xkcdDB'' \<mapsto> Dir)"
  have g: "Get pairEnv (xkcdURL @ ''1'' @ ''/'' @ jsonFile) = Some ''c1''"
    by (simp add: model_defs pairEnv_def quietEnv_def)
  have d: "jsonDecode pairEnv ''c1'' = Some comic1"
    by (simp add: pairEnv_def quietEnv_def)
  have f: "fsFailure pairEnv ''db/'' ?fs ''1'' comic1"
    by (simp add: fsFailure_def pairEnv_def quietEnv_def comic1_def)
  have fx: "fsFailure_xkcd pairEnv ?fx ''1'' comic1"
    by (simp add: fsFailure_xkcd_def model_defs pairEnv_def quietEnv_def comic1_def)
  have i: "''1'' \<in> set [''1'', ''2'']" by simp
  have a: "addTrailingSlash ''db'' = Inr ''db/''" by (simp add: addTrailingSlash_def)
  have r: "(0::int) < 20" by simp
  have fo: "followSched pairOrder (map (workerOps pairEnv ''db/'') [''1'', ''2''])
        \<in> interleavings (map (workerOps pairEnv ''db/'') [''1'', ''2''])"
    by (rule followSched_interleavings)
  have v: "\<forall>xss. followSched pairOrder_xkcd xss \<in> interleavings xss"
    by (simp add: followSched_interleavings)
  note T = filesystem_failure_fatal [OF g d]
  have w: "fst (getComic_worker pairEnv ''db/'' ?fs ''1'') = Fatal"
    using T [where dbPath = "''db/''" and fs = ?fs] f by blast
  have wx: "fst (getComic_worker_xkcd pairEnv ?fx ''1'') = Fatal"
    using T [where fs = ?fx] fx by blast
  have ex: "\<exists>pre x post. pairOrder = pre @ x # post
         \<and> \<not> fst (runOps pairEnv ?fs pre)
         \<and> snd (applyOp pairEnv (snd (runOps pairEnv ?fs pre)) x) \<noteq> None
         \<and> (\<forall>rest. runOps pairEnv ?fs (pre @ x # rest) =
               (True, fst (applyOp pairEnv (snd (runOps pairEnv ?fs pre)) x)))"
    using T [where dbPath = "''db/''" and fs = ?fs and dlList = "[''1'', ''2'']"
        and sch = pairOrder] i f pairOrder_interleaving
    by blast
  note M = T [where ?dbPath0.0 = "''db''" and p = "''db/''" and N = 2 and ?fs0.0 = Map.empty
      and ?fs1.0 = ?fs and missing = "[''1'', ''2'']" and rateLimit = 20
      and sched = "followSched pairOrder"]
  have m: "fst (main pairEnv 20 ''db'' Map.empty) = FatalExit"
    using M a latest_pair root_pair missing_pair r i f by blast
  have m2: "snd (main pairEnv 20 ''db'' Map.empty) =
       Map.empty(''db'' \<mapsto> Dir, ''db/1'' \<mapsto> Dir, ''db/1/1-alt'' \<mapsto> File [])"
    by (simp only: main_pair snd_conv)
  have ms: "fst (main_sched pairEnv 20 ''db'' (followSched pairOrder) Map.empty) = FatalExit"
    using M a latest_pair root_pair missing_pair r i f fo by blast
  have ms2: "snd (main_sched pairEnv 20 ''db'' (followSched pairOrder) Map.empty) =
       Map.empty(''db'' \<mapsto> Dir, ''db/2'' \<mapsto> Dir, ''db/1'' \<mapsto> Dir,
                 ''db/2/2-alt'' \<mapsto> File [], ''db/1/1-alt'' \<mapsto> File [])"
    by (simp only: main_sched_pair snd_conv)
  note X = T [where N = 2 and ?fs0.0 = Map.empty and ?fs1.0 = ?fx
      and missing = "[''1'', ''2'']" and sched = "followSched pairOrder_xkcd"]
  have mx: "fst (main_xkcd pairEnv (followSched pairOrder_xkcd) Map.empty) = FatalExit"
    using X latest_pair root_xkcd_pair missing_xkcd_pair i fx v by blast
  have mx2: "snd (main_xkcd pairEnv (followSched pairOrder_xkcd) Map.empty) =
       Map.empty(''./xkcdDB'' \<mapsto> Dir, ''./xkcdDB/1'' \<mapsto> Dir,
                 ''./xkcdDB/1/1-alt'' \<mapsto> File ''A'', ''./xkcdDB/2'' \<mapsto> Dir,
                 ''./xkcdDB/1/1-transcript'' \<mapsto> File [],
                 ''./xkcdDB/2/2-alt'' \<mapsto> File [], ''./xkcdDB/1/a.png'' \<mapsto> File [])"
    by (simp only: main_xkcd_pair snd_conv)
  have nb: "\<not> fst (runBlocks pairEnv (followSched pairOrder_xkcd) ?fx [])" by simp
  have fxb: "fsFailure_xkcd pairEnv
               (snd (runBlocks pairEnv (followSched pairOrder_xkcd) ?fx [])) ''1'' comic1"
    using fx by simp
  have vb: "followSched pairOrder_xkcd (map (workerOps_xkcd pairEnv) [''1'', ''2''])
              \<in> interleavings (map (workerOps_xkcd pairEnv) [''1'', ''2''])"
    by (rule followSched_interleavings)
  have "runBlocks pairEnv (followSched pairOrder_xkcd) ?fx ([] @ [''1'', ''2''] # [[''3'']]) =
          (True, snd (getComic_xkcd_sched pairEnv (followSched pairOrder_xkcd) [''1'', ''2'']
                        (snd (runBlocks pairEnv (followSched pairOrder_xkcd) ?fx []))))"
    using T [where comics = "[''1'', ''2'']" and sched = "followSched pairOrder_xkcd"
        and fs = ?fx and before = "[]" and later = "[[''3'']]"] i nb fxb vb
    by blast
  then have rb: "runBlocks pairEnv (followSched pairOrder_xkcd) ?fx
                   ([] @ [''1'', ''2''] # [[''3'']]) =
       (True, Map.empty(''./xkcdDB'' \<mapsto> Dir, ''./xkcdDB/1'' \<mapsto> Dir,
                        ''./xkcdDB/1/1-alt'' \<mapsto> File ''A'', ''./xkcdDB/2'' \<mapsto> Dir,
                        ''./xkcdDB/1/1-transcript'' \<mapsto> File [],
                        ''./xkcdDB/2/2-alt'' \<mapsto> File [], ''./xkcdDB/1/a.png'' \<mapsto> File []))"
    by (simp only: runBlocks.simps snd_conv getComic_xkcd_sched_pair)
  from g d f w i pairOrder_interleaving ex run_pairOrder a latest_pair root_pair missing_pair
    r m m2 fo ms ms2 fx wx root_xkcd_pair missing_xkcd_pair v mx mx2 nb rb
  show ?thesis by (intro conjI)
qed

end
